(* ===== verification/Prelude.thy ===== *)
theory Prelude
  imports Main "HOL-Library.Multiset" "HOL-Library.Sublist"
begin

section \<open>Shared vocabulary\<close>

text \<open>
  What every component of the development shares: the names of the Go types the model uses,
  the pieces of the Go standard library that several components call (\<^verbatim>\<open>strings.TrimSpace\<close>,
  decimal formatting of an index), channels that are only ever closed, reachability of a
  transition system with the generic invariant rule as a locale, and a few list and multiset
  lemmas that carry the component proofs.
\<close>

named_theorems section_defs \<open>definitions of atomic sections, unfolded in invariant proofs\<close>
named_theorems val_simps \<open>definitions of validators, unfolded in functional proofs\<close>

type_synonym duration = int
type_synonym go_time = int
type_synonym addr = nat
type_synonym panic_value = nat

abbreviation millisecond :: duration where "millisecond \<equiv> 1000000"
abbreviation second :: duration where "second \<equiv> 1000000000"
abbreviation minute :: duration where "minute \<equiv> 60 * second"
abbreviation hour :: duration where "hour \<equiv> 60 * minute"

subsection \<open>Decimal indices in field names\<close>

text \<open>\<^verbatim>\<open>fmt.Sprintf("%d", n)\<close> for the slice indices that error fields quote.\<close>

fun itoa :: "nat \<Rightarrow> string" where
  "itoa n = (if n < 10 then [char_of (48 + n)] else itoa (n div 10) @ [char_of (48 + n mod 10)])"

declare itoa.simps [simp del]

definition indexed :: "string \<Rightarrow> nat \<Rightarrow> string \<Rightarrow> string" where
  "indexed pre i post = pre @ ''['' @ itoa i @ '']'' @ post"

subsection \<open>strings.TrimSpace\<close>

text \<open>
  Strings are byte sequences. The encodings below are the UTF-8 forms of the runes that
  \<^verbatim>\<open>unicode.IsSpace\<close> accepts; the trimming loops remove them from the front and, reading the
  bytes backwards, from the end.
\<close>

definition space_runes :: "string list" where
  "space_runes = map (map (char_of :: nat \<Rightarrow> char))
     ([[9], [10], [11], [12], [13], [32], [194, 133], [194, 160], [225, 154, 128]] @
      map (\<lambda>b. [226, 128, b]) [128, 129, 130, 131, 132, 133, 134, 135, 136, 137, 138, 168, 169, 175] @
      [[226, 129, 159], [227, 128, 128]])"

fun strip_rune :: "string list \<Rightarrow> string \<Rightarrow> string option" where
  "strip_rune [] s = None"
| "strip_rune (r # rs) s =
     (if r \<noteq> [] \<and> take (length r) s = r then Some (drop (length r) s) else strip_rune rs s)"

lemma strip_rune_shorter: "strip_rune rs s = Some t \<Longrightarrow> length t < length s"
proof (induction rs)
  case (Cons r rs)
  show ?case
  proof (cases "r \<noteq> [] \<and> take (length r) s = r")
    case True
    then have "0 < length r" and "length r \<le> length s"
      by (auto, metis length_take min.absorb_iff2)
    moreover from True Cons.prems have "t = drop (length r) s" by simp
    ultimately show ?thesis by (simp del: length_greater_0_conv)
  qed (use Cons in auto)
qed simp

function trim_runes :: "string list \<Rightarrow> string \<Rightarrow> string" where
  "trim_runes rs s = (case strip_rune rs s of None \<Rightarrow> s | Some t \<Rightarrow> trim_runes rs t)"
  by pat_completeness auto
termination
  by (relation "measure (\<lambda>(rs, s). length s)") (auto dest: strip_rune_shorter)

declare trim_runes.simps [simp del]

definition trim_space :: "string \<Rightarrow> string" where
  "trim_space s = rev (trim_runes (map rev space_runes) (rev (trim_runes space_runes s)))"

lemma strip_rune_None:
  assumes "\<forall>r\<in>set rs. r \<noteq> [] \<longrightarrow> hd r \<noteq> hd s"
  shows "strip_rune rs s = None"
  using assms
proof (induction rs)
  case (Cons r rs)
  have "take (length r) s \<noteq> r" if "r \<noteq> []"
    using that Cons.prems by (cases r; cases s) auto
  with Cons show ?case by auto
qed simp

definition printable :: "char \<Rightarrow> bool" where
  "printable c \<longleftrightarrow> 33 \<le> (of_char c :: nat) \<and> (of_char c :: nat) < 127"

lemma space_bytes:
  "r \<in> set space_runes \<Longrightarrow> r \<noteq> [] \<and> \<not> printable (hd r) \<and> \<not> printable (last r)"
  by (auto simp: space_runes_def printable_def)

lemma trim_space_plain:
  assumes "s \<noteq> []" and "printable (hd s)" and "printable (last s)"
  shows "trim_space s = s"
proof -
  have "strip_rune space_runes s = None"
    using assms(2) space_bytes by (intro strip_rune_None) metis
  moreover have "strip_rune (map rev space_runes) (rev s) = None"
    using assms(3) space_bytes by (intro strip_rune_None) (auto simp: hd_rev, metis)
  ultimately show ?thesis
    by (simp add: trim_space_def trim_runes.simps)
qed

subsection \<open>Channels that are only closed\<close>

text \<open>
  The lifecycle code uses channels without values: nil, made, closed. Closing a nil or a closed
  channel panics in Go; \<open>ChanPanic\<close> is that outcome, and no operation leaves it.
\<close>

datatype chan = ChanNil | ChanOpen | ChanClosed | ChanPanic

fun close_chan :: "chan \<Rightarrow> chan" where
  "close_chan ChanOpen = ChanClosed"
| "close_chan _ = ChanPanic"

lemma close_chan_cases [simp]:
  "close_chan c = ChanClosed \<longleftrightarrow> c = ChanOpen"
  "close_chan c \<noteq> ChanNil"
  "close_chan c \<noteq> ChanOpen"
  "close_chan c = ChanPanic \<longleftrightarrow> c \<noteq> ChanOpen"
  by (cases c; simp)+

subsection \<open>Reachable states and the invariant rule\<close>

inductive reachable :: "('s \<Rightarrow> bool) \<Rightarrow> ('s \<Rightarrow> 's \<Rightarrow> bool) \<Rightarrow> 's \<Rightarrow> bool"
  for init :: "'s \<Rightarrow> bool" and step :: "'s \<Rightarrow> 's \<Rightarrow> bool" where
  reachable_init: "init s \<Longrightarrow> reachable init step s"
| reachable_step: "reachable init step s \<Longrightarrow> step s t \<Longrightarrow> reachable init step t"

locale safe_system =
  fixes init :: "'s \<Rightarrow> bool"
    and step :: "'s \<Rightarrow> 's \<Rightarrow> bool"
    and inv :: "'s \<Rightarrow> bool"
  assumes inv_init: "init s \<Longrightarrow> inv s"
    and inv_step: "inv s \<Longrightarrow> step s t \<Longrightarrow> inv t"
begin

lemma reachable_inv: "reachable init step s \<Longrightarrow> inv s"
  by (induction rule: reachable.induct) (auto intro: inv_init inv_step)

lemma reachable_steps_inv: "inv s \<Longrightarrow> step\<^sup>*\<^sup>* s t \<Longrightarrow> inv t"
  by (rotate_tac 1, induction rule: rtranclp_induct) (auto intro: inv_step)

end

subsection \<open>Lists and multisets\<close>

lemma size_filter_add_mset [simp]:
  "size (filter_mset P (add_mset x M)) = (if P x then Suc (size (filter_mset P M)) else size (filter_mset P M))"
  by simp

lemma size_filter_zero: "size (filter_mset P M) = 0 \<longleftrightarrow> (\<forall>x\<in>#M. \<not> P x)"
  by (induction M) auto

lemma size_filter_pos: "x \<in># M \<Longrightarrow> P x \<Longrightarrow> 0 < size (filter_mset P M)"
  by (metis gr0I size_filter_zero)

lemma rev_upt_Suc [simp]: "rev [0..<Suc n] = n # rev [0..<n]"
  by simp

lemma find_append: "find P (xs @ ys) = (case find P xs of None \<Rightarrow> find P ys | Some x \<Rightarrow> Some x)"
  by (induction xs) auto

subsection \<open>Validation of named lists\<close>

text \<open>A chain of guards returns a value exactly when no guard fires.\<close>

lemma accepted_simps:
  "(\<exists>p. (if c then Inl e else x) = Inr p) \<longleftrightarrow> \<not> c \<and> (\<exists>p. x = Inr p)"
  "(\<exists>p. (case opt of None \<Rightarrow> Inr v | Some e \<Rightarrow> Inl e) = Inr p) \<longleftrightarrow> opt = None"
  by (auto split: option.splits)

text \<open>
  Several constructors walk a slice, reject an element that is invalid by itself and an element
  whose name an earlier one had. The locale is that loop's contract; its lemma says what such a
  loop accepts.
\<close>

locale named_validation =
  fixes accepts :: "nat \<Rightarrow> string list \<Rightarrow> 'a list \<Rightarrow> bool"
    and name :: "'a \<Rightarrow> string"
    and valid :: "'a \<Rightarrow> bool"
  assumes accepts_Nil: "accepts i names []"
    and accepts_Cons: "accepts i names (x # xs) \<longleftrightarrow>
      valid x \<and> name x \<notin> set names \<and> accepts (Suc i) (name x # names) xs"
begin

lemma accepts_iff:
  "accepts i names xs \<longleftrightarrow>
     (\<forall>x\<in>set xs. valid x) \<and> distinct (map name xs) \<and> set names \<inter> name ` set xs = {}"
  by (induction xs arbitrary: i names) (auto simp: accepts_Nil accepts_Cons)

end

end
