(* ===== verification/Go_Errors.thy ===== *)
theory Go_Errors
  imports Prelude
begin

section \<open>Error values\<close>

text \<open>
  Go's \<^verbatim>\<open>error\<close> interface values as labelled trees. Every error type of the module that the
  lifecycle produces is a constructor with the source's fields; a pointer type carries the address
  of its allocation, so that equality of trees is the pointer equality \<^verbatim>\<open>err == target\<close> of the
  source and a cause shared by two parents is the same tree twice. \<open>NilErr\<close> is the nil interface.
  Errors of other packages (application errors, the command-line library's errors) are
  \<open>AppErr\<close> and \<open>CliErr\<close>: their dynamic type may be comparable, slice backed or neither, they
  may have \<^verbatim>\<open>Is\<close> and \<^verbatim>\<open>As\<close> hooks (the targets the hook accepts, the values it stores) and
  unwrap to anything. An application can only build finite trees of them: a cause exists before the
  error that wraps it.
\<close>

datatype lifecycle_state =
  StateNew | StateStarting | StateReady | StateDraining | StateStopping | StateStopped

datatype os_signal = Interrupt | SIGTERM | OtherSignal nat

datatype sentinel =
    ErrShutdown | ErrInvalidConfig | ErrInvalidState | ErrSignal | ErrMaintenance
  | ErrInvalidDefinition | ErrResourceNotStarted | ErrResourceAlreadyStarted
  | ErrResourceClosed | ErrResourceNil | ErrHandlersUnjoined | HTTPInvalidConfig
  | HTTPInvalidState | HealthInvalidConfig | ErrServerClosed | NetErrClosed
  | Canceled | DeadlineExceeded

datatype cli_kind =
    ErrorKindHelp | ErrorKindVersion | ErrorKindUnknownCommand | ErrorKindUnknownOption
  | ErrorKindMissingValue | ErrorKindUsage | ErrorKindMalformedValue | ErrorKindCommand
  | ErrorKindOther

datatype app_shape = ComparableShape | SliceShape | OpaqueShape

datatype 'e unwrapping = NoUnwrap | UnwrapOne 'e | UnwrapMany "'e list"

fun unwrapped :: "'e unwrapping \<Rightarrow> 'e list" where
  "unwrapped NoUnwrap = []"
| "unwrapped (UnwrapOne e) = [e]"
| "unwrapped (UnwrapMany es) = es"

datatype go_error =
    NilErr
  | Sentinel sentinel
  | ErrorString addr string
  | ConfigError addr string string
  | StateError addr string lifecycle_state
  | ComponentError addr string string go_error
  | PanicError addr string string panic_value
  | StartupError addr string go_error "go_error list"
  | ShutdownError addr "go_error list"
  | SignalError addr os_signal
  | DefinitionError addr string string
  | ConfigurationError addr string go_error
  | ConstructionError addr string go_error
  | ShutdownTimeoutError addr go_error
  | MaintenanceError addr string go_error
  | HTTPConfigError addr string string
  | HTTPStateError addr string string
  | ServeError addr go_error
  | RunError addr "go_error list"
  | JoinError addr "go_error list"
  | CliErr addr cli_kind "go_error unwrapping"
  | AppErr addr app_shape "go_error list" "go_error list" "go_error unwrapping"

text \<open>The \<^verbatim>\<open>Unwrap\<close> method of each type.\<close>

fun unwrap :: "go_error \<Rightarrow> go_error unwrapping" where
  "unwrap (ConfigError _ _ _) = UnwrapOne (Sentinel ErrInvalidConfig)"
| "unwrap (StateError _ _ _) = UnwrapOne (Sentinel ErrInvalidState)"
| "unwrap (ComponentError _ _ _ e) = UnwrapOne e"
| "unwrap (StartupError _ _ e rb) = UnwrapMany (e # rb)"
| "unwrap (ShutdownError _ fs) = UnwrapMany fs"
| "unwrap (SignalError _ _) = UnwrapOne (Sentinel ErrSignal)"
| "unwrap (DefinitionError _ _ _) = UnwrapOne (Sentinel ErrInvalidDefinition)"
| "unwrap (ConfigurationError _ _ e) = UnwrapOne e"
| "unwrap (ConstructionError _ _ e) = UnwrapOne e"
| "unwrap (ShutdownTimeoutError _ e) = UnwrapOne e"
| "unwrap (MaintenanceError _ _ e) = UnwrapMany [Sentinel ErrMaintenance, e]"
| "unwrap (HTTPConfigError _ _ _) = UnwrapOne (Sentinel HTTPInvalidConfig)"
| "unwrap (HTTPStateError _ _ _) = UnwrapOne (Sentinel HTTPInvalidState)"
| "unwrap (ServeError _ e) = UnwrapOne e"
| "unwrap (RunError _ fs) = UnwrapMany fs"
| "unwrap (JoinError _ es) = UnwrapMany es"
| "unwrap (CliErr _ _ w) = w"
| "unwrap (AppErr _ _ _ _ w) = w"
| "unwrap _ = NoUnwrap"

text \<open>\<^verbatim>\<open>reflect.ValueOf(err).Comparable()\<close>: everything but the opaque and slice shapes.\<close>

fun comparable :: "go_error \<Rightarrow> bool" where
  "comparable (AppErr _ shape _ _ _) = (shape = ComparableShape)"
| "comparable _ = True"

text \<open>The shallow hooks: \<^verbatim>\<open>Is\<close> accepts the listed targets, \<^verbatim>\<open>As\<close> can store the listed values.\<close>

fun is_hook :: "go_error \<Rightarrow> go_error \<Rightarrow> bool" where
  "is_hook (AppErr _ _ targets _ _) target = (target \<in> set targets)"
| "is_hook _ _ = False"

fun as_hook :: "go_error \<Rightarrow> (go_error \<Rightarrow> bool) \<Rightarrow> go_error option" where
  "as_hook (AppErr _ _ _ stored _) is_type = find is_type stored"
| "as_hook _ _ = None"

text \<open>\<^verbatim>\<open>errors.Join\<close>: nil arguments are dropped; no argument left gives nil.\<close>

definition errors_join :: "addr \<Rightarrow> go_error list \<Rightarrow> go_error" where
  "errors_join a es =
     (let present = filter (\<lambda>e. e \<noteq> NilErr) es
      in if present = [] then NilErr else JoinError a present)"

subsection \<open>Contexts\<close>

text \<open>
  A \<^verbatim>\<open>context.Context\<close> as the lifecycle reads it: not done, or done with the pair
  \<^verbatim>\<open>ctx.Err()\<close>, \<^verbatim>\<open>context.Cause(ctx)\<close>. The first cancellation wins.
\<close>

datatype ctx_state = CtxActive | CtxDone go_error go_error

fun ctx_err :: "ctx_state \<Rightarrow> go_error" where
  "ctx_err CtxActive = NilErr"
| "ctx_err (CtxDone e _) = e"

fun ctx_cause :: "ctx_state \<Rightarrow> go_error" where
  "ctx_cause CtxActive = NilErr"
| "ctx_cause (CtxDone _ c) = c"

fun end_ctx :: "go_error \<Rightarrow> go_error \<Rightarrow> ctx_state \<Rightarrow> ctx_state" where
  "end_ctx e c CtxActive = CtxDone e c"
| "end_ctx _ _ (CtxDone e c) = CtxDone e c"

text \<open>\<^verbatim>\<open>CancelCauseFunc(cause)\<close>: a nil cause stands for \<^verbatim>\<open>context.Canceled\<close>.\<close>

definition cancel_cause :: "go_error \<Rightarrow> ctx_state \<Rightarrow> ctx_state" where
  "cancel_cause c = end_ctx (Sentinel Canceled) (if c = NilErr then Sentinel Canceled else c)"

definition deadline_passes :: "ctx_state \<Rightarrow> ctx_state" where
  "deadline_passes = end_ctx (Sentinel DeadlineExceeded) (Sentinel DeadlineExceeded)"

subsection \<open>The order of unwrapping\<close>

text \<open>The children in the order both unwrap forms list them, and a size that unwrapping decreases.\<close>

definition children :: "go_error \<Rightarrow> go_error list" where
  "children e = unwrapped (unwrap e)"

primrec weight :: "go_error \<Rightarrow> nat" where
  "weight NilErr = 1"
| "weight (Sentinel _) = 1"
| "weight (ErrorString _ _) = 1"
| "weight (ConfigError _ _ _) = 2"
| "weight (StateError _ _ _) = 2"
| "weight (ComponentError _ _ _ e) = Suc (weight e)"
| "weight (PanicError _ _ _ _) = 1"
| "weight (StartupError _ _ e rb) = Suc (weight e + sum_list (map weight rb))"
| "weight (ShutdownError _ fs) = Suc (sum_list (map weight fs))"
| "weight (SignalError _ _) = 2"
| "weight (DefinitionError _ _ _) = 2"
| "weight (ConfigurationError _ _ e) = Suc (weight e)"
| "weight (ConstructionError _ _ e) = Suc (weight e)"
| "weight (ShutdownTimeoutError _ e) = Suc (weight e)"
| "weight (MaintenanceError _ _ e) = 2 + weight e"
| "weight (HTTPConfigError _ _ _) = 2"
| "weight (HTTPStateError _ _ _) = 2"
| "weight (ServeError _ e) = Suc (weight e)"
| "weight (RunError _ fs) = Suc (sum_list (map weight fs))"
| "weight (JoinError _ es) = Suc (sum_list (map weight es))"
| "weight (CliErr _ _ w) = Suc (sum_list (unwrapped (map_unwrapping weight w)))"
| "weight (AppErr _ _ _ _ w) = Suc (sum_list (unwrapped (map_unwrapping weight w)))"

lemma unwrapped_map [simp]: "unwrapped (map_unwrapping f w) = map f (unwrapped w)"
  by (cases w) auto

lemma weight_pos [simp]: "0 < weight e"
  by (cases e) auto

lemma children_weight: "sum_list (map weight (children e)) < weight e"
  by (cases e) (auto simp: children_def)

lemma child_lighter:
  assumes "c \<in> set (children e)"
  shows "weight c < weight e"
proof -
  from assms have "weight c \<le> sum_list (map weight (children e))"
    by (intro member_le_sum_list) simp_all
  then show ?thesis using children_weight[of e] by simp
qed

lemma errors_join_Nil [simp]: "errors_join a es = NilErr \<longleftrightarrow> (\<forall>e\<in>set es. e = NilErr)"
  by (auto simp: errors_join_def Let_def filter_empty_conv)

end
