(* ===== verification/Classification.thy ===== *)
theory Classification
  imports Go_Errors
begin

section \<open>Classification of error graphs\<close>

text \<open>
  Models \<^verbatim>\<open>classification.go\<close> and the cancellation test of \<^verbatim>\<open>lifecycle.go\<close>: the walk with a
  stack and a set of visited causes, \<open>classificationIs\<close>, \<open>classificationAs\<close>, and the memoised
  \<open>cancellationOnly\<close>. The lemmas show that the visited set and the memo table never change a
  result: the walk finds the first match of the standard depth-first order, and the memoised test
  is the plain recursive one.
\<close>

subsection \<open>walkClassification\<close>

fun identifiable :: "go_error \<Rightarrow> bool" where
  "identifiable (AppErr _ shape _ _ _) = (shape \<noteq> OpaqueShape)"
| "identifiable _ = True"

text \<open>
  The loop of \<^verbatim>\<open>walkClassification\<close>. The stack's top is the end of \<open>pending\<close>; the result is
  the cause on which \<open>match\<close> succeeded, so that the typed variants can read what was stored.
\<close>

function walk_loop :: "(go_error \<Rightarrow> bool) \<Rightarrow> go_error list \<Rightarrow> go_error list \<Rightarrow> go_error option" where
  "walk_loop match seen pending =
     (if pending = [] then None
      else let current = last pending; rest = butlast pending in
        if current = NilErr then walk_loop match seen rest
        else if identifiable current \<and> current \<in> set seen then walk_loop match seen rest
        else let seen' = (if identifiable current then current # seen else seen) in
          if match current then Some current
          else walk_loop match seen' (rest @ rev (children current)))"
  by pat_completeness auto
termination
proof (relation "measure (\<lambda>(match, seen, pending). sum_list (map weight pending))", goal_cases)
  case 1
  show ?case by simp
next
  case (2 match seen pending current rest)
  then show ?case
    by (cases pending rule: rev_cases) auto
next
  case (3 match seen pending current rest)
  then show ?case
    by (cases pending rule: rev_cases) auto
next
  case (4 match seen pending current rest seen')
  then show ?case
    using children_weight[of current]
    by (cases pending rule: rev_cases) (auto simp: rev_map[symmetric])
qed

declare walk_loop.simps [simp del]

definition walkClassification :: "go_error \<Rightarrow> (go_error \<Rightarrow> bool) \<Rightarrow> go_error option" where
  "walkClassification err match = walk_loop match [] [err]"

definition classificationIs :: "go_error \<Rightarrow> go_error \<Rightarrow> bool" where
  "classificationIs err target =
     (if err = NilErr \<or> target = NilErr then err = NilErr \<and> target = NilErr
      else walkClassification err
             (\<lambda>current. (comparable target \<and> current = target) \<or> is_hook current target) \<noteq> None)"

definition classificationAs :: "(go_error \<Rightarrow> bool) \<Rightarrow> go_error \<Rightarrow> go_error option" where
  "classificationAs is_type err =
     (case walkClassification err (\<lambda>current. is_type current \<or> as_hook current is_type \<noteq> None) of
        None \<Rightarrow> None
      | Some current \<Rightarrow> if is_type current then Some current else as_hook current is_type)"

subsection \<open>The standard depth-first order\<close>

function preorder :: "go_error \<Rightarrow> go_error list" where
  "preorder e = (if e = NilErr then [] else e # concat (map preorder (children e)))"
  by pat_completeness auto
termination
  by (relation "measure weight") (auto intro: child_lighter)

declare preorder.simps [simp del]

subsection \<open>The cancellation test\<close>

definition failed_operation :: "go_error \<Rightarrow> bool" where
  "failed_operation e =
     (case e of RunError _ _ \<Rightarrow> True | ServeError _ _ \<Rightarrow> True | ShutdownError _ _ \<Rightarrow> True
      | ShutdownTimeoutError _ _ \<Rightarrow> True | StartupError _ _ _ rb \<Rightarrow> rb \<noteq> [] | _ \<Rightarrow> False)"

definition is_cause :: "ctx_state \<Rightarrow> go_error \<Rightarrow> bool" where
  "is_cause ctx err = (comparable err \<and> comparable (ctx_cause ctx) \<and> err = ctx_cause ctx)"

definition shallow_match :: "ctx_state \<Rightarrow> go_error \<Rightarrow> bool \<Rightarrow> bool" where
  "shallow_match ctx err matched =
     (matched \<or> (comparable err \<and> err = ctx_err ctx) \<or>
      is_hook err (ctx_err ctx) \<or> is_hook err (ctx_cause ctx))"

type_synonym known = "go_error \<times> bool \<Rightarrow> bool option"

function cancellationOnly ::
    "ctx_state \<Rightarrow> go_error \<Rightarrow> bool \<Rightarrow> known \<Rightarrow> bool \<times> known"
  and cancellationBody ::
    "ctx_state \<Rightarrow> go_error \<Rightarrow> bool \<Rightarrow> known \<Rightarrow> bool \<times> known"
  and cancellationChildren ::
    "ctx_state \<Rightarrow> go_error list \<Rightarrow> bool \<Rightarrow> known \<Rightarrow> bool \<times> known" where
  "cancellationOnly ctx err matched known =
     (if err = NilErr then (False, known)
      else if identifiable err then
        (case known (err, matched) of
           Some result \<Rightarrow> (result, known)
         | None \<Rightarrow>
             let (only, known') = cancellationBody ctx err matched (known((err, matched) \<mapsto> False))
             in (only, known'((err, matched) \<mapsto> only)))
      else cancellationBody ctx err matched known)"
| "cancellationBody ctx err matched known =
     (if failed_operation err then (False, known)
      else if is_cause ctx err then (True, known)
      else let matched' = shallow_match ctx err matched in
        (case unwrap err of
           UnwrapMany cs \<Rightarrow> cancellationChildren ctx cs False known
         | UnwrapOne child \<Rightarrow>
             if child \<noteq> NilErr then cancellationOnly ctx child matched' known else (matched', known)
         | NoUnwrap \<Rightarrow> (matched', known)))"
| "cancellationChildren ctx [] seen known = (seen, known)"
| "cancellationChildren ctx (child # cs) seen known =
     (if child = NilErr then cancellationChildren ctx cs seen known
      else let (only, known') = cancellationOnly ctx child False known in
        if \<not> only then (False, known') else cancellationChildren ctx cs True known')"
  by pat_completeness auto
termination
proof (relation "measure (\<lambda>x. case x of
      Inl (ctx, e, _, _) \<Rightarrow> 3 * weight e
    | Inr (Inl (ctx, e, _, _)) \<Rightarrow> 3 * weight e - 1
    | Inr (Inr (ctx, es, _, _)) \<Rightarrow> 1 + 3 * sum_list (map weight es))", goal_cases)
  case (4 ctx err matched known matched' cs)
  then show ?case using children_weight[of err] by (simp add: children_def)
next
  case (5 ctx err matched known matched' child)
  then show ?case using children_weight[of err] by (simp add: children_def)
qed auto

declare cancellationOnly.simps [simp del] cancellationBody.simps [simp del]

definition isCancellationResult :: "ctx_state \<Rightarrow> go_error \<Rightarrow> bool" where
  "isCancellationResult ctx err =
     (if ctx_err ctx = NilErr then False
      else fst (cancellationOnly ctx err False Map.empty))"

text \<open>
  The reference test, without a memo table: an error acknowledges the cancellation when it is the
  cause itself, or a chain of single wrappers one of which matches, or a join all of whose parts
  do so on their own; an operation's failure report never does.
\<close>

function acknowledges :: "ctx_state \<Rightarrow> go_error \<Rightarrow> bool \<Rightarrow> bool" where
  "acknowledges ctx err matched =
     (err \<noteq> NilErr \<and> \<not> failed_operation err \<and>
      (is_cause ctx err \<or>
       (case unwrap err of
          UnwrapMany cs \<Rightarrow>
            (\<exists>c\<in>set cs. c \<noteq> NilErr) \<and> (\<forall>c\<in>set cs. c \<noteq> NilErr \<longrightarrow> acknowledges ctx c False)
        | UnwrapOne c \<Rightarrow>
            if c \<noteq> NilErr then acknowledges ctx c (shallow_match ctx err matched)
            else shallow_match ctx err matched
        | NoUnwrap \<Rightarrow> shallow_match ctx err matched)))"
  by pat_completeness auto
termination
  by (relation "measure (\<lambda>(ctx, e, m). weight e)")
    (auto intro: child_lighter simp: children_def)

declare acknowledges.simps [simp del]

subsection \<open>The visited set does not change the walk\<close>

lemma walk_Nil [simp]: "walk_loop m seen [] = None"
  by (simp add: walk_loop.simps)

lemma walk_snoc:
  "walk_loop m seen (rest @ [e]) =
     (if e = NilErr \<or> identifiable e \<and> e \<in> set seen then walk_loop m seen rest
      else if m e then Some e
      else walk_loop m (if identifiable e then e # seen else seen) (rest @ rev (children e)))"
  by (subst walk_loop.simps) (auto simp: Let_def)

definition no_match :: "(go_error \<Rightarrow> bool) \<Rightarrow> go_error \<Rightarrow> bool" where
  "no_match m e \<longleftrightarrow> (\<forall>t\<in>set (preorder e). \<not> m t)"

lemma no_match_find: "no_match m e \<longleftrightarrow> find m (preorder e) = None"
  by (auto simp: no_match_def find_None_iff)

lemma preorder_NilErr [simp]: "preorder NilErr = []"
  by (simp add: preorder.simps)

lemma preorder_node: "e \<noteq> NilErr \<Longrightarrow> preorder e = e # concat (map preorder (children e))"
  by (simp add: preorder.simps[of e])

lemma preorder_trans: "t \<in> set (preorder e) \<Longrightarrow> set (preorder t) \<subseteq> set (preorder e)"
proof (induction e rule: preorder.induct)
  case (1 e)
  show ?case
  proof (cases "e = NilErr \<or> t = e")
    case False
    with "1.prems" obtain c where c: "c \<in> set (children e)" "t \<in> set (preorder c)"
      by (auto simp: preorder_node)
    with "1.IH" False have "set (preorder t) \<subseteq> set (preorder c)" by blast
    with c False show ?thesis by (auto simp: preorder_node)
  qed (use "1.prems" in auto)
qed

lemma no_match_inside: "no_match m e \<Longrightarrow> t \<in> set (preorder e) \<Longrightarrow> no_match m t"
  using preorder_trans by (fastforce simp: no_match_def)

text \<open>
  Causes seen earlier either were explored without a match or are heavier, hence ancestors, of
  everything still on top of the stack.
\<close>

definition explored :: "(go_error \<Rightarrow> bool) \<Rightarrow> go_error list \<Rightarrow> go_error list \<Rightarrow> bool" where
  "explored m seen es \<longleftrightarrow> (\<forall>s\<in>set seen. no_match m s \<or> (\<forall>e\<in>set es. weight e < weight s))"

definition preorders :: "go_error list \<Rightarrow> go_error list" where
  "preorders es = concat (map preorder es)"

lemma preorders_simps [simp]:
  "preorders [] = []" "preorders (e # es) = preorder e @ preorders es"
  by (simp_all add: preorders_def)

lemma preorder_descend: "e \<noteq> NilErr \<Longrightarrow> preorder e = e # preorders (children e)"
  by (simp add: preorder_node preorders_def)

definition scans :: "(go_error \<Rightarrow> bool) \<Rightarrow> go_error list \<Rightarrow> go_error list \<Rightarrow> bool" where
  "scans m seen es \<longleftrightarrow> (\<forall>rest.
     (\<forall>t. find m (preorders es) = Some t \<longrightarrow> walk_loop m seen (rest @ rev es) = Some t) \<and>
     (find m (preorders es) = None \<longrightarrow>
        (\<exists>seen'. set seen' \<subseteq> set seen \<union> set (preorders es) \<and>
                 walk_loop m seen (rest @ rev es) = walk_loop m seen' rest)))"

lemma scans_Nil: "scans m seen []"
  by (auto simp: scans_def)

lemma scans_SomeD:
  "scans m seen es \<Longrightarrow> find m (preorders es) = Some t \<Longrightarrow> walk_loop m seen (rest @ rev es) = Some t"
  by (simp add: scans_def)

lemma scans_NoneE:
  assumes "scans m seen es" and "find m (preorders es) = None"
  obtains seen' where "set seen' \<subseteq> set seen \<union> set (preorders es)"
    and "walk_loop m seen (rest @ rev es) = walk_loop m seen' rest"
  using assms unfolding scans_def by blast

text \<open>Processing the top of the stack reduces a scan of \<open>e # es\<close> to one of \<open>es\<close>.\<close>

lemma scans_after:
  assumes walk: "\<And>rest. \<exists>seen'. walk_loop m seen ((rest @ rev es) @ [e]) = walk_loop m seen' (rest @ rev es)
        \<and> set seen' \<subseteq> set seen \<union> set (preorder e) \<and> scans m seen' es"
    and none: "no_match m e"
  shows "scans m seen (e # es)"
  unfolding scans_def
proof (intro allI conjI impI)
  fix rest t
  have split: "find m (preorders (e # es)) = find m (preorders es)"
    using none by (simp add: no_match_find find_append)
  obtain seen' where seen': "walk_loop m seen (rest @ rev (e # es)) = walk_loop m seen' (rest @ rev es)"
      "set seen' \<subseteq> set seen \<union> set (preorder e)" "scans m seen' es"
    using walk[of rest] by auto
  show "walk_loop m seen (rest @ rev (e # es)) = Some t" if "find m (preorders (e # es)) = Some t"
    using that seen' split scans_SomeD by metis
  show "\<exists>seen'. set seen' \<subseteq> set seen \<union> set (preorders (e # es)) \<and>
      walk_loop m seen (rest @ rev (e # es)) = walk_loop m seen' rest"
    if "find m (preorders (e # es)) = None"
  proof -
    from that split seen'(3) obtain seen'' where
      "set seen'' \<subseteq> set seen' \<union> set (preorders es)"
      "walk_loop m seen' (rest @ rev es) = walk_loop m seen'' rest"
      by (metis scans_NoneE)
    with seen'(1,2) show ?thesis by (intro exI[of _ seen'']) auto
  qed
qed

lemma scans_skip:
  assumes "e = NilErr \<or> identifiable e \<and> e \<in> set seen" and "no_match m e" and "scans m seen es"
  shows "scans m seen (e # es)"
  using assms by (intro scans_after) (auto simp: walk_snoc simp del: append_assoc intro!: exI[of _ seen])

lemma scans_hit:
  assumes "e \<noteq> NilErr" and "\<not> (identifiable e \<and> e \<in> set seen)" and "m e"
  shows "scans m seen (e # es)"
proof -
  have "walk_loop m seen (rest @ rev (e # es)) = Some e" for rest
    using assms walk_snoc[of m seen "rest @ rev es" e] by auto
  then show ?thesis using assms by (simp add: scans_def preorder_descend)
qed

lemma scans_descend:
  assumes e: "e \<noteq> NilErr" "\<not> (identifiable e \<and> e \<in> set seen)" "\<not> m e"
    and kids: "scans m (if identifiable e then e # seen else seen) (children e)"
    and later: "\<And>seen'. set seen' \<subseteq> set seen \<union> set (preorder e) \<Longrightarrow> no_match m e \<Longrightarrow> scans m seen' es"
  shows "scans m seen (e # es)"
proof -
  let ?seen = "if identifiable e then e # seen else seen"
  have first: "walk_loop m seen ((rest @ rev es) @ [e]) =
      walk_loop m ?seen ((rest @ rev es) @ rev (children e))" for rest
    using e by (auto simp: walk_snoc simp del: append_assoc)
  show ?thesis
  proof (cases "find m (preorders (children e))")
    case (Some t)
    then have "walk_loop m seen (rest @ rev (e # es)) = Some t" for rest
      using first[of rest] scans_SomeD[OF kids Some, of "rest @ rev es"] by simp
    moreover have "find m (preorders (e # es)) = Some t"
      using Some e(1,3) by (simp add: preorder_descend find_append)
    ultimately show ?thesis by (simp add: scans_def)
  next
    case None
    have clean: "no_match m e" using None e(1,3) by (simp add: no_match_find preorder_descend)
    show ?thesis
    proof (rule scans_after[OF _ clean])
      fix rest
      obtain seen' where "set seen' \<subseteq> set ?seen \<union> set (preorders (children e))"
        and "walk_loop m ?seen ((rest @ rev es) @ rev (children e)) = walk_loop m seen' (rest @ rev es)"
        using scans_NoneE[OF kids None] by blast
      moreover from this(1) have "set seen' \<subseteq> set seen \<union> set (preorder e)"
        using e(1) by (auto simp: preorder_descend split: if_splits)
      ultimately show "\<exists>seen'. walk_loop m seen ((rest @ rev es) @ [e]) = walk_loop m seen' (rest @ rev es)
          \<and> set seen' \<subseteq> set seen \<union> set (preorder e) \<and> scans m seen' es"
        using first clean later by auto
    qed
  qed
qed

lemma walk_stack: "explored m seen es \<Longrightarrow> scans m seen es"
proof (induction "sum_list (map weight es)" arbitrary: es seen rule: less_induct)
  case less
  show ?case
  proof (cases es)
    case (Cons e es')
    have rest: "explored m s es' \<Longrightarrow> scans m s es'" for s
      using less.hyps by (simp add: Cons)
    have seen: "explored m seen es'"
      using less.prems by (auto simp: explored_def Cons)
    consider (skip) "e = NilErr \<or> identifiable e \<and> e \<in> set seen"
      | (hit) "e \<noteq> NilErr" "\<not> (identifiable e \<and> e \<in> set seen)" "m e"
      | (descend) "e \<noteq> NilErr" "\<not> (identifiable e \<and> e \<in> set seen)" "\<not> m e"
      by blast
    then show ?thesis
    proof cases
      case skip
      moreover have "no_match m e"
        using skip less.prems by (auto simp: explored_def Cons no_match_def)
      ultimately show ?thesis unfolding Cons using rest[OF seen] by (rule scans_skip)
    next
      case hit
      then show ?thesis unfolding Cons by (rule scans_hit)
    next
      case descend
      then show ?thesis unfolding Cons
      proof (rule scans_descend)
        show "scans m (if identifiable e then e # seen else seen) (children e)"
          using less.prems children_weight[of e] child_lighter[of _ e]
          by (intro less.hyps) (fastforce simp: explored_def Cons)+
        show "scans m seen' es'"
          if "set seen' \<subseteq> set seen \<union> set (preorder e)" "no_match m e" for seen'
          using seen that no_match_inside by (intro rest) (fastforce simp: explored_def)
      qed
    qed
  qed (simp add: scans_Nil)
qed

lemma walk_finds_first: "walkClassification err match = find match (preorder err)"
proof -
  have "explored match [] [err]" by (simp add: explored_def)
  then have scan: "scans match [] [err]" by (rule walk_stack)
  show ?thesis
    using scans_SomeD[OF scan, where rest = "[]"] scans_NoneE[OF scan, where rest = "[]"]
    by (cases "find match (preorder err)") (auto simp: walkClassification_def)
qed

lemma classificationIs_iff:
  assumes "err \<noteq> NilErr" and "target \<noteq> NilErr"
  shows "classificationIs err target \<longleftrightarrow>
    (\<exists>t\<in>set (preorder err). comparable target \<and> t = target \<or> is_hook t target)"
  using assms by (auto simp: classificationIs_def walk_finds_first find_None_iff)

lemma find_hit: "find P xs = Some x \<Longrightarrow> P x \<and> x \<in> set xs"
  by (auto simp: find_Some_iff)

lemma classificationAs_None:
  "classificationAs ty err = None \<longleftrightarrow> (\<forall>t\<in>set (preorder err). \<not> ty t \<and> as_hook t ty = None)"
  by (fastforce simp: classificationAs_def walk_finds_first find_None_iff dest: find_hit
      split: option.splits if_splits)

lemma as_hook_type: "as_hook e ty = Some v \<Longrightarrow> ty v"
  by (cases e) (auto dest: find_hit)

lemma classificationAs_type: "classificationAs ty err = Some v \<Longrightarrow> ty v"
  by (auto simp: classificationAs_def dest: as_hook_type split: option.splits if_splits)

subsection \<open>The memo table does not change the cancellation test\<close>

text \<open>
  While a cause is being examined its own entry is provisionally false. Entries of lighter causes
  are right, and a call only adds right entries.
\<close>

definition memo_ok :: "ctx_state \<Rightarrow> nat \<Rightarrow> known \<Rightarrow> bool" where
  "memo_ok ctx w known \<longleftrightarrow>
     (\<forall>e m r. known (e, m) = Some r \<longrightarrow> weight e \<le> w \<longrightarrow> r = acknowledges ctx e m)"

definition adds_right :: "ctx_state \<Rightarrow> known \<Rightarrow> known \<Rightarrow> bool" where
  "adds_right ctx known known' \<longleftrightarrow>
     (\<forall>e m r. known' (e, m) = Some r \<longrightarrow> known (e, m) = Some r \<or> r = acknowledges ctx e m)"

lemma memo_ok_mono: "memo_ok ctx w known \<Longrightarrow> v \<le> w \<Longrightarrow> memo_ok ctx v known"
  by (fastforce simp: memo_ok_def)

lemma adds_right_ok: "adds_right ctx known known' \<Longrightarrow> memo_ok ctx w known \<Longrightarrow> memo_ok ctx w known'"
  by (fastforce simp: memo_ok_def adds_right_def)

lemma adds_right_refl [simp]: "adds_right ctx known known"
  by (simp add: adds_right_def)

lemma adds_right_trans:
  "adds_right ctx k1 k2 \<Longrightarrow> adds_right ctx k2 k3 \<Longrightarrow> adds_right ctx k1 k3"
  by (fastforce simp: adds_right_def)

lemma memo_ok_provisional:
  assumes "memo_ok ctx (weight e) known"
  shows "memo_ok ctx (weight e - 1) (known((e, m) \<mapsto> False))"
proof -
  have "\<not> weight e \<le> weight e - 1" using weight_pos[of e] by arith
  with assms show ?thesis
    by (auto simp: memo_ok_def simp del: One_nat_def split: if_splits)
qed

lemma adds_right_settle:
  "adds_right ctx (known((e, m) \<mapsto> b)) known' \<Longrightarrow> r = acknowledges ctx e m \<Longrightarrow>
     adds_right ctx known (known'((e, m) \<mapsto> r))"
  unfolding adds_right_def by (intro allI impI) (metis fun_upd_apply option.inject prod.inject)

lemma cancellationOnly_NilErr [simp]:
  "cancellationOnly ctx NilErr matched known = (False, known)"
  "acknowledges ctx NilErr matched = False"
  by (simp_all add: cancellationOnly.simps acknowledges.simps)

lemma memo_correct:
  shows only_correct: "memo_ok ctx (weight err) known \<Longrightarrow>
      (case cancellationOnly ctx err matched known of (only, known') \<Rightarrow>
         only = acknowledges ctx err matched \<and> adds_right ctx known known')"
    and body_correct: "err \<noteq> NilErr \<Longrightarrow> memo_ok ctx (weight err - 1) known \<Longrightarrow>
      (case cancellationBody ctx err matched known of (only, known') \<Rightarrow>
         only = acknowledges ctx err matched \<and> adds_right ctx known known')"
    and children_correct: "\<forall>c\<in>set cs. memo_ok ctx (weight c) known \<Longrightarrow>
      (case cancellationChildren ctx cs seen known of (only, known') \<Rightarrow>
         only = ((seen \<or> (\<exists>c\<in>set cs. c \<noteq> NilErr)) \<and>
                 (\<forall>c\<in>set cs. c \<noteq> NilErr \<longrightarrow> acknowledges ctx c False)) \<and>
         adds_right ctx known known')"
proof (induction ctx err matched known and ctx err matched known and ctx cs seen known
    rule: cancellationOnly_cancellationBody_cancellationChildren.induct)
  case (1 ctx err matched known)
  show ?case
  proof (cases "err = NilErr \<or> \<not> identifiable err \<or> known (err, matched) \<noteq> None")
    case True
    then consider "err = NilErr" | "err \<noteq> NilErr" "\<not> identifiable err"
      | "err \<noteq> NilErr" "identifiable err" "known (err, matched) \<noteq> None" by blast
    then show ?thesis
    proof cases
      case 2
      then show ?thesis
        using "1.IH"(2) memo_ok_mono[OF "1.prems", of "weight err - 1"]
        by (simp add: cancellationOnly.simps[of ctx err])
    qed (use "1.prems" in \<open>auto simp: cancellationOnly.simps[of ctx err] memo_ok_def\<close>)
  next
    case False
    then have "case cancellationBody ctx err matched (known((err, matched) \<mapsto> False)) of
        (only, known') \<Rightarrow> only = acknowledges ctx err matched \<and>
          adds_right ctx (known((err, matched) \<mapsto> False)) known'"
      using "1.IH"(1) memo_ok_provisional[OF "1.prems", of matched] by (simp add: fun_upd_def)
    with False show ?thesis
      by (auto simp: cancellationOnly.simps[of ctx err] intro: adds_right_settle split: prod.splits)
  qed
next
  case (2 ctx err matched known)
  have lighter: "memo_ok ctx (weight c) known" if "c \<in> set (children err)" for c
    using memo_ok_mono[OF "2.prems"(2)] child_lighter[OF that] by simp
  then show ?case
    using "2.prems"(1) "2.IH"
    by (cases "unwrap err")
      (auto simp: cancellationBody.simps[of ctx err] acknowledges.simps[of ctx err] Let_def children_def
        split: prod.splits)
next
  case (3 ctx seen known)
  then show ?case by simp
next
  case (4 ctx child cs seen known)
  show ?case
  proof (cases "child = NilErr")
    case True
    then show ?thesis using 4 by (auto split: prod.splits)
  next
    case False
    obtain only known' where call: "cancellationOnly ctx child False known = (only, known')"
      by fastforce
    have here: "only = acknowledges ctx child False" "adds_right ctx known known'"
      using "4.IH"(2)[OF False] "4.prems" call by auto
    have "\<forall>c\<in>set cs. memo_ok ctx (weight c) known'"
      using "4.prems" adds_right_ok[OF here(2)] by simp
    note later = "4.IH"(3)[OF False call[symmetric] refl _ this]
    show ?thesis
    proof (cases only)
      case True
      then have "\<not> \<not> only" by simp
      from later[OF this] True False call here show ?thesis
        by (auto intro: adds_right_trans split: prod.splits)
    next
      case only: False
      with False call here show ?thesis by auto
    qed
  qed
qed

lemma isCancellationResult_iff:
  "isCancellationResult ctx err \<longleftrightarrow> ctx_err ctx \<noteq> NilErr \<and> acknowledges ctx err False"
  using only_correct[of ctx err Map.empty False]
  by (auto simp: isCancellationResult_def memo_ok_def split: prod.splits)

subsection \<open>Properties\<close>

text \<open>C10. The walk with a visited set finds exactly what the standard depth-first search finds: the first
  match of the pre-order traversal, and for Is the presence of the target or of a node that
  accepts it; it terminates on every error tree, so repeated and shared causes change nothing.\<close>

theorem classification_is_depth_first:
  "walkClassification err match = find match (preorder err) \<and>
   (err \<noteq> NilErr \<and> target \<noteq> NilErr \<longrightarrow>
      (classificationIs err target \<longleftrightarrow>
        (\<exists>t. t \<in> set (preorder err) \<and> (comparable target \<and> t = target \<or> is_hook t target)))) \<and>
   (classificationAs ty err = None \<longleftrightarrow> (\<forall>t. t \<in> set (preorder err) \<longrightarrow> \<not> ty t \<and> as_hook t ty = None))"
proof (intro conjI impI)
  assume "err \<noteq> NilErr \<and> target \<noteq> NilErr"
  then show "classificationIs err target \<longleftrightarrow>
      (\<exists>t. t \<in> set (preorder err) \<and> (comparable target \<and> t = target \<or> is_hook t target))"
    unfolding Bex_def[symmetric] by (simp add: classificationIs_iff)
qed (simp_all add: walk_finds_first classificationAs_None Ball_def)

theorem classification_is_depth_first_witness:
  "classificationIs (JoinError 1 [ErrorString 2 ''x'', ComponentError 3 ''db'' ''stop'' (Sentinel DeadlineExceeded)])
     (Sentinel DeadlineExceeded)"
  using classification_is_depth_first[of
      "JoinError 1 [ErrorString 2 ''x'', ComponentError 3 ''db'' ''stop'' (Sentinel DeadlineExceeded)]"
      "\<lambda>_. True" "Sentinel DeadlineExceeded" "\<lambda>_. True"]
  by (auto simp: preorder.simps children_def)

lemma acknowledges_join:
  "acknowledges ctx (JoinError a cs) m \<longleftrightarrow> is_cause ctx (JoinError a cs) \<or>
     (\<exists>c\<in>set cs. c \<noteq> NilErr) \<and> (\<forall>c\<in>set cs. c \<noteq> NilErr \<longrightarrow> acknowledges ctx c False)"
  by (simp add: acknowledges.simps[of ctx "JoinError a cs"] failed_operation_def)

text \<open>C9. A task error counts as a normal cancellation result exactly when, after the context ended, the
  reference test without a memo table says it only acknowledges the cancellation. In particular a
  join that carries an independent failure is a failure, and so are shutdown, serving and timeout
  reports whatever they wrap.\<close>

theorem cancellation_is_acknowledged:
  "(isCancellationResult ctx err \<longleftrightarrow> ctx_err ctx \<noteq> NilErr \<and> acknowledges ctx err False) \<and>
   (c \<in> set cs \<and> c \<noteq> NilErr \<and> \<not> acknowledges ctx c False \<and> JoinError a cs \<noteq> ctx_cause ctx \<longrightarrow>
      \<not> isCancellationResult ctx (JoinError a cs)) \<and>
   (failed_operation err \<longrightarrow> \<not> isCancellationResult ctx err)"
  using acknowledges.simps[of ctx err False]
  by (auto simp: isCancellationResult_iff acknowledges_join is_cause_def)

theorem cancellation_is_acknowledged_witness:
  "\<not> isCancellationResult (CtxDone (Sentinel Canceled) (Sentinel ErrShutdown))
     (JoinError 1 [Sentinel ErrShutdown, ErrorString 2 ''lost write''])"
  using cancellation_is_acknowledged[of "CtxDone (Sentinel Canceled) (Sentinel ErrShutdown)" NilErr
      "ErrorString 2 ''lost write''" "[Sentinel ErrShutdown, ErrorString 2 ''lost write'']" 1]
  by (simp add: acknowledges.simps[of _ "ErrorString _ _"] failed_operation_def is_cause_def shallow_match_def)

end
