(* ===== verification/Lifecycle.thy ===== *)
theory Lifecycle
  imports Classification
begin

section \<open>The service lifecycle: data and atomic sections\<close>

text \<open>
  Models \<^verbatim>\<open>lifecycle.go\<close>: the states, \<^verbatim>\<open>Config\<close> and \<^verbatim>\<open>New\<close>, the \<^verbatim>\<open>Service\<close> struct, and each
  stretch of a lifecycle method that runs under \<^verbatim>\<open>service.mu\<close> as one function on the record, with
  the branch the method takes afterwards as its result. The theory of the system composes them
  into the methods, one step per critical section or callback.
\<close>

subsection \<open>States\<close>

fun state_string :: "lifecycle_state \<Rightarrow> string" where
  "state_string StateNew = ''new''"
| "state_string StateStarting = ''starting''"
| "state_string StateReady = ''ready''"
| "state_string StateDraining = ''draining''"
| "state_string StateStopping = ''stopping''"
| "state_string StateStopped = ''stopped''"

text \<open>The numeric order of the constants, which is the order a service passes through them.\<close>

primrec state_rank :: "lifecycle_state \<Rightarrow> nat" where
  "state_rank StateNew = 0"
| "state_rank StateStarting = 1"
| "state_rank StateReady = 2"
| "state_rank StateDraining = 3"
| "state_rank StateStopping = 4"
| "state_rank StateStopped = 5"

instantiation lifecycle_state :: linorder
begin

definition less_eq_lifecycle_state :: "lifecycle_state \<Rightarrow> lifecycle_state \<Rightarrow> bool" where
  "less_eq_lifecycle_state a b \<longleftrightarrow> state_rank a \<le> state_rank b"

definition less_lifecycle_state :: "lifecycle_state \<Rightarrow> lifecycle_state \<Rightarrow> bool" where
  "less_lifecycle_state a b \<longleftrightarrow> state_rank a < state_rank b"

instance
proof
  fix a b c :: lifecycle_state
  show "a < b \<longleftrightarrow> a \<le> b \<and> \<not> b \<le> a"
    by (auto simp: less_eq_lifecycle_state_def less_lifecycle_state_def)
  show "a \<le> a" by (simp add: less_eq_lifecycle_state_def)
  show "a \<le> b \<Longrightarrow> b \<le> c \<Longrightarrow> a \<le> c" by (simp add: less_eq_lifecycle_state_def)
  show "a \<le> b \<Longrightarrow> b \<le> a \<Longrightarrow> a = b"
    by (cases a; cases b) (simp_all add: less_eq_lifecycle_state_def)
  show "a \<le> b \<or> b \<le> a" by (auto simp: less_eq_lifecycle_state_def)
qed

end

lemma state_rank_bounds [simp]:
  "5 \<le> state_rank x \<longleftrightarrow> x = StateStopped" "state_rank x \<le> 0 \<longleftrightarrow> x = StateNew"
  by (cases x; simp)+

lemmas state_order = less_eq_lifecycle_state_def less_lifecycle_state_def

subsection \<open>Configuration\<close>

definition defaultStartupTimeout :: duration where "defaultStartupTimeout = 30 * second"
definition defaultRollbackTimeout :: duration where "defaultRollbackTimeout = 30 * second"
definition defaultMaxTasks :: int where "defaultMaxTasks = 64"
definition maximumTasks :: int where "maximumTasks = 4096"
definition MaxRuntimeIdentityBytes :: nat where "MaxRuntimeIdentityBytes = 128"

lemmas lifecycle_constants = defaultStartupTimeout_def defaultRollbackTimeout_def
  defaultMaxTasks_def maximumTasks_def MaxRuntimeIdentityBytes_def

text \<open>A component's callbacks belong to the application; the record says which are present.\<close>

record component =
  Name :: string
  CloseAdmission :: bool
  StartHook :: bool
  StopHook :: bool

record config =
  Components :: "component list"
  StartupTimeout :: duration
  RollbackTimeout :: duration
  MaxTasks :: int

definition validRuntimeIdentity :: "string \<Rightarrow> bool" where
  "validRuntimeIdentity value \<longleftrightarrow>
     trim_space value \<noteq> '''' \<and> length value \<le> MaxRuntimeIdentityBytes"

record service =
  svc_state :: lifecycle_state
  startedFully :: bool
  components :: "component list"
  startup :: duration
  started :: nat
  svc_ctx :: "ctx_state option"
  rollback :: duration
  shutdownErr :: go_error
  shutdownDone :: chan
  startDone :: chan
  drainDone :: chan
  drainStarted :: bool
  drainErrors :: "go_error list"
  taskCount :: int
  taskErrors :: "go_error list"
  stopErrors :: "go_error list"
  stopsStarted :: bool
  stopsDone :: bool
  stopContext :: "nat option"
  maxTasks :: int
  componentStopTimeout :: duration

definition zero_service :: service where
  "zero_service = \<lparr>svc_state = StateNew, startedFully = False, components = [], startup = 0,
     started = 0, svc_ctx = None, rollback = 0, shutdownErr = NilErr, shutdownDone = ChanNil,
     startDone = ChanNil, drainDone = ChanNil, drainStarted = False, drainErrors = [],
     taskCount = 0, taskErrors = [], stopErrors = [], stopsStarted = False, stopsDone = False,
     stopContext = None, maxTasks = 0, componentStopTimeout = 0\<rparr>"

definition identity_reason :: string where
  "identity_reason = ''must contain 1 to 128 bytes''"

fun check_components :: "addr \<Rightarrow> nat \<Rightarrow> string list \<Rightarrow> component list \<Rightarrow> go_error" where
  "check_components a index names [] = NilErr"
| "check_components a index names (c # cs) =
     (if \<not> validRuntimeIdentity (Name c) then
        ConfigError a (indexed ''Components'' index ''.Name'') identity_reason
      else if Name c \<in> set names then
        ConfigError a (indexed ''Components'' index ''.Name'') ''must be unique''
      else check_components a (Suc index) (Name c # names) cs)"

definition New :: "addr \<Rightarrow> config \<Rightarrow> go_error + service" where
  "New a cfg =
     (if StartupTimeout cfg < 0 then
        Inl (ConfigError a ''StartupTimeout'' ''must not be negative'')
      else if RollbackTimeout cfg < 0 then
        Inl (ConfigError a ''RollbackTimeout'' ''must not be negative'')
      else if MaxTasks cfg < 0 \<or> MaxTasks cfg > maximumTasks then
        Inl (ConfigError a ''MaxTasks'' ''is outside the allowed range'')
      else (case check_components a 0 [] (Components cfg) of
        NilErr \<Rightarrow> Inr (zero_service\<lparr>
            components := Components cfg,
            startup := (if StartupTimeout cfg = 0 then defaultStartupTimeout else StartupTimeout cfg),
            rollback := (if RollbackTimeout cfg = 0 then defaultRollbackTimeout else RollbackTimeout cfg),
            maxTasks := (if MaxTasks cfg = 0 then defaultMaxTasks else MaxTasks cfg)\<rparr>)
      | err \<Rightarrow> Inl err))"

subsection \<open>Reads\<close>

definition State :: "service \<Rightarrow> lifecycle_state" where
  "State s = svc_state s"

definition Context :: "service \<Rightarrow> ctx_state" where
  "Context s = (case svc_ctx s of None \<Rightarrow> CtxActive | Some x \<Rightarrow> x)"

definition Ready :: "service \<Rightarrow> bool" where
  "Ready s \<longleftrightarrow> svc_state s = StateReady \<and> ctx_cause (Context s) = NilErr"

definition StartupComplete :: "service \<Rightarrow> bool" where
  "StartupComplete s = startedFully s"

definition hasStartupWork :: "service \<Rightarrow> bool" where
  "hasStartupWork s = (\<exists>c \<in> set (components s). StartHook c)"

subsection \<open>Callbacks\<close>

text \<open>What a callback did: it returned an error value (nil included) or panicked.\<close>

datatype outcome = Returned go_error | Panicked panic_value

fun invoke :: "addr \<Rightarrow> string \<Rightarrow> string \<Rightarrow> outcome \<Rightarrow> go_error" where
  "invoke a owner operation (Returned err) = err"
| "invoke a owner operation (Panicked v) = PanicError a owner operation v"

subsection \<open>Critical sections of Start\<close>

definition start_enter :: "addr \<Rightarrow> ctx_state \<Rightarrow> service \<Rightarrow> go_error + service" where
  "start_enter a parent s =
     (if svc_state s \<noteq> StateNew then Inl (StateError a ''start'' (svc_state s))
      else Inr (s\<lparr>svc_state := StateStarting, svc_ctx := Some parent, startDone := ChanOpen\<rparr>))"

definition start_acquired :: "nat \<Rightarrow> service \<Rightarrow> service" where
  "start_acquired index s = s\<lparr>started := index + 1\<rparr>"

definition start_finish :: "ctx_state \<Rightarrow> service \<Rightarrow> go_error + service" where
  "start_finish startupContext s =
     (if ctx_cause startupContext \<noteq> NilErr then Inl (ctx_cause startupContext)
      else Inr (s\<lparr>svc_state := StateReady, startedFully := True, startDone := close_chan (startDone s)\<rparr>))"

definition cancel_service :: "go_error \<Rightarrow> service \<Rightarrow> service" where
  "cancel_service cause s =
     (case svc_ctx s of None \<Rightarrow> s | Some x \<Rightarrow> s\<lparr>svc_ctx := Some (cancel_cause cause x)\<rparr>)"

definition rollback_enter :: "service \<Rightarrow> service" where
  "rollback_enter s = s\<lparr>svc_state := StateStopping, shutdownDone := ChanOpen,
     stopsStarted := True, stopsDone := False\<rparr>"

definition fail_startup_close :: "service \<Rightarrow> service" where
  "fail_startup_close s = s\<lparr>startDone := close_chan (startDone s)\<rparr>"

subsection \<open>Critical sections of Drain and closeAdmission\<close>

definition drain_enter :: "addr \<Rightarrow> service \<Rightarrow> go_error + service" where
  "drain_enter a s =
     (case svc_state s of
        StateReady \<Rightarrow> Inr (s\<lparr>svc_state := StateDraining\<rparr>)
      | StateDraining \<Rightarrow> Inr s
      | st \<Rightarrow> Inl (StateError a ''drain'' st))"

definition close_enter :: "service \<Rightarrow> service" where
  "close_enter s = s\<lparr>drainStarted := True, drainDone := ChanOpen\<rparr>"

definition close_finish :: "go_error list \<Rightarrow> service \<Rightarrow> service" where
  "close_finish failures s =
     s\<lparr>drainErrors := drainErrors s @ failures, drainDone := close_chan (drainDone s)\<rparr>"

subsection \<open>Critical sections of Go\<close>

definition go_admit :: "addr \<Rightarrow> string \<Rightarrow> bool \<Rightarrow> service \<Rightarrow> service \<times> go_error" where
  "go_admit a name task_present s =
     (if \<not> validRuntimeIdentity name then (s, ConfigError a ''name'' identity_reason)
      else if \<not> task_present then (s, ConfigError a ''task'' ''must not be nil'')
      else
        let s = (if svc_state s = StateReady \<and> ctx_cause (Context s) \<noteq> NilErr
                 then s\<lparr>svc_state := StateDraining\<rparr> else s) in
        if svc_state s \<noteq> StateReady then
          (s, StateError a ''start supervised task'' (svc_state s))
        else
          let maxTasks = (if maxTasks s = 0 then defaultMaxTasks else maxTasks s) in
          if taskCount s \<ge> maxTasks then (s, ConfigError a ''task'' ''would exceed MaxTasks'')
          else (s\<lparr>taskCount := taskCount s + 1\<rparr>, NilErr))"

definition task_failed :: "service \<Rightarrow> go_error \<Rightarrow> bool" where
  "task_failed s err \<longleftrightarrow> err \<noteq> NilErr \<and> \<not> isCancellationResult (Context s) err"

definition task_record :: "go_error \<Rightarrow> service \<Rightarrow> service" where
  "task_record componentError s = s\<lparr>taskErrors := taskErrors s @ [componentError]\<rparr>"

definition task_retire :: "service \<Rightarrow> service \<times> bool" where
  "task_retire s =
     (let s = s\<lparr>taskCount := taskCount s - 1\<rparr>;
          startStops = (taskCount s = 0 \<and> svc_state s = StateStopping \<and> \<not> stopsStarted s)
      in (if startStops then s\<lparr>stopsStarted := True\<rparr> else s, startStops))"

subsection \<open>Critical sections of Shutdown and stopComponents\<close>

datatype shutdown_branch =
  ShutdownReturn go_error | ShutdownAwaitStart | ShutdownAwaitDone | ShutdownStart bool

definition shutdown_enter :: "nat \<Rightarrow> service \<Rightarrow> service \<times> shutdown_branch" where
  "shutdown_enter ctx s =
     (case svc_state s of
        StateStopped \<Rightarrow> (s, ShutdownReturn (shutdownErr s))
      | StateNew \<Rightarrow> (s\<lparr>svc_state := StateStopped\<rparr>, ShutdownReturn NilErr)
      | StateStarting \<Rightarrow> (cancel_service (Sentinel ErrShutdown) s, ShutdownAwaitStart)
      | StateStopping \<Rightarrow> (s, ShutdownAwaitDone)
      | _ \<Rightarrow>
          let s = (cancel_service (Sentinel ErrShutdown) s)
                    \<lparr>svc_state := StateStopping, shutdownDone := ChanOpen,
                     stopsStarted := (taskCount s = 0), stopsDone := False, stopContext := Some ctx\<rparr>
          in (s, ShutdownStart (stopsStarted s)))"

definition finishShutdownLocked :: "addr \<Rightarrow> service \<Rightarrow> service" where
  "finishShutdownLocked a s =
     (let failures = drainErrors s @ stopErrors s @ taskErrors s
      in s\<lparr>shutdownErr := (if failures \<noteq> [] then ShutdownError a failures else NilErr),
           svc_state := StateStopped, shutdownDone := close_chan (shutdownDone s)\<rparr>)"

definition stop_finish :: "addr \<Rightarrow> go_error list \<Rightarrow> service \<Rightarrow> service" where
  "stop_finish a errs s =
     (let s = s\<lparr>started := 0, stopErrors := stopErrors s @ errs, stopsDone := True\<rparr>
      in if taskCount s = 0 then finishShutdownLocked a s else s)"

lemmas lifecycle_sections [section_defs] =
  start_enter_def start_acquired_def start_finish_def cancel_service_def rollback_enter_def
  fail_startup_close_def drain_enter_def close_enter_def close_finish_def go_admit_def
  task_record_def task_retire_def shutdown_enter_def finishShutdownLocked_def stop_finish_def

interpretation component_names: named_validation
  "\<lambda>i names cs. check_components a i names cs = NilErr" Name "\<lambda>c. validRuntimeIdentity (Name c)" for a
  by unfold_locales auto

end
