(* ===== verification/Lifecycle_System.thy ===== *)
theory Lifecycle_System
  imports Lifecycle
begin

section \<open>The service as a concurrent system\<close>

text \<open>
  The lifecycle methods of one \<^verbatim>\<open>Service\<close> under concurrency. A thread is a program point of a
  running method or goroutine; the pool of threads is a multiset. A step is one thread running one
  critical section of \<^verbatim>\<open>lifecycle.go\<close> (a function of the theory of atomic sections), one application
  callback, or one receive of a channel; the environment may call a method, end the parent context
  or pass the startup deadline at any time. Callbacks return whatever they like, whenever they like.
  The ghost fields \<open>acquired\<close> and \<open>calls\<close> record how many components were acquired and which
  component callbacks ran, in order.
\<close>

datatype call = CallStart nat | CallClose nat | CallStop nat

record shared =
  svc :: service
  startupCtx :: ctx_state
  completed :: "go_error list option"
  acquired :: nat
  calls :: "call list"

text \<open>What a thread does once its \<^verbatim>\<open>closeAdmission\<close> call returns.\<close>

datatype after =
    AfterDrain
  | AfterShutdown nat
  | AfterCancel go_error bool
  | AfterRollback string go_error nat

datatype pc =
    StartEnter "ctx_state option" | StartLoop nat | StartCalling nat | StartReturned go_error
  | FailEnter string go_error
  | RollbackCancel string go_error nat "go_error list"
  | RollbackWaiting string go_error "go_error list"
  | FailClose string go_error "go_error list"
  | DrainEnter after | CloseEnter nat after | CloseWaiting after
  | Closing nat "go_error list" after | DrainReturned go_error
  | CancelRead go_error bool | CancelLock go_error bool | CancelReturned
  | TaskRunning string | TaskRecording go_error | TaskRetiring | TaskDone
  | Stopping nat "go_error list" string | StopSend "go_error list" | StopDone
  | ShutdownRead "nat option" | ShutdownLock nat | AwaitStart | AwaitDone
  | ShutdownReturned go_error | ShutdownFailed go_error

text \<open>
  Every write of the service goes through \<open>with_svc\<close>: \<^verbatim>\<open>startupContext\<close> is a child of
  \<^verbatim>\<open>service.ctx\<close> and ends with it.
\<close>

definition with_svc :: "service \<Rightarrow> shared \<Rightarrow> shared" where
  "with_svc s g = g\<lparr>svc := s,
     startupCtx := (case svc_ctx s of
         Some (CtxDone e c) \<Rightarrow> end_ctx e c (startupCtx g)
       | _ \<Rightarrow> startupCtx g)\<rparr>"

definition acquire :: "nat \<Rightarrow> shared \<Rightarrow> shared" where
  "acquire i g = (with_svc (start_acquired i (svc g)) g)\<lparr>acquired := i + 1\<rparr>"

definition comp_at :: "shared \<Rightarrow> nat \<Rightarrow> component" where
  "comp_at g i = components (svc g) ! i"

definition n_comps :: "shared \<Rightarrow> nat" where
  "n_comps g = length (components (svc g))"

text \<open>After a component started: go on, or fail with the cause that ended the startup context.\<close>

definition start_next :: "nat \<Rightarrow> shared \<Rightarrow> pc" where
  "start_next i g =
     (if ctx_cause (startupCtx g) = NilErr then StartLoop (i + 1)
      else FailEnter ''service'' (ctx_cause (startupCtx g)))"

fun resume :: "addr \<Rightarrow> after \<Rightarrow> go_error list \<Rightarrow> pc" where
  "resume a AfterDrain failures = DrainReturned (errors_join a failures)"
| "resume a (AfterShutdown k) failures = ShutdownLock k"
| "resume a (AfterCancel cause is_task) failures = CancelLock cause is_task"
| "resume a (AfterRollback name cause n) failures = RollbackCancel name cause n failures"

fun reject_drain :: "after \<Rightarrow> go_error \<Rightarrow> pc" where
  "reject_drain AfterDrain err = DrainReturned err"
| "reject_drain (AfterShutdown k) err = ShutdownLock k"
| "reject_drain (AfterCancel cause is_task) err = CancelLock cause is_task"
| "reject_drain (AfterRollback name cause n) err = RollbackCancel name cause n []"

definition append_failure ::
    "addr \<Rightarrow> string \<Rightarrow> string \<Rightarrow> go_error \<Rightarrow> go_error list \<Rightarrow> go_error list" where
  "append_failure a name operation err failures =
     (if err = NilErr then failures else failures @ [ComponentError a name operation err])"

fun shutdown_next :: "shutdown_branch \<Rightarrow> pc" where
  "shutdown_next (ShutdownReturn err) = ShutdownReturned err"
| "shutdown_next ShutdownAwaitStart = AwaitStart"
| "shutdown_next ShutdownAwaitDone = AwaitDone"
| "shutdown_next (ShutdownStart _) = AwaitDone"

definition spawn_stop :: "bool \<Rightarrow> nat \<Rightarrow> pc multiset" where
  "spawn_stop start n = (if start then {#Stopping n [] ''stop''#} else {#})"

definition accepting :: "service \<Rightarrow> bool" where
  "accepting s \<longleftrightarrow> svc_state s = StateReady \<or> svc_state s = StateDraining"

text \<open>
  What the methods compute between the steps: the loop bodies of \<^verbatim>\<open>closeAdmission\<close> and
  \<^verbatim>\<open>stopComponents\<close>, the failures \<^verbatim>\<open>beginRollback\<close> returns when cleanup completes or its context ends,
  the error of \<^verbatim>\<open>failStartup\<close>, and where the two waits continue.
\<close>

definition closeAdmission_body :: "addr \<Rightarrow> addr \<Rightarrow> component \<Rightarrow> outcome \<Rightarrow> go_error list \<Rightarrow> go_error list" where
  "closeAdmission_body a b c out failures =
     append_failure b (Name c) ''close admission'' (invoke a (Name c) ''close admission'' out) failures"

definition stopComponents_body ::
    "addr \<Rightarrow> addr \<Rightarrow> string \<Rightarrow> component \<Rightarrow> outcome \<Rightarrow> go_error list \<Rightarrow> go_error list" where
  "stopComponents_body a b operation c out errs =
     append_failure b (Name c) operation (invoke a (Name c) operation out) errs"

datatype rollback_end = RollbackCompleted "go_error list" | RollbackExpired addr

fun beginRollback_failures :: "go_error list \<Rightarrow> rollback_end \<Rightarrow> go_error list" where
  "beginRollback_failures drained (RollbackCompleted errs) = drained @ errs"
| "beginRollback_failures drained (RollbackExpired a) =
     drained @ [ComponentError a ''service'' ''rollback'' (Sentinel DeadlineExceeded)]"

definition failStartup_error :: "addr \<Rightarrow> string \<Rightarrow> go_error \<Rightarrow> go_error list \<Rightarrow> go_error" where
  "failStartup_error a name cause rb = StartupError a name cause rb"

definition waitForShutdown :: "service \<Rightarrow> pc" where
  "waitForShutdown s = ShutdownReturned (shutdownErr s)"

definition waitForStartupShutdown :: "service \<Rightarrow> pc" where
  "waitForStartupShutdown s =
     (if svc_state s = StateStopping then AwaitDone else ShutdownReturned (shutdownErr s))"

lemmas method_parts [simp] = waitForShutdown_def waitForStartupShutdown_def failStartup_error_def

inductive thread_step :: "shared \<Rightarrow> pc \<Rightarrow> shared \<Rightarrow> pc \<Rightarrow> pc multiset \<Rightarrow> bool" where
  start_nil:
     "thread_step g (StartEnter None) g (StartReturned (ConfigError a ''parent'' ''must not be nil'')) {#}"
| start_rejected: "start_enter a parent (svc g) = Inl err \<Longrightarrow>
     thread_step g (StartEnter (Some parent)) g (StartReturned err) {#}"
| start_accepted: "start_enter a parent (svc g) = Inr s \<Longrightarrow>
     thread_step g (StartEnter (Some parent)) (with_svc s g) (StartLoop 0) {#}"
| start_no_hook: "i < n_comps g \<Longrightarrow> \<not> StartHook (comp_at g i) \<Longrightarrow>
     thread_step g (StartLoop i) (acquire i g) (start_next i g) {#}"
| start_call: "i < n_comps g \<Longrightarrow> StartHook (comp_at g i) \<Longrightarrow>
     thread_step g (StartLoop i) (g\<lparr>calls := calls g @ [CallStart i]\<rparr>) (StartCalling i) {#}"
| start_call_failed: "err = invoke a (Name (comp_at g i)) ''start'' out \<Longrightarrow> err \<noteq> NilErr \<Longrightarrow>
     thread_step g (StartCalling i) g (FailEnter (Name (comp_at g i)) err) {#}"
| start_call_done: "invoke a (Name (comp_at g i)) ''start'' out = NilErr \<Longrightarrow>
     thread_step g (StartCalling i) (acquire i g) (start_next i g) {#}"
| start_ready: "start_finish (startupCtx g) (svc g) = Inr s \<Longrightarrow>
     thread_step g (StartLoop (n_comps g)) (with_svc s g) (StartReturned NilErr) {#}"
| start_cancelled: "start_finish (startupCtx g) (svc g) = Inl cause \<Longrightarrow>
     thread_step g (StartLoop (n_comps g)) g (FailEnter ''service'' cause) {#}"
| fail_enter:
     "thread_step g (FailEnter name cause) (with_svc (rollback_enter (svc g)) g)
        (CloseEnter (started (svc g)) (AfterRollback name cause (started (svc g)))) {#}"
| rollback_cancel:
     "thread_step g (RollbackCancel name cause n failures) (with_svc (cancel_service cause (svc g)) g)
        (RollbackWaiting name cause failures) {#Stopping n [] ''rollback''#}"
| rollback_done: "completed g = Some errs \<Longrightarrow>
     thread_step g (RollbackWaiting name cause failures) g
       (FailClose name cause (beginRollback_failures failures (RollbackCompleted errs))) {#}"
| rollback_timeout:
     "thread_step g (RollbackWaiting name cause failures) g
        (FailClose name cause (beginRollback_failures failures (RollbackExpired a))) {#}"
| fail_close:
     "thread_step g (FailClose name cause rb) (with_svc (fail_startup_close (svc g)) g)
        (StartReturned (failStartup_error a name cause rb)) {#}"
| drain_rejected: "drain_enter a (svc g) = Inl err \<Longrightarrow>
     thread_step g (DrainEnter k) g (reject_drain k err) {#}"
| drain_accepted: "drain_enter a (svc g) = Inr s \<Longrightarrow>
     thread_step g (DrainEnter k) (with_svc s g) (CloseEnter (started s) k) {#}"
| close_wait: "drainStarted (svc g) \<Longrightarrow> thread_step g (CloseEnter n k) g (CloseWaiting k) {#}"
| close_begin: "\<not> drainStarted (svc g) \<Longrightarrow>
     thread_step g (CloseEnter n k) (with_svc (close_enter (svc g)) g) (Closing n [] k) {#}"
| close_skip: "\<not> CloseAdmission (comp_at g i) \<Longrightarrow>
     thread_step g (Closing (Suc i) failures k) g (Closing i failures k) {#}"
| close_call: "CloseAdmission (comp_at g i) \<Longrightarrow>
     thread_step g (Closing (Suc i) failures k) (g\<lparr>calls := calls g @ [CallClose i]\<rparr>)
       (Closing i (closeAdmission_body a b (comp_at g i) out failures) k) {#}"
| close_done:
     "thread_step g (Closing 0 failures k) (with_svc (close_finish failures (svc g)) g)
        (resume a k failures) {#}"
| close_shared: "drainDone (svc g) = ChanClosed \<Longrightarrow>
     thread_step g (CloseWaiting k) g (resume a k (drainErrors (svc g))) {#}"
| task_ok: "\<not> task_failed (svc g) (invoke a name ''run'' out) \<Longrightarrow>
     thread_step g (TaskRunning name) g TaskRetiring {#}"
| task_bad: "task_failed (svc g) (invoke a name ''run'' out) \<Longrightarrow>
     thread_step g (TaskRunning name) g
       (TaskRecording (ComponentError b name ''run'' (invoke a name ''run'' out))) {#}"
| task_recorded:
     "thread_step g (TaskRecording err) (with_svc (task_record err (svc g)) g) (CancelRead err True) {#}"
| cancel_drains: "accepting (svc g) \<Longrightarrow>
     thread_step g (CancelRead cause t) g (DrainEnter (AfterCancel cause t)) {#}"
| cancel_direct: "\<not> accepting (svc g) \<Longrightarrow>
     thread_step g (CancelRead cause t) g (CancelLock cause t) {#}"
| cancel_locked:
     "thread_step g (CancelLock cause t) (with_svc (cancel_service cause (svc g)) g)
        (if t then TaskRetiring else CancelReturned) {#}"
| task_retired: "task_retire (svc g) = (s, startStops) \<Longrightarrow>
     thread_step g TaskRetiring (with_svc s g) TaskDone (spawn_stop startStops (started s))"
| stop_skip: "\<not> StopHook (comp_at g i) \<Longrightarrow>
     thread_step g (Stopping (Suc i) errs operation) g (Stopping i errs operation) {#}"
| stop_call: "StopHook (comp_at g i) \<Longrightarrow>
     thread_step g (Stopping (Suc i) errs operation) (g\<lparr>calls := calls g @ [CallStop i]\<rparr>)
       (Stopping i (stopComponents_body a b operation (comp_at g i) out errs) operation) {#}"
| stop_done:
     "thread_step g (Stopping 0 errs operation) (with_svc (stop_finish a errs (svc g)) g)
        (if operation = ''rollback'' then StopSend errs else StopDone) {#}"
| stop_send: "thread_step g (StopSend errs) (g\<lparr>completed := Some errs\<rparr>) StopDone {#}"
| shutdown_nil:
     "thread_step g (ShutdownRead None) g (ShutdownFailed (ConfigError a ''ctx'' ''must not be nil'')) {#}"
| shutdown_drains: "accepting (svc g) \<Longrightarrow>
     thread_step g (ShutdownRead (Some k)) g (DrainEnter (AfterShutdown k)) {#}"
| shutdown_direct: "\<not> accepting (svc g) \<Longrightarrow>
     thread_step g (ShutdownRead (Some k)) g (ShutdownLock k) {#}"
| shutdown_locked: "shutdown_enter k (svc g) = (s, branch) \<Longrightarrow>
     thread_step g (ShutdownLock k) (with_svc s g) (shutdown_next branch)
       (spawn_stop (branch = ShutdownStart True) (started s))"
| await_start_done: "startDone (svc g) = ChanClosed \<Longrightarrow>
     thread_step g AwaitStart g (waitForStartupShutdown (svc g)) {#}"
| await_start_timeout: "thread_step g AwaitStart g (ShutdownFailed cause) {#}"
| await_done_done: "shutdownDone (svc g) = ChanClosed \<Longrightarrow>
     thread_step g AwaitDone g (waitForShutdown (svc g)) {#}"
| await_done_timeout: "thread_step g AwaitDone g (ShutdownFailed cause) {#}"

fun entry :: "pc \<Rightarrow> bool" where
  "entry (StartEnter (Some (CtxDone e c))) = (e \<noteq> NilErr \<and> c \<noteq> NilErr)"
| "entry (StartEnter _) = True"
| "entry (DrainEnter AfterDrain) = True"
| "entry (ShutdownRead _) = True"
| "entry (CancelRead cause False) = True"
| "entry _ = False"

type_synonym sys = "shared \<times> pc multiset"

inductive sys_step :: "sys \<Rightarrow> sys \<Rightarrow> bool" where
  thread: "thread_step g p g' p' new \<Longrightarrow> sys_step (g, add_mset p P) (g', add_mset p' (new + P))"
| call: "entry p \<Longrightarrow> sys_step (g, P) (g, add_mset p P)"
| go: "go_admit a name task_present (svc g) = (s, err) \<Longrightarrow>
     sys_step (g, P) (with_svc s g, if err = NilErr then add_mset (TaskRunning name) P else P)"
| parent_ends: "svc_ctx (svc g) = Some x \<Longrightarrow> e \<noteq> NilErr \<Longrightarrow> c \<noteq> NilErr \<Longrightarrow>
     sys_step (g, P) (with_svc ((svc g)\<lparr>svc_ctx := Some (end_ctx e c x)\<rparr>) g, P)"
| startup_deadline: "svc_state (svc g) = StateStarting \<Longrightarrow> hasStartupWork (svc g) \<Longrightarrow>
     sys_step (g, P) (g\<lparr>startupCtx := deadline_passes (startupCtx g)\<rparr>, P)"

definition fresh_shared :: "service \<Rightarrow> shared" where
  "fresh_shared s = \<lparr>svc = s, startupCtx = CtxActive, completed = None, acquired = 0, calls = []\<rparr>"

definition sys_init :: "sys \<Rightarrow> bool" where
  "sys_init x \<longleftrightarrow> (\<exists>a cfg s. New a cfg = Inr s \<and> x = (fresh_shared s, {#}))"

abbreviation lifecycle_reachable :: "sys \<Rightarrow> bool" where
  "lifecycle_reachable \<equiv> reachable sys_init sys_step"

end
