(* ===== verification/Lifecycle_Safety.thy ===== *)
theory Lifecycle_Safety
  imports Lifecycle_System
begin

section \<open>Safety of the lifecycle\<close>

text \<open>
  The inductive invariant of the concurrent service: how many threads stand at which kind of
  program point, and how that count determines the channels, the task counter and the state.
\<close>

subsection \<open>Kinds of threads\<close>

abbreviation cnt :: "(pc \<Rightarrow> bool) \<Rightarrow> pc multiset \<Rightarrow> nat" where
  "cnt P M \<equiv> size (filter_mset P M)"

fun for_rollback :: "after \<Rightarrow> bool" where
  "for_rollback (AfterRollback _ _ _) = True"
| "for_rollback _ = False"

fun for_task :: "after \<Rightarrow> bool" where
  "for_task (AfterCancel _ t) = t"
| "for_task _ = False"

fun starting :: "pc \<Rightarrow> bool" where
  "starting (StartLoop _) = True"
| "starting (StartCalling _) = True"
| "starting (FailEnter _ _) = True"
| "starting _ = False"

fun before_stop :: "pc \<Rightarrow> bool" where
  "before_stop (DrainEnter k) = for_rollback k"
| "before_stop (CloseEnter _ k) = for_rollback k"
| "before_stop (CloseWaiting k) = for_rollback k"
| "before_stop (Closing _ _ k) = for_rollback k"
| "before_stop (RollbackCancel _ _ _ _) = True"
| "before_stop _ = False"

fun rolling :: "pc \<Rightarrow> bool" where
  "rolling (RollbackWaiting _ _ _) = True"
| "rolling (FailClose _ _ _) = True"
| "rolling p = before_stop p"

fun owes_stop :: "pc \<Rightarrow> bool" where
  "owes_stop (Stopping _ _ _) = True"
| "owes_stop p = before_stop p"

fun live_task :: "pc \<Rightarrow> bool" where
  "live_task (TaskRunning _) = True"
| "live_task (TaskRecording _) = True"
| "live_task TaskRetiring = True"
| "live_task (CancelRead _ t) = t"
| "live_task (CancelLock _ t) = t"
| "live_task (DrainEnter k) = for_task k"
| "live_task (CloseEnter _ k) = for_task k"
| "live_task (CloseWaiting k) = for_task k"
| "live_task (Closing _ _ k) = for_task k"
| "live_task _ = False"

fun closing :: "pc \<Rightarrow> bool" where
  "closing (Closing _ _ _) = True"
| "closing _ = False"

lemma resume_kinds [simp]:
  "starting (resume a k fs) = False" "closing (resume a k fs) = False"
  "rolling (resume a k fs) = for_rollback k" "owes_stop (resume a k fs) = for_rollback k"
  "live_task (resume a k fs) = for_task k"
  by (cases k; simp)+

lemma reject_kinds [simp]:
  "starting (reject_drain k e) = False" "closing (reject_drain k e) = False"
  "rolling (reject_drain k e) = for_rollback k" "owes_stop (reject_drain k e) = for_rollback k"
  "live_task (reject_drain k e) = for_task k"
  by (cases k; simp)+

lemma start_next_kinds [simp]:
  "starting (start_next i g)" "\<not> closing (start_next i g)" "\<not> rolling (start_next i g)"
  "\<not> owes_stop (start_next i g)" "\<not> live_task (start_next i g)"
  by (simp_all add: start_next_def)

lemma shutdown_next_kinds [simp]:
  "\<not> starting (shutdown_next b)" "\<not> closing (shutdown_next b)" "\<not> rolling (shutdown_next b)"
  "\<not> owes_stop (shutdown_next b)" "\<not> live_task (shutdown_next b)"
  by (cases b; simp)+

lemma spawn_stop_kinds [simp]:
  "filter_mset starting (spawn_stop b n) = {#}" "filter_mset closing (spawn_stop b n) = {#}"
  "filter_mset rolling (spawn_stop b n) = {#}" "filter_mset live_task (spawn_stop b n) = {#}"
  "filter_mset owes_stop (spawn_stop b n) = spawn_stop b n"
  "size (spawn_stop b n) = (if b then 1 else 0)"
  by (simp_all add: spawn_stop_def)

lemma entry_kinds [simp]:
  assumes "entry p"
  shows "\<not> starting p" "\<not> closing p" "\<not> rolling p" "\<not> owes_stop p" "\<not> live_task p"
  using assms by (cases p rule: entry.cases; simp)+

lemma with_svc_svc [simp]: "svc (with_svc s g) = s"
  by (simp add: with_svc_def)

lemma acquire_svc [simp]: "svc (acquire i g) = (svc g)\<lparr>started := i + 1\<rparr>"
  by (simp add: acquire_def start_acquired_def)

lemma after_with_svc [simp]:
  "completed (with_svc s g) = completed g" "acquired (with_svc s g) = acquired g"
  "calls (with_svc s g) = calls g"
  by (simp_all add: with_svc_def)

subsection \<open>The phase table\<close>

text \<open>
  For each state: the channels, the stop flags, and how many threads are starting (\<open>ns\<close>), rolling
  back (\<open>nr\<close>), running a task (\<open>nl\<close>) and owe the component stops (\<open>no\<close>).
\<close>

primrec phase_table :: "lifecycle_state \<Rightarrow> service \<Rightarrow> nat \<Rightarrow> nat \<Rightarrow> nat \<Rightarrow> nat \<Rightarrow> bool" where
  "phase_table StateNew s ns nr nl no \<longleftrightarrow>
     startDone s = ChanNil \<and> svc_ctx s = None \<and> shutdownDone s = ChanNil \<and>
     \<not> stopsStarted s \<and> \<not> stopsDone s \<and> ns = 0 \<and> nr = 0 \<and> nl = 0 \<and> no = 0"
| "phase_table StateStarting s ns nr nl no \<longleftrightarrow>
     startDone s = ChanOpen \<and> svc_ctx s \<noteq> None \<and> shutdownDone s = ChanNil \<and>
     \<not> stopsStarted s \<and> \<not> stopsDone s \<and> ns = 1 \<and> nr = 0 \<and> nl = 0 \<and> no = 0"
| "phase_table StateReady s ns nr nl no \<longleftrightarrow>
     startDone s = ChanClosed \<and> svc_ctx s \<noteq> None \<and> shutdownDone s = ChanNil \<and> startedFully s \<and>
     \<not> stopsStarted s \<and> \<not> stopsDone s \<and> ns = 0 \<and> nr = 0 \<and> no = 0"
| "phase_table StateDraining s ns nr nl no \<longleftrightarrow>
     startDone s = ChanClosed \<and> svc_ctx s \<noteq> None \<and> shutdownDone s = ChanNil \<and> startedFully s \<and>
     \<not> stopsStarted s \<and> \<not> stopsDone s \<and> ns = 0 \<and> nr = 0 \<and> no = 0"
| "phase_table StateStopping s ns nr nl no \<longleftrightarrow>
     svc_ctx s \<noteq> None \<and> shutdownDone s = ChanOpen \<and> \<not> stopsDone s \<and> ns = 0 \<and>
     (if stopsStarted s then no = 1 \<and> nl = 0 else no = 0 \<and> 0 < nl) \<and>
     (startDone s = ChanOpen \<and> nr = 1 \<and> stopsStarted s \<or> startDone s = ChanClosed \<and> nr = 0)"
| "phase_table StateStopped s ns nr nl no \<longleftrightarrow>
     ns = 0 \<and> nl = 0 \<and> no = 0 \<and>
     (svc_ctx s \<noteq> None \<and> shutdownDone s = ChanClosed \<and> stopsStarted s \<and> stopsDone s \<and>
        (startDone s = ChanOpen \<and> nr = 1 \<or> startDone s = ChanClosed \<and> nr = 0) \<or>
      svc_ctx s = None \<and> shutdownDone s = ChanNil \<and> \<not> stopsStarted s \<and> \<not> stopsDone s \<and>
        startDone s = ChanNil \<and> nr = 0)"

definition phase_ok :: "service \<Rightarrow> nat \<Rightarrow> nat \<Rightarrow> nat \<Rightarrow> nat \<Rightarrow> bool" where
  "phase_ok s ns nr nl no \<longleftrightarrow>
     taskCount s = int nl \<and> phase_table (svc_state s) s ns nr nl no"

lemma phase_frame:
  assumes "svc_state t = svc_state s" "startDone t = startDone s" "svc_ctx t = None \<longleftrightarrow> svc_ctx s = None"
    "shutdownDone t = shutdownDone s" "stopsStarted t = stopsStarted s" "stopsDone t = stopsDone s"
    "taskCount t = taskCount s" "startedFully t = startedFully s"
  shows "phase_ok t ns nr nl no \<longleftrightarrow> phase_ok s ns nr nl no"
  using assms by (cases "svc_state s") (simp_all add: phase_ok_def)

lemma cancel_service_fields [simp]:
  "svc_state (cancel_service c s) = svc_state s" "startDone (cancel_service c s) = startDone s"
  "svc_ctx (cancel_service c s) = None \<longleftrightarrow> svc_ctx s = None"
  "shutdownDone (cancel_service c s) = shutdownDone s" "stopsStarted (cancel_service c s) = stopsStarted s"
  "stopsDone (cancel_service c s) = stopsDone s" "taskCount (cancel_service c s) = taskCount s"
  "startedFully (cancel_service c s) = startedFully s" "started (cancel_service c s) = started s"
  "components (cancel_service c s) = components s" "drainDone (cancel_service c s) = drainDone s"
  "drainStarted (cancel_service c s) = drainStarted s" "shutdownErr (cancel_service c s) = shutdownErr s"
  "drainErrors (cancel_service c s) = drainErrors s" "taskErrors (cancel_service c s) = taskErrors s"
  "stopErrors (cancel_service c s) = stopErrors s" "maxTasks (cancel_service c s) = maxTasks s"
  by (auto simp: cancel_service_def split: option.splits)

lemma phase_unchanged [simp]:
  "phase_ok (cancel_service c s) ns nr nl no = phase_ok s ns nr nl no"
  "phase_ok (close_enter s) ns nr nl no = phase_ok s ns nr nl no"
  "phase_ok (close_finish fs s) ns nr nl no = phase_ok s ns nr nl no"
  "phase_ok (task_record e s) ns nr nl no = phase_ok s ns nr nl no"
  "phase_ok (s\<lparr>started := i\<rparr>) ns nr nl no = phase_ok s ns nr nl no"
  by (rule phase_frame; simp add: close_enter_def close_finish_def task_record_def)+

lemma phase_start_enter:
  "start_enter a parent s = Inr t \<Longrightarrow> phase_ok s ns nr nl no \<Longrightarrow> phase_ok t (Suc ns) nr nl no"
  by (auto simp: start_enter_def phase_ok_def split: if_splits)

lemma phase_start_finish:
  "start_finish c s = Inr t \<Longrightarrow> phase_ok s (Suc ns) nr nl no \<Longrightarrow> phase_ok t ns nr nl no"
  by (cases "svc_state s") (auto simp: start_finish_def phase_ok_def split: if_splits)

lemma phase_rollback_enter:
  "phase_ok s (Suc ns) nr nl no \<Longrightarrow> phase_ok (rollback_enter s) ns (Suc nr) nl (Suc no)"
  by (cases "svc_state s") (auto simp: rollback_enter_def phase_ok_def)

lemma phase_fail_close:
  "phase_ok s ns (Suc nr) nl no \<Longrightarrow> phase_ok (fail_startup_close s) ns nr nl no"
  by (cases "svc_state s") (auto simp: fail_startup_close_def phase_ok_def)

lemma phase_drain_enter:
  "drain_enter a s = Inr t \<Longrightarrow> phase_ok s ns nr nl no \<Longrightarrow> phase_ok t ns nr nl no"
  by (cases "svc_state s") (auto simp: drain_enter_def phase_ok_def)

lemma phase_go:
  "go_admit a n b s = (t, e) \<Longrightarrow> phase_ok s ns nr nl no \<Longrightarrow>
     phase_ok t ns nr (if e = NilErr then Suc nl else nl) no"
  by (cases "svc_state s") (auto simp: go_admit_def phase_ok_def Let_def split: if_splits)

lemma phase_task_retire:
  "task_retire s = (t, b) \<Longrightarrow> phase_ok s ns nr (Suc nl) no \<Longrightarrow>
     phase_ok t ns nr nl (if b then Suc no else no)"
  by (cases "svc_state s") (auto simp: task_retire_def phase_ok_def Let_def split: if_splits)

lemma phase_stop_finish:
  "phase_ok s ns nr nl (Suc no) \<Longrightarrow> phase_ok (stop_finish a es s) ns nr nl no"
  by (cases "svc_state s")
    (auto simp: stop_finish_def finishShutdownLocked_def phase_ok_def Let_def split: if_splits)

lemma phase_shutdown_enter:
  "shutdown_enter k s = (t, b) \<Longrightarrow> phase_ok s ns nr nl no \<Longrightarrow>
     phase_ok t ns nr nl (if b = ShutdownStart True then Suc no else no)"
  by (cases "svc_state s") (auto simp: shutdown_enter_def phase_ok_def Let_def split: if_splits)

subsection \<open>The invariant of the system\<close>

definition inv_phase :: "sys \<Rightarrow> bool" where
  "inv_phase = (\<lambda>(g, P). phase_ok (svc g) (cnt starting P) (cnt rolling P) (cnt live_task P) (cnt owes_stop P))"

definition inv_drain :: "sys \<Rightarrow> bool" where
  "inv_drain = (\<lambda>(g, P). let s = svc g in
     cnt closing P = (if drainDone s = ChanOpen then 1 else 0) \<and>
     (drainStarted s \<longleftrightarrow> drainDone s \<noteq> ChanNil) \<and>
     drainDone s \<noteq> ChanPanic)"

lemma inv_drain_thread:
  assumes "thread_step g p g' p' new" and "inv_drain (g, add_mset p P)"
  shows "inv_drain (g', add_mset p' (new + P))"
  using assms
  by (induction rule: thread_step.induct)
    (auto simp: inv_drain_def Let_def section_defs split: if_splits option.splits lifecycle_state.splits)

lemma inv_phase_thread:
  assumes "thread_step g p g' p' new" and "inv_phase (g, add_mset p P)"
  shows "inv_phase (g', add_mset p' (new + P))"
  using assms
proof (induction rule: thread_step.induct)
  case (start_accepted a parent g s)
  then show ?case by (auto simp: inv_phase_def dest: phase_start_enter)
next
  case (start_ready g s)
  then show ?case by (auto simp: inv_phase_def dest: phase_start_finish)
next
  case (fail_enter g name cause)
  then show ?case by (auto simp: inv_phase_def dest: phase_rollback_enter)
next
  case (fail_close g name cause rb a)
  then show ?case by (auto simp: inv_phase_def dest: phase_fail_close)
next
  case (drain_accepted a g s k)
  then show ?case by (auto simp: inv_phase_def dest: phase_drain_enter)
next
  case (task_retired g s startStops)
  then show ?case by (auto simp: inv_phase_def dest: phase_task_retire)
next
  case (stop_done g errs operation a)
  then show ?case by (auto simp: inv_phase_def dest: phase_stop_finish)
next
  case (shutdown_locked k g s branch)
  then show ?case by (auto simp: inv_phase_def dest: phase_shutdown_enter)
qed (auto simp: inv_phase_def)

end
