(* ===== verification/Lifecycle_Order.thy ===== *)
theory Lifecycle_Order
  imports Lifecycle_Safety
begin

section \<open>Order of callbacks and results of the lifecycle\<close>

text \<open>
  The second half of the invariant: what each waiting or returning thread may rely on, and which
  component callbacks have run. It rests on the phase table and gives the order of cleanup, the
  meaning of a returned shutdown and the absence of deadlock.
\<close>

subsection \<open>The calls made so far\<close>

fun start_calls :: "call list \<Rightarrow> nat list" where
  "start_calls [] = []"
| "start_calls (CallStart i # cs) = i # start_calls cs"
| "start_calls (_ # cs) = start_calls cs"

fun close_calls :: "call list \<Rightarrow> nat list" where
  "close_calls [] = []"
| "close_calls (CallClose i # cs) = i # close_calls cs"
| "close_calls (_ # cs) = close_calls cs"

fun stop_calls :: "call list \<Rightarrow> nat list" where
  "stop_calls [] = []"
| "stop_calls (CallStop i # cs) = i # stop_calls cs"
| "stop_calls (_ # cs) = stop_calls cs"

lemma start_calls_append [simp]: "start_calls (cs @ ds) = start_calls cs @ start_calls ds"
  by (induction cs rule: start_calls.induct) simp_all

lemma close_calls_append [simp]: "close_calls (cs @ ds) = close_calls cs @ close_calls ds"
  by (induction cs rule: close_calls.induct) simp_all

lemma stop_calls_append [simp]: "stop_calls (cs @ ds) = stop_calls cs @ stop_calls ds"
  by (induction cs rule: stop_calls.induct) simp_all

definition hooks :: "(component \<Rightarrow> bool) \<Rightarrow> shared \<Rightarrow> nat list \<Rightarrow> nat list" where
  "hooks f g is = filter (\<lambda>i. f (comp_at g i)) is"

lemma hooks_simps [simp]:
  "hooks f g [] = []" "hooks f g (xs @ ys) = hooks f g xs @ hooks f g ys"
  "hooks f g (i # xs) = (if f (comp_at g i) then i # hooks f g xs else hooks f g xs)"
  by (simp_all add: hooks_def)

text \<open>The reverse of the indices not yet handled: what a downward loop at \<open>i\<close> has visited.\<close>

definition visited :: "nat \<Rightarrow> nat \<Rightarrow> nat list" where
  "visited i n = rev [i..<n]"

lemma visited_simps [simp]:
  "visited n n = []" "Suc i \<le> n \<Longrightarrow> visited i n = visited (Suc i) n @ [i]"
  by (simp_all add: visited_def upt_conv_Cons)

subsection \<open>Well-formed contexts\<close>

fun wf_ctx :: "ctx_state \<Rightarrow> bool" where
  "wf_ctx CtxActive = True"
| "wf_ctx (CtxDone e c) = (e \<noteq> NilErr \<and> c \<noteq> NilErr)"

lemma wf_ctx_end [simp]: "wf_ctx x \<Longrightarrow> e \<noteq> NilErr \<Longrightarrow> c \<noteq> NilErr \<Longrightarrow> wf_ctx (end_ctx e c x)"
  by (cases x) auto

lemma wf_ctx_cancel [simp]: "wf_ctx x \<Longrightarrow> wf_ctx (cancel_cause c x)"
  by (simp add: cancel_cause_def)

lemma wf_ctx_cause: "wf_ctx x \<Longrightarrow> ctx_cause x = NilErr \<longleftrightarrow> x = CtxActive"
  by (cases x) auto

lemma end_ctx_done [simp]: "end_ctx e c x \<noteq> CtxActive" "cancel_cause c x \<noteq> CtxActive"
    "deadline_passes x \<noteq> CtxActive"
  by (cases x; simp add: cancel_cause_def deadline_passes_def)+

subsection \<open>What each thread may rely on\<close>

fun after_ok :: "shared \<Rightarrow> after \<Rightarrow> bool" where
  "after_ok g (AfterRollback _ _ n) = (n = acquired g)"
| "after_ok g _ = True"

fun thread_ok :: "shared \<Rightarrow> pc \<Rightarrow> bool" where
  "thread_ok g (StartEnter (Some parent)) = wf_ctx parent"
| "thread_ok g (StartLoop i) =
     (i = acquired g \<and> i \<le> n_comps g \<and> start_calls (calls g) = hooks StartHook g [0..<i])"
| "thread_ok g (StartCalling i) =
     (i = acquired g \<and> i < n_comps g \<and> start_calls (calls g) = hooks StartHook g [0..<Suc i])"
| "thread_ok g (DrainEnter k) = (\<not> for_rollback k)"
| "thread_ok g (CloseEnter n k) =
     (StateDraining \<le> svc_state (svc g) \<and> n = acquired g \<and> after_ok g k)"
| "thread_ok g (CloseWaiting k) =
     (StateDraining \<le> svc_state (svc g) \<and> drainStarted (svc g) \<and> after_ok g k)"
| "thread_ok g (Closing i _ k) =
     (StateDraining \<le> svc_state (svc g) \<and> i \<le> acquired g \<and> after_ok g k \<and>
      close_calls (calls g) = hooks CloseAdmission g (visited i (acquired g)))"
| "thread_ok g (RollbackCancel _ _ n _) = (StateDraining \<le> svc_state (svc g) \<and> n = acquired g)"
| "thread_ok g (Stopping i _ _) =
     (StateDraining \<le> svc_state (svc g) \<and> i \<le> acquired g \<and>
      stop_calls (calls g) = hooks StopHook g (visited i (acquired g)))"
| "thread_ok g AwaitStart =
     (startDone (svc g) \<noteq> ChanNil \<and> \<not> accepting (svc g) \<and>
      (svc_state (svc g) = StateStarting \<longrightarrow> startupCtx g \<noteq> CtxActive))"
| "thread_ok g AwaitDone = (shutdownDone (svc g) \<noteq> ChanNil)"
| "thread_ok g (ShutdownReturned err) =
     (svc_state (svc g) = StateStopped \<and> err = shutdownErr (svc g))"
| "thread_ok g _ = True"

fun stopping_thread :: "pc \<Rightarrow> bool" where
  "stopping_thread (Stopping _ _ _) = True"
| "stopping_thread _ = False"

definition ctx_ok :: "shared \<Rightarrow> bool" where
  "ctx_ok g \<longleftrightarrow> wf_ctx (startupCtx g) \<and>
     (\<forall>x. svc_ctx (svc g) = Some x \<longrightarrow> wf_ctx x \<and> (x \<noteq> CtxActive \<longrightarrow> startupCtx g \<noteq> CtxActive))"

definition counts_ok :: "shared \<Rightarrow> bool" where
  "counts_ok g \<longleftrightarrow> (let s = svc g in
     started s = (if stopsDone s then 0 else acquired g) \<and> acquired g \<le> n_comps g \<and>
     (accepting s \<longrightarrow> acquired g = n_comps g) \<and> (svc_ctx s = None \<longrightarrow> acquired g = 0))"

text \<open>
  The published result is the aggregate of the failures, in the order drain, stop, tasks. Admission
  may still be closing when a service stops, so the drain failures are those recorded by then.
\<close>

definition shutdown_result :: "addr \<Rightarrow> go_error list \<Rightarrow> go_error" where
  "shutdown_result a failures = (if failures \<noteq> [] then ShutdownError a failures else NilErr)"

definition result_ok :: "service \<Rightarrow> bool" where
  "result_ok s \<longleftrightarrow>
     (if svc_state s = StateStopped
      then \<exists>a ds. prefix ds (drainErrors s) \<and> shutdownErr s = shutdown_result a (ds @ stopErrors s @ taskErrors s)
      else shutdownErr s = NilErr) \<and>
     (svc_state s = StateNew \<longrightarrow> taskErrors s = [] \<and> stopErrors s = []) \<and>
     (drainStarted s \<longrightarrow> StateDraining \<le> svc_state s)"

text \<open>Components are started in order, each at most once; the last one tried may have failed.\<close>

definition starts_ok :: "shared \<Rightarrow> bool" where
  "starts_ok g \<longleftrightarrow>
     (svc_ctx (svc g) = None \<longrightarrow> start_calls (calls g) = []) \<and>
     (start_calls (calls g) = hooks StartHook g [0..<acquired g] \<or>
      acquired g < n_comps g \<and> start_calls (calls g) = hooks StartHook g [0..<Suc (acquired g)])"

definition stops_ok :: "sys \<Rightarrow> bool" where
  "stops_ok = (\<lambda>(g, P).
     if stopsDone (svc g) then stop_calls (calls g) = hooks StopHook g (visited 0 (acquired g))
     else cnt stopping_thread P = 0 \<longrightarrow> stop_calls (calls g) = [])"

definition closes_ok :: "shared \<Rightarrow> bool" where
  "closes_ok g \<longleftrightarrow> (let s = svc g in
     (drainDone s = ChanNil \<longrightarrow> close_calls (calls g) = []) \<and>
     (drainDone s = ChanClosed \<longrightarrow>
        close_calls (calls g) = hooks CloseAdmission g (visited 0 (acquired g))))"

definition shared_ok :: "sys \<Rightarrow> bool" where
  "shared_ok = (\<lambda>(g, P).
     ctx_ok g \<and> counts_ok g \<and> result_ok (svc g) \<and> starts_ok g \<and> stops_ok (g, P) \<and> closes_ok g)"

lemmas counts_simps = counts_ok_def Let_def n_comps_def
lemmas closes_simps = closes_ok_def Let_def hooks_def comp_at_def

definition threads_ok :: "sys \<Rightarrow> bool" where
  "threads_ok = (\<lambda>(g, P). \<forall>p\<in>#P. thread_ok g p)"

subsection \<open>Steps advance the state\<close>

lemma start_enter_fields:
  "start_enter a parent s = Inr t \<Longrightarrow> svc_state s = StateNew \<and>
     t = s\<lparr>svc_state := StateStarting, svc_ctx := Some parent, startDone := ChanOpen\<rparr>"
  by (auto simp: start_enter_def split: if_splits)

lemma start_finish_fields:
  "start_finish c s = Inr t \<Longrightarrow> ctx_cause c = NilErr \<and>
     t = s\<lparr>svc_state := StateReady, startedFully := True, startDone := close_chan (startDone s)\<rparr>"
  by (auto simp: start_finish_def split: if_splits)

lemma drain_enter_fields:
  "drain_enter a s = Inr t \<Longrightarrow> accepting s \<and> t = s\<lparr>svc_state := StateDraining\<rparr>"
  by (cases "svc_state s") (auto simp: drain_enter_def accepting_def)

lemma thread_state_mono:
  assumes "thread_step g p g' p' new" and "inv_phase (g, add_mset p P)"
  shows "svc_state (svc g) \<le> svc_state (svc g')"
  using assms
proof (induction rule: thread_step.induct)
  case (start_accepted a parent g s)
  then show ?case by (auto dest!: start_enter_fields simp: state_order)
next
  case (start_ready g s)
  then show ?case
    by (cases "svc_state (svc g)")
      (auto dest!: start_finish_fields simp: inv_phase_def phase_ok_def state_order)
next
  case (fail_enter g name cause)
  then show ?case
    by (cases "svc_state (svc g)")
      (auto simp: inv_phase_def phase_ok_def state_order rollback_enter_def)
next
  case (drain_accepted a g s k)
  then show ?case by (auto dest!: drain_enter_fields simp: accepting_def state_order)
next
  case (stop_done g errs operation a)
  then show ?case
    by (cases "svc_state (svc g)")
      (auto simp: inv_phase_def phase_ok_def state_order stop_finish_def finishShutdownLocked_def Let_def)
next
  case (shutdown_locked k g s branch)
  then show ?case
    by (cases "svc_state (svc g)") (auto simp: shutdown_enter_def state_order Let_def)
qed (auto simp: fail_startup_close_def close_enter_def close_finish_def
      task_record_def task_retire_def Let_def split: if_splits)

text \<open>
  What the facts of \<open>thread_ok\<close> survive: a step that makes no component callback and acquires
  nothing.
\<close>

definition advances :: "shared \<Rightarrow> shared \<Rightarrow> bool" where
  "advances g g' \<longleftrightarrow> (let s = svc g; t = svc g' in
     svc_state s \<le> svc_state t \<and> acquired g' = acquired g \<and> calls g' = calls g \<and>
     components t = components s \<and> (drainStarted s \<longrightarrow> drainStarted t) \<and>
     (startDone s \<noteq> ChanNil \<longrightarrow> startDone t \<noteq> ChanNil) \<and>
     (shutdownDone s \<noteq> ChanNil \<longrightarrow> shutdownDone t \<noteq> ChanNil) \<and>
     (svc_state s = StateStopped \<longrightarrow> shutdownErr t = shutdownErr s) \<and>
     (startupCtx g \<noteq> CtxActive \<longrightarrow> startupCtx g' \<noteq> CtxActive) \<and>
     (startDone s \<noteq> ChanNil \<and> \<not> accepting s \<and> (svc_state s = StateStarting \<longrightarrow> startupCtx g \<noteq> CtxActive)
        \<longrightarrow> \<not> accepting t \<and> (svc_state t = StateStarting \<longrightarrow> svc_state s = StateStarting)))"

lemma hooks_cong:
  "components (svc g') = components (svc g) \<Longrightarrow> hooks f g' is = hooks f g is"
  by (simp add: hooks_def comp_at_def)

lemma after_ok_cong: "acquired g' = acquired g \<Longrightarrow> after_ok g' k = after_ok g k"
  by (cases k) auto

lemma after_ok_calls [simp]: "after_ok (g\<lparr>calls := cs\<rparr>) k = after_ok g k"
  by (cases k) auto

lemma after_ok_with_svc [simp]: "after_ok (with_svc s g) k = after_ok g k"
  by (cases k) auto

lemma hooks_with [simp]:
  "hooks f (g\<lparr>calls := cs\<rparr>) is = hooks f g is" "n_comps (g\<lparr>calls := cs\<rparr>) = n_comps g"
  "comp_at (g\<lparr>calls := cs\<rparr>) i = comp_at g i"
  by (simp_all add: hooks_def comp_at_def n_comps_def)

fun waits_on_state :: "pc \<Rightarrow> bool" where
  "waits_on_state AwaitStart = True"
| "waits_on_state AwaitDone = True"
| "waits_on_state (ShutdownReturned _) = True"
| "waits_on_state (CloseWaiting _) = True"
| "waits_on_state _ = False"

lemma thread_ok_advances:
  assumes "thread_ok g q" and "advances g g'"
  shows "thread_ok g' q"
proof -
  have eqs: "components (svc g') = components (svc g)" "acquired g' = acquired g" "calls g' = calls g"
    and mono: "svc_state (svc g) \<le> svc_state (svc g')"
    using assms(2) by (simp_all add: advances_def Let_def)
  from eqs have cong: "hooks f g' is = hooks f g is" "after_ok g' k = after_ok g k" "n_comps g' = n_comps g"
    for f "is" k
    by (simp_all add: hooks_cong[of g' g] after_ok_cong[of g' g] n_comps_def)
  show ?thesis
  proof (cases "waits_on_state q")
    case True
    with assms cong(2) show ?thesis
      by (cases q) (auto simp: advances_def Let_def state_order)
  next
    case False
    with assms(1) eqs cong order_trans[OF _ mono] show ?thesis
      by (cases "(g, q)" rule: thread_ok.cases) (simp_all del: upt_Suc)
  qed
qed

lemma with_svc_startup [simp]:
  "startupCtx g \<noteq> CtxActive \<Longrightarrow> startupCtx (with_svc s g) \<noteq> CtxActive"
  by (auto simp: with_svc_def split: option.splits ctx_state.splits)

lemma acquire_startup [simp]:
  "startupCtx g \<noteq> CtxActive \<Longrightarrow> startupCtx (acquire i g) \<noteq> CtxActive"
  "acquired (acquire i g) = i + 1" "calls (acquire i g) = calls g"
  by (simp_all add: acquire_def)

lemma advances_frame:
  assumes "svc_state t = svc_state (svc g)" "components t = components (svc g)"
    "drainStarted (svc g) \<longrightarrow> drainStarted t" "startDone (svc g) \<noteq> ChanNil \<longrightarrow> startDone t \<noteq> ChanNil"
    "shutdownDone t = shutdownDone (svc g)" "shutdownErr t = shutdownErr (svc g)"
  shows "advances g (with_svc t g)"
  using assms by (auto simp: advances_def Let_def accepting_def)

lemma thread_advances:
  assumes "thread_step g p g' p' new" and "inv_phase (g, add_mset p P)" and "shared_ok (g, add_mset p P)"
    and "calls g' = calls g" and "acquired g' = acquired g"
  shows "advances g g'"
proof -
  have mono: "svc_state (svc g) \<le> svc_state (svc g')"
    using assms(1,2) by (rule thread_state_mono)
  from assms mono show ?thesis
  proof (induction rule: thread_step.induct)
    case (start_ready g s)
    then have "startupCtx g = CtxActive" and "svc_state (svc g) = StateStarting"
      by (cases "svc_state (svc g)";
          auto dest!: start_finish_fields simp: shared_ok_def ctx_ok_def wf_ctx_cause inv_phase_def phase_ok_def)+
    with start_ready show ?case
      by (auto dest!: start_finish_fields simp: advances_def Let_def accepting_def)
  next
    case (start_accepted a parent g s)
    then show ?case
      by (auto dest!: start_enter_fields simp: advances_def Let_def accepting_def inv_phase_def phase_ok_def)
  next
    case (drain_accepted a g s k)
    then show ?case
      by (auto dest!: drain_enter_fields simp: advances_def Let_def accepting_def)
  next
    case (fail_enter g name cause)
    then show ?case
      by (auto simp: advances_def Let_def accepting_def rollback_enter_def state_order)
  next
    case (stop_done g errs operation a)
    then show ?case
      by (cases "svc_state (svc g)")
        (auto simp: advances_def Let_def accepting_def stop_finish_def finishShutdownLocked_def
          inv_phase_def phase_ok_def)
  next
    case (shutdown_locked k g s branch)
    then show ?case
      by (cases "svc_state (svc g)")
        (auto simp: advances_def Let_def accepting_def shutdown_enter_def inv_phase_def phase_ok_def)
  qed (auto simp: advances_frame fail_startup_close_def close_enter_def close_finish_def
        task_record_def task_retire_def Let_def advances_def accepting_def split: if_splits)
qed

subsection \<open>The ordering invariant is kept\<close>

definition inv_order :: "sys \<Rightarrow> bool" where
  "inv_order x \<longleftrightarrow> inv_phase x \<and> inv_drain x \<and> shared_ok x \<and> threads_ok x"

lemma inv_orderD:
  assumes "inv_order (g, add_mset p P)"
  shows "inv_phase (g, add_mset p P)" "inv_drain (g, add_mset p P)" "shared_ok (g, add_mset p P)"
    "thread_ok g p" "\<And>q. q \<in># P \<Longrightarrow> thread_ok g q"
  using assms by (auto simp: inv_order_def threads_ok_def)

lemma no_other:
  "cnt K (add_mset p P) \<le> 1 \<Longrightarrow> K p \<Longrightarrow> q \<in># P \<Longrightarrow> \<not> K q"
  using size_filter_pos[of q P K] by auto

lemma phase_single:
  assumes "phase_ok s ns nr nl no"
  shows "ns \<le> 1" "no \<le> 1" "0 < ns \<Longrightarrow> svc_state s = StateStarting \<and> no = 0"
  using assms by (cases "svc_state s"; auto simp: phase_ok_def split: if_splits)+

text \<open>While a component is acquired there is no thread whose facts depend on the acquired count.\<close>

lemma others_while_starting:
  assumes "inv_order (g, add_mset p P)" and "starting p" and "q \<in># P" and "thread_ok g q"
    and "svc_state (svc g') = svc_state (svc g)" "components (svc g') = components (svc g)"
    "startDone (svc g') = startDone (svc g)" "shutdownDone (svc g') = shutdownDone (svc g)"
    "shutdownErr (svc g') = shutdownErr (svc g)"
    "startupCtx g \<noteq> CtxActive \<longrightarrow> startupCtx g' \<noteq> CtxActive"
  shows "thread_ok g' q"
proof -
  have phase: "phase_ok (svc g) (cnt starting (add_mset p P)) (cnt rolling (add_mset p P))
      (cnt live_task (add_mset p P)) (cnt owes_stop (add_mset p P))"
    using inv_orderD(1)[OF assms(1)] by (simp add: inv_phase_def)
  have "svc_state (svc g) = StateStarting" and "\<not> starting q"
    using phase_single[OF phase] assms(2) no_other[of starting p P q] assms(3) by auto
  with assms(4-) show ?thesis
    by (induction g q rule: thread_ok.induct) (auto simp: state_order accepting_def)
qed

lemma others_kept:
  assumes "thread_step g p g' p' new" and "inv_order (g, add_mset p P)" and "q \<in># P"
  shows "thread_ok g' q"
proof -
  note inv = inv_orderD[OF assms(2)]
  note ok = inv(5)[OF assms(3)]
  show ?thesis
  proof (cases "calls g' = calls g \<and> acquired g' = acquired g")
    case True
    with thread_advances[OF assms(1) inv(1,3)] ok show ?thesis
      by (blast intro: thread_ok_advances)
  next
    case False
    with assms(1) show ?thesis
    proof cases
      case (start_no_hook i)
      then show ?thesis using others_while_starting[OF assms(2) _ assms(3) ok, of g'] by auto
    next
      case (start_call i)
      then show ?thesis using others_while_starting[OF assms(2) _ assms(3) ok, of g'] by auto
    next
      case (start_call_done a i out)
      then show ?thesis using others_while_starting[OF assms(2) _ assms(3) ok, of g'] by auto
    next
      case (close_call i failures k a b out)
      then have "\<not> closing q"
        using inv(2) no_other[of closing p P q] assms(3)
        by (auto simp: inv_drain_def Let_def split: if_splits)
      with close_call ok show ?thesis
        by (induction g q rule: thread_ok.induct) (auto simp: hooks_def comp_at_def n_comps_def)
    next
      case (stop_call i errs operation a b out)
      then have "\<not> owes_stop q"
        using inv(1) no_other[of owes_stop p P q] assms(3) phase_single(2)
        by (fastforce simp: inv_phase_def)
      with stop_call ok show ?thesis
        by (induction g q rule: thread_ok.induct) (auto simp: hooks_def comp_at_def n_comps_def)
    qed auto
  qed
qed

lemma resume_ok: "after_ok g k \<Longrightarrow> StateDraining \<le> svc_state (svc g) \<Longrightarrow> thread_ok g (resume a k fs)"
  by (cases k) auto

lemma reject_ok: "\<not> for_rollback k \<Longrightarrow> thread_ok g (reject_drain k e)"
  by (cases k) auto

lemma stopping_owes: "cnt owes_stop P = 0 \<Longrightarrow> cnt stopping_thread P = 0"
  by (fastforce simp: size_filter_zero elim: stopping_thread.elims)

lemma phase_owes:
  "phase_ok s ns nr nl (Suc no) \<Longrightarrow> svc_state s = StateStopping \<and> \<not> stopsDone s \<and> no = 0"
  by (cases "svc_state s") (auto simp: phase_ok_def split: if_splits)

lemma phase_idle:
  "phase_ok s ns nr nl no \<Longrightarrow> accepting s \<or> svc_state s = StateStopping \<and> \<not> stopsStarted s \<Longrightarrow>
     no = 0 \<and> \<not> stopsDone s"
  by (cases "svc_state s") (auto simp: phase_ok_def accepting_def)

text \<open>A goroutine that begins to stop components finds that no stop has run.\<close>

lemma no_stop_yet:
  assumes "shared_ok (g, P)" and "cnt stopping_thread P = 0" and "\<not> stopsDone (svc g)"
  shows "stop_calls (calls g) = []" "started (svc g) = acquired g"
  using assms by (auto simp: shared_ok_def stops_ok_def counts_ok_def Let_def)

lemma shared_ok_result:
  "shared_ok (g, P) \<Longrightarrow> svc_state (svc g) \<noteq> StateStopped \<Longrightarrow> shutdownErr (svc g) = NilErr"
  by (simp add: shared_ok_def counts_ok_def result_ok_def Let_def)

lemma accepting_acquired:
  assumes "inv_phase (g, P)" and "shared_ok (g, P)" and "accepting (svc g)"
  shows "started (svc g) = acquired g"
proof -
  have "\<not> stopsDone (svc g)"
    using assms(1,3) by (auto simp: inv_phase_def dest: phase_idle)
  with assms(2) show ?thesis by (simp add: shared_ok_def counts_ok_def result_ok_def Let_def)
qed

lemma start_next_ok:
  "i < n_comps g \<Longrightarrow> start_calls (calls g) = hooks StartHook g [0..<Suc i] \<Longrightarrow>
     thread_ok (acquire i g) (start_next i g)"
  by (simp add: start_next_def n_comps_def hooks_def comp_at_def)

lemma startup_over:
  assumes "inv_phase (g, P)" and "startDone (svc g) = ChanClosed" and "\<not> accepting (svc g)"
  shows "svc_state (svc g) = StateStopping \<and> shutdownDone (svc g) = ChanOpen \<or>
    svc_state (svc g) = StateStopped"
  using assms by (cases "svc_state (svc g)") (auto simp: inv_phase_def phase_ok_def accepting_def)

lemma shutdown_over:
  assumes "inv_phase (g, P)" and "shutdownDone (svc g) = ChanClosed"
  shows "svc_state (svc g) = StateStopped"
  using assms by (cases "svc_state (svc g)") (auto simp: inv_phase_def phase_ok_def)

lemma no_close_yet:
  assumes "inv_drain (g, P)" and "shared_ok (g, P)" and "\<not> drainStarted (svc g)"
  shows "close_calls (calls g) = []"
  using assms by (auto simp: inv_drain_def shared_ok_def closes_ok_def Let_def)

lemma self_kept:
  assumes "thread_step g p g' p' new" and "inv_order (g, add_mset p P)"
  shows "thread_ok g' p' \<and> (\<forall>q\<in>#new. thread_ok g' q)"
proof -
  note inv = inv_orderD[OF assms(2)]
  from assms(1) inv(1-4) show ?thesis
  proof (induction rule: thread_step.induct)
    case (start_accepted a parent g s)
    then show ?case by (auto dest!: start_enter_fields simp: shared_ok_def counts_ok_def starts_ok_def Let_def inv_phase_def phase_ok_def)
  next
    case (close_begin g n k)
    then show ?case using no_close_yet[of g] by (auto simp: close_enter_def)
  next
    case (await_start_done g)
    then show ?case using startup_over[of g] by auto
  next
    case (await_done_done g)
    then show ?case using shutdown_over[of g] by auto
  next
    case (fail_enter g name cause)
    then show ?case
      by (cases "svc_state (svc g)")
        (auto simp: inv_phase_def phase_ok_def shared_ok_def counts_ok_def Let_def rollback_enter_def state_order)
  next
    case (drain_accepted a g s k)
    then show ?case
      by (cases k) (auto dest!: drain_enter_fields dest: accepting_acquired simp: state_order)
  next
    case (close_done g failures k a)
    then show ?case by (auto intro!: resume_ok simp: close_finish_def)
  next
    case (rollback_cancel g name cause n failures)
    then have "svc_state (svc g) = StateStopping" "\<not> stopsDone (svc g)" "cnt owes_stop P = 0"
      by (auto simp: inv_phase_def dest: phase_owes)
    with rollback_cancel no_stop_yet[of g "add_mset (RollbackCancel name cause n failures) P"]
    show ?case by (auto simp: stopping_owes state_order hooks_def)
  next
    case (task_retired g s startStops)
    show ?case
    proof (cases startStops)
      case True
      with task_retired.hyps have s: "s = (svc g)\<lparr>taskCount := taskCount (svc g) - 1, stopsStarted := True\<rparr>"
        "svc_state (svc g) = StateStopping" "\<not> stopsStarted (svc g)"
        by (auto simp: task_retire_def Let_def split: if_splits)
      then have "cnt owes_stop P = 0" "\<not> stopsDone (svc g)"
        using task_retired.prems(1) phase_idle by (fastforce simp: inv_phase_def)+
      with s True task_retired.prems no_stop_yet[of g "add_mset TaskRetiring P"] show ?thesis
        by (auto simp: stopping_owes state_order hooks_def spawn_stop_def)
    qed (simp add: spawn_stop_def)
  next
    case (shutdown_locked k g s branch)
    show ?case
    proof (cases "accepting (svc g)")
      case True
      then have "cnt owes_stop P = 0" "\<not> stopsDone (svc g)"
        using shutdown_locked.prems(1) phase_idle by (fastforce simp: inv_phase_def)+
      with True shutdown_locked no_stop_yet[of g "add_mset (ShutdownLock k) P"] show ?thesis
        by (auto simp: stopping_owes state_order hooks_def spawn_stop_def shutdown_enter_def accepting_def Let_def)
    next
      case False
      with shutdown_locked show ?thesis
        by (cases "svc_state (svc g)")
          (auto simp: shutdown_enter_def accepting_def spawn_stop_def with_svc_def cancel_service_def
            inv_phase_def phase_ok_def shared_ok_result split: option.splits ctx_state.splits)
    qed
  qed (auto simp: reject_ok resume_ok start_next_ok)
qed

lemma ctx_ok_with_svc:
  assumes "ctx_ok g" and "\<And>x. svc_ctx s = Some x \<Longrightarrow> wf_ctx x"
  shows "ctx_ok (with_svc s g)"
  using assms by (auto simp: ctx_ok_def with_svc_def split: option.splits ctx_state.splits)

lemma ctx_ok_frame:
  "ctx_ok (g\<lparr>calls := cs\<rparr>) = ctx_ok g" "ctx_ok (g\<lparr>completed := c\<rparr>) = ctx_ok g"
  "ctx_ok (g\<lparr>acquired := n\<rparr>) = ctx_ok g"
  by (simp_all add: ctx_ok_def)

lemma cancel_service_ctx:
  "svc_ctx (cancel_service c s) = Some y \<Longrightarrow> \<exists>x. svc_ctx s = Some x \<and> y = cancel_cause c x"
  by (auto simp: cancel_service_def split: option.splits)

lemma shutdown_enter_ctx:
  "shutdown_enter k s = (t, b) \<Longrightarrow> svc_ctx t = Some y \<Longrightarrow>
     \<exists>x. svc_ctx s = Some x \<and> (y = x \<or> y = cancel_cause (Sentinel ErrShutdown) x)"
  by (cases "svc_state s") (auto simp: shutdown_enter_def Let_def dest!: cancel_service_ctx)

lemma ctx_kept:
  assumes "thread_step g p g' p' new" and "ctx_ok g" and "thread_ok g p"
  shows "ctx_ok g'"
  using assms
proof (induction rule: thread_step.induct)
  case (shutdown_locked k g s branch)
  then show ?case
    by (intro ctx_ok_with_svc) (auto dest!: shutdown_enter_ctx simp: ctx_ok_def)
qed (auto intro!: ctx_ok_with_svc dest!: start_enter_fields start_finish_fields drain_enter_fields
      cancel_service_ctx
      simp: ctx_ok_frame acquire_def start_acquired_def rollback_enter_def fail_startup_close_def
      close_enter_def close_finish_def task_record_def task_retire_def stop_finish_def
      finishShutdownLocked_def Let_def split: if_splits,
      auto simp: ctx_ok_def)

end
