(* ===== verification/Lifecycle_Invariant.thy ===== *)
theory Lifecycle_Invariant
  imports Lifecycle_Order
begin

section \<open>The invariant holds in every reachable state\<close>

text \<open>
  The shared part of the invariant is kept by every thread step, one clause at a time, and by the
  steps of the environment. The interpretation of \<open>safe_system\<close> at the end makes the invariant
  available for every reachable state of the service.
\<close>

subsection \<open>Thread steps\<close>

lemma counts_frame:
  assumes "counts_ok g" and "started t = started (svc g)" "stopsDone t = stopsDone (svc g)"
    "components t = components (svc g)" "svc_state t = svc_state (svc g)"
    "svc_ctx t = None \<longrightarrow> svc_ctx (svc g) = None"
  shows "counts_ok (with_svc t g)"
  using assms by (simp add: counts_simps accepting_def)

lemma counts_calls: "counts_ok (g\<lparr>calls := cs\<rparr>) = counts_ok g" "counts_ok (g\<lparr>completed := c\<rparr>) = counts_ok g"
  by (simp_all add: counts_simps)

lemma counts_acquire:
  assumes "counts_ok g" "i < n_comps g" "svc_state (svc g) = StateStarting" "\<not> stopsDone (svc g)"
    "svc_ctx (svc g) \<noteq> None"
  shows "counts_ok (acquire i g)"
  using assms by (simp add: counts_simps accepting_def)

lemma phase_starting:
  "phase_ok s (Suc ns) nr nl no \<Longrightarrow>
     svc_state s = StateStarting \<and> \<not> stopsDone s \<and> \<not> stopsStarted s \<and> svc_ctx s \<noteq> None"
  by (cases "svc_state s") (auto simp: phase_ok_def)

lemma starting_phase:
  assumes "inv_phase (g, add_mset p P)" and "starting p"
  shows "svc_state (svc g) = StateStarting" "\<not> stopsDone (svc g)" "\<not> stopsStarted (svc g)"
    "svc_ctx (svc g) \<noteq> None"
  using assms by (auto simp: inv_phase_def dest: phase_starting)

lemma counts_shutdown:
  assumes "shutdown_enter k (svc g) = (s, branch)" and "counts_ok g" and "inv_phase (g, P)"
  shows "counts_ok (with_svc s g)"
  using assms
  by (cases "svc_state (svc g)")
    (auto simp: shutdown_enter_def Let_def counts_simps accepting_def inv_phase_def phase_ok_def)

lemma counts_stop: "counts_ok g \<Longrightarrow> svc_state (svc g) = StateStopping \<Longrightarrow> counts_ok (with_svc (stop_finish a es (svc g)) g)"
  by (simp add: counts_simps stop_finish_def finishShutdownLocked_def accepting_def)

lemma counts_kept:
  assumes "thread_step g p g' p' new" and "counts_ok g" and "inv_phase (g, add_mset p P)" and "thread_ok g p"
  shows "counts_ok g'"
  using assms
proof (induction rule: thread_step.induct)
  case (start_accepted a parent g s)
  then show ?case
    by (auto dest!: start_enter_fields simp: counts_simps accepting_def)
next
  case (start_no_hook i g)
  with starting_phase[OF start_no_hook(4)] show ?case by (simp add: counts_acquire)
next
  case (start_call_done a g i out)
  with starting_phase[OF start_call_done(3)] show ?case by (simp add: counts_acquire)
next
  case (start_ready g s)
  with starting_phase[OF start_ready(3)] show ?case
    by (auto dest!: start_finish_fields simp: counts_simps accepting_def)
next
  case (fail_enter g name cause)
  with starting_phase[OF fail_enter(2)] show ?case
    by (simp add: rollback_enter_def counts_simps accepting_def)
next
  case (drain_accepted a g s k)
  then show ?case
    by (auto dest!: drain_enter_fields simp: counts_simps accepting_def)
next
  case (stop_done g errs operation a)
  then show ?case by (auto intro!: counts_stop simp: inv_phase_def dest: phase_owes)
next
  case (shutdown_locked k g s branch)
  then show ?case by (blast intro: counts_shutdown)
qed (auto intro!: counts_frame simp: counts_calls fail_startup_close_def close_enter_def close_finish_def
      task_record_def task_retire_def Let_def split: if_splits)

lemma live_not_new:
  assumes "inv_phase (g, add_mset p P)" and "live_task p"
  shows "svc_state (svc g) \<noteq> StateNew" "svc_state (svc g) \<noteq> StateStopped"
  using assms by (auto simp: inv_phase_def phase_ok_def)

lemma result_frame:
  assumes "result_ok s" and "svc_state t = svc_state s" "shutdownErr t = shutdownErr s"
    "stopErrors t = stopErrors s" "taskErrors t = taskErrors s" "drainStarted t = drainStarted s"
    "prefix (drainErrors s) (drainErrors t)"
  shows "result_ok t"
proof (cases "svc_state s = StateStopped")
  case True
  then obtain a ds where "prefix ds (drainErrors s)"
    "shutdownErr s = shutdown_result a (ds @ stopErrors s @ taskErrors s)"
    using assms(1) by (auto simp: result_ok_def)
  with True assms show ?thesis
    by (metis lifecycle_state.distinct(9) prefix_order.trans result_ok_def)
qed (use assms in \<open>simp add: result_ok_def\<close>)

lemma result_finish: "result_ok s \<Longrightarrow> result_ok (finishShutdownLocked a s)"
  by (auto simp: result_ok_def finishShutdownLocked_def shutdown_result_def Let_def state_order)

lemma result_stop:
  assumes "result_ok s" and "svc_state s = StateStopping"
  shows "result_ok (s\<lparr>started := 0, stopErrors := stopErrors s @ es, stopsDone := True\<rparr>)"
  using assms by (simp add: result_ok_def)

lemma result_shutdown:
  assumes "shutdown_enter k s = (t, b)" and "result_ok s"
  shows "result_ok t"
  using assms
  by (cases "svc_state s")
    (auto simp: shutdown_enter_def Let_def result_ok_def state_order shutdown_result_def)

lemma owing_phase:
  assumes "inv_phase (g, add_mset p P)" and "owes_stop p"
  shows "svc_state (svc g) = StateStopping" "\<not> stopsDone (svc g)" "taskCount (svc g) = 0"
    "shutdownDone (svc g) = ChanOpen" "stopsStarted (svc g)" "svc_ctx (svc g) \<noteq> None"
  using assms
  by (cases "svc_state (svc g)"; auto simp: inv_phase_def phase_ok_def split: if_splits)+

lemma stop_finish_state:
  assumes "inv_phase (g, add_mset p P)" and "owes_stop p"
  shows "stop_finish a es (svc g) = finishShutdownLocked a
    ((svc g)\<lparr>started := 0, stopErrors := stopErrors (svc g) @ es, stopsDone := True\<rparr>)"
  using owing_phase[OF assms] by (simp add: stop_finish_def Let_def)

lemma result_kept:
  assumes "thread_step g p g' p' new" and "result_ok (svc g)" and "inv_phase (g, add_mset p P)"
     and "thread_ok g p"
  shows "result_ok (svc g')"
  using assms
proof (induction rule: thread_step.induct)
  case (start_accepted a parent g s)
  then show ?case by (auto dest!: start_enter_fields simp: result_ok_def state_order)
next
  case (start_ready g s)
  with starting_phase[OF start_ready(3)] show ?case
    by (auto dest!: start_finish_fields simp: result_ok_def state_order)
next
  case (fail_enter g name cause)
  with starting_phase[OF fail_enter(2)] show ?case
    by (simp add: rollback_enter_def result_ok_def state_order)
next
  case (drain_accepted a g s k)
  then show ?case by (auto dest!: drain_enter_fields simp: result_ok_def state_order accepting_def)
next
  case (close_begin g n k)
  then show ?case by (simp add: close_enter_def result_ok_def)
next
  case (task_recorded g err)
  with live_not_new[OF task_recorded(2)] show ?case by (simp add: task_record_def result_ok_def)
next
  case (stop_done g errs operation a)
  with owing_phase[OF stop_done(2)] show ?case
    by (simp add: stop_finish_state[OF stop_done(2)] result_finish result_stop)
next
  case (shutdown_locked k g s branch)
  then show ?case by (auto intro: result_shutdown)
qed (auto elim!: result_frame simp: fail_startup_close_def close_finish_def
      task_retire_def Let_def split: if_splits)

lemma shutdown_enter_fields:
  assumes "shutdown_enter k s = (t, b)"
  shows "components t = components s" "started t = started s" "drainDone t = drainDone s"
    "drainStarted t = drainStarted s" "drainErrors t = drainErrors s" "taskErrors t = taskErrors s"
    "stopErrors t = stopErrors s" "taskCount t = taskCount s" "maxTasks t = maxTasks s"
    "stopsDone t = (stopsDone s \<and> \<not> accepting s)" "shutdownErr t = shutdownErr s"
    "startDone t = startDone s" "startedFully t = startedFully s"
    "svc_ctx t = None \<longleftrightarrow> svc_ctx s = None"
  using assms
  by (cases "svc_state s"; auto simp: shutdown_enter_def Let_def accepting_def)+

lemma starts_frame:
  assumes "starts_ok g" and "svc_ctx (svc g') = None \<longrightarrow> svc_ctx (svc g) = None"
    "components (svc g') = components (svc g)" "acquired g' = acquired g"
    "start_calls (calls g') = start_calls (calls g)"
  shows "starts_ok g'"
  using assms(1,2,4,5) hooks_cong[OF assms(3)]
  by (auto simp: starts_ok_def n_comps_def assms(3) simp del: upt_Suc)

lemma starts_exact:
  assumes "start_calls (calls g) = hooks StartHook g [0..<acquired g]" "svc_ctx (svc g) \<noteq> None"
  shows "starts_ok g"
  using assms by (auto simp: starts_ok_def)

lemma hooks_acquire [simp]:
  "hooks f (acquire i g) is = hooks f g is" "comp_at (acquire i g) j = comp_at g j"
  by (simp_all add: hooks_def comp_at_def)

lemma starts_kept:
  assumes "thread_step g p g' p' new" and "starts_ok g" and "inv_phase (g, add_mset p P)"
    and "thread_ok g p"
  shows "starts_ok g'"
  using assms
proof (induction rule: thread_step.induct)
  case (start_no_hook i g)
  with starting_phase[OF start_no_hook(4)] show ?case by (auto intro!: starts_exact)
next
  case (start_call i g)
  with starting_phase[OF start_call(4)] show ?case by (auto simp: starts_ok_def n_comps_def)
next
  case (start_call_done a g i out)
  with starting_phase[OF start_call_done(3)] show ?case by (auto intro!: starts_exact)
next
  case (stop_done g errs operation a)
  then show ?case
    by (intro starts_frame[OF stop_done(1)])
      (simp_all add: stop_finish_state[OF stop_done(2)] finishShutdownLocked_def)
next
  case (shutdown_locked k g s branch)
  then show ?case
    by (intro starts_frame[OF shutdown_locked(2)]) (simp_all add: shutdown_enter_fields[OF shutdown_locked(1)])
qed (erule starts_frame; auto dest!: start_enter_fields start_finish_fields drain_enter_fields
      simp: fail_startup_close_def rollback_enter_def close_enter_def close_finish_def
      task_record_def task_retire_def Let_def split: if_splits)+

lemma cnt_mono: "P \<subseteq># M \<Longrightarrow> cnt K M = 0 \<Longrightarrow> cnt K P = 0"
  by (auto simp: size_filter_zero dest: mset_subset_eqD)

lemma stops_frame:
  assumes "stops_ok (g, add_mset p P)" and "stopsDone (svc g') = stopsDone (svc g)"
    "components (svc g') = components (svc g)" "acquired g' = acquired g"
    "stop_calls (calls g') = stop_calls (calls g)" "stopping_thread p \<longrightarrow> stopping_thread p'" "P \<subseteq># M"
  shows "stops_ok (g', add_mset p' M)"
  using assms cnt_mono[OF assms(7), of stopping_thread]
  by (auto simp: stops_ok_def hooks_cong[of g' g] split: if_splits)

lemma stops_waiting:
  assumes "stops_ok (g, add_mset p P)" and "\<not> stopsDone (svc g)" "\<not> stopsDone (svc g')"
    "stop_calls (calls g') = stop_calls (calls g)" "\<not> stopping_thread p" "P \<subseteq># M"
  shows "stops_ok (g', add_mset p' M)"
  using assms cnt_mono[OF assms(6), of stopping_thread] by (auto simp: stops_ok_def)

lemma stops_kept:
  assumes "thread_step g p g' p' new" and "stops_ok (g, add_mset p P)" and "inv_phase (g, add_mset p P)"
    and "thread_ok g p"
  shows "stops_ok (g', add_mset p' (new + P))"
  using assms
proof (induction rule: thread_step.induct)
  case (start_no_hook i g)
  then show ?case using starting_phase[OF start_no_hook(4)] by (intro stops_waiting[OF start_no_hook(3)]) simp_all
next
  case (start_call_done a g i out)
  then show ?case using starting_phase[OF start_call_done(3)] by (intro stops_waiting[OF start_call_done(2)]) simp_all
next
  case (fail_enter g name cause)
  then show ?case using starting_phase[OF fail_enter(2)]
    by (intro stops_waiting[OF fail_enter(1)]) (simp_all add: rollback_enter_def)
next
  case (stop_call g i errs operation a b out)
  then show ?case using owing_phase[OF stop_call(3)] by (auto simp: stops_ok_def)
next
  case (stop_done g errs operation a)
  then show ?case
    by (simp add: stop_finish_state[OF stop_done(2)] finishShutdownLocked_def stops_ok_def
        hooks_def comp_at_def)
next
  case (shutdown_locked k g s branch)
  then have "\<not> stopsDone (svc g) \<or> \<not> accepting (svc g)"
    by (auto simp: inv_phase_def dest: phase_idle)
  with shutdown_locked show ?case
    by (intro stops_frame[OF shutdown_locked(2)]) (auto simp: shutdown_enter_fields[OF shutdown_locked(1)])
qed (erule stops_frame; auto dest!: start_enter_fields start_finish_fields drain_enter_fields
      simp: fail_startup_close_def close_enter_def close_finish_def
      task_record_def task_retire_def Let_def split: if_splits)+

lemma closes_frame:
  assumes "closes_ok g" and "drainDone (svc g') = drainDone (svc g)"
    "components (svc g') = components (svc g)" "acquired g' = acquired g"
    "close_calls (calls g') = close_calls (calls g)"
  shows "closes_ok g'"
  using assms by (auto simp: closes_ok_def Let_def hooks_cong[of g' g])

lemma closes_acquire:
  assumes "closes_ok g" and "drainDone (svc g) = ChanNil"
  shows "closes_ok (acquire i g)"
  using assms by (simp add: closes_ok_def Let_def)

lemma starting_undrained:
  assumes "inv_phase (g, add_mset p P)" and "starting p" and "inv_drain (g, add_mset p P)"
    and "result_ok (svc g)"
  shows "drainDone (svc g) = ChanNil"
  using starting_phase[OF assms(1,2)] assms(3,4) by (auto simp: result_ok_def inv_drain_def Let_def state_order)

lemma closing_open:
  "inv_drain (g, add_mset (Closing i fs k) P) \<Longrightarrow> drainDone (svc g) = ChanOpen"
  by (auto simp: inv_drain_def Let_def split: if_splits)

lemma closes_kept:
  assumes "thread_step g p g' p' new" and "closes_ok g" and "inv_phase (g, add_mset p P)"
    and "inv_drain (g, add_mset p P)" and "result_ok (svc g)" and "thread_ok g p"
  shows "closes_ok g'"
  using assms
proof (induction rule: thread_step.induct)
  case (start_no_hook i g)
  then show ?case using starting_undrained[of g "StartLoop i" P] by (simp add: closes_acquire)
next
  case (start_call_done a g i out)
  then show ?case using starting_undrained[of g "StartCalling i" P] by (simp add: closes_acquire)
next
  case (close_begin g n k)
  then show ?case by (auto simp: closes_ok_def inv_drain_def close_enter_def Let_def)
next
  case (close_call g i failures k a b out)
  then show ?case using closing_open[of g] by (auto simp: closes_ok_def Let_def)
next
  case (close_done g failures k a)
  then show ?case
    using closing_open[of g] by (simp add: closes_ok_def Let_def close_finish_def hooks_def comp_at_def)
next
  case (stop_done g errs operation a)
  then show ?case
    by (intro closes_frame[OF stop_done(1)])
      (simp_all add: stop_finish_state[OF stop_done(2)] finishShutdownLocked_def)
next
  case (shutdown_locked k g s branch)
  then show ?case
    by (intro closes_frame[OF shutdown_locked(2)]) (simp_all add: shutdown_enter_fields[OF shutdown_locked(1)])
qed (erule closes_frame; auto dest!: start_enter_fields start_finish_fields drain_enter_fields
      simp: fail_startup_close_def rollback_enter_def
      task_record_def task_retire_def Let_def split: if_splits)+

lemma inv_order_thread:
  assumes "thread_step g p g' p' new" and "inv_order (g, add_mset p P)"
  shows "inv_order (g', add_mset p' (new + P))"
proof -
  note inv = inv_orderD[OF assms(2)]
  have shared: "ctx_ok g" "counts_ok g" "result_ok (svc g)" "stops_ok (g, add_mset p P)" "closes_ok g"
      "starts_ok g"
    using inv(3) by (simp_all add: shared_ok_def)
  have "shared_ok (g', add_mset p' (new + P))"
    using ctx_kept[OF assms(1) shared(1) inv(4)] counts_kept[OF assms(1) shared(2) inv(1,4)]
      result_kept[OF assms(1) shared(3) inv(1,4)] stops_kept[OF assms(1) shared(4) inv(1,4)]
      closes_kept[OF assms(1) shared(5) inv(1,2) shared(3) inv(4)] starts_kept[OF assms(1) shared(6) inv(1,4)]
    by (simp add: shared_ok_def)
  moreover have "threads_ok (g', add_mset p' (new + P))"
    using self_kept[OF assms] others_kept[OF assms] by (auto simp: threads_ok_def)
  ultimately show ?thesis
    using inv_phase_thread[OF assms(1) inv(1)] inv_drain_thread[OF assms(1) inv(2)]
    by (simp add: inv_order_def)
qed

subsection \<open>Steps of the environment\<close>

lemma phase_ctx:
  "svc_ctx s \<noteq> None \<Longrightarrow> phase_ok (s\<lparr>svc_ctx := Some x\<rparr>) ns nr nl no = phase_ok s ns nr nl no"
  by (rule phase_frame) auto

lemma go_admit_fields:
  assumes "go_admit a n b s = (t, e)"
  shows "svc_ctx t = svc_ctx s" "components t = components s" "started t = started s"
    "stopsDone t = stopsDone s" "drainDone t = drainDone s" "drainStarted t = drainStarted s"
    "shutdownErr t = shutdownErr s" "startDone t = startDone s" "shutdownDone t = shutdownDone s"
    "svc_state t = svc_state s \<or> svc_state s = StateReady \<and> svc_state t = StateDraining"
    "maxTasks t = maxTasks s" "drainErrors t = drainErrors s" "taskErrors t = taskErrors s"
    "stopErrors t = stopErrors s"
  using assms by (auto simp: go_admit_def Let_def split: if_splits)

lemma pool_add:
  assumes "shared_ok (g, P)" and "\<not> stopping_thread p"
  shows "shared_ok (g, add_mset p P)"
  using assms by (simp add: shared_ok_def stops_ok_def)

lemma inv_order_call:
  assumes "inv_order (g, P)" and "entry p"
  shows "inv_order (g, add_mset p P)"
proof -
  have "thread_ok g p" and "\<not> stopping_thread p"
    using assms(2) by (cases p rule: entry.cases; simp)+
  with assms show ?thesis
    by (simp add: inv_order_def inv_phase_def inv_drain_def pool_add threads_ok_def)
qed

lemma threads_advance:
  "threads_ok (g, P) \<Longrightarrow> advances g g' \<Longrightarrow> threads_ok (g', P)"
  by (auto simp: threads_ok_def intro: thread_ok_advances)

lemma go_shared:
  assumes "shared_ok (g, P)" and "go_admit a n b (svc g) = (s, e)"
  shows "shared_ok (with_svc s g, P)"
proof -
  note f = go_admit_fields[OF assms(2)]
  have old: "ctx_ok g" "counts_ok g" "result_ok (svc g)" "stops_ok (g, P)" "closes_ok g"
      "starts_ok g"
    using assms(1) by (simp_all add: shared_ok_def)
  have "ctx_ok (with_svc s g)"
    using old(1) f(1) by (intro ctx_ok_with_svc) (auto simp: ctx_ok_def)
  moreover have "counts_ok (with_svc s g)"
    using old(2) f(1,2,3,4,10) by (auto simp: counts_simps accepting_def)
  moreover have "result_ok s"
    using old(3) f(6,7,10,12-14) by (auto simp: result_ok_def state_order)
  moreover have "stops_ok (with_svc s g, P)"
    using old(4) f(2,4) by (simp add: stops_ok_def hooks_def comp_at_def)
  moreover have "closes_ok (with_svc s g)"
    using old(5) f(2,5) by (intro closes_frame[OF old(5)]) simp_all
  moreover have "starts_ok (with_svc s g)"
    using f(1,2) by (intro starts_frame[OF old(6)]) simp_all
  ultimately show ?thesis by (simp add: shared_ok_def)
qed

lemma go_advances:
  assumes "go_admit a n b (svc g) = (s, e)"
  shows "advances g (with_svc s g)"
  using go_admit_fields[OF assms]
  by (auto simp: advances_def Let_def accepting_def state_order)

lemma inv_order_go:
  assumes "inv_order (g, P)" and "go_admit a n b (svc g) = (s, e)"
  shows "inv_order (with_svc s g, if e = NilErr then add_mset (TaskRunning n) P else P)"
proof -
  have "threads_ok (with_svc s g, P)" and shared: "shared_ok (with_svc s g, P)"
    using assms threads_advance go_advances go_shared by (auto simp: inv_order_def)
  moreover have "inv_phase (with_svc s g, if e = NilErr then add_mset (TaskRunning n) P else P)"
    using assms phase_go[OF assms(2)] by (auto simp: inv_order_def inv_phase_def)
  moreover have "inv_drain (with_svc s g, P)"
    using assms(1) go_admit_fields(5,6)[OF assms(2)] by (simp add: inv_order_def inv_drain_def Let_def)
  ultimately show ?thesis
    using pool_add[OF shared, of "TaskRunning n"]
    by (cases "e = NilErr") (auto simp: inv_order_def inv_drain_def threads_ok_def)
qed

lemma inv_order_parent:
  assumes "inv_order (g, P)" and "svc_ctx (svc g) = Some x" and "e \<noteq> NilErr" "c \<noteq> NilErr"
  shows "inv_order (with_svc ((svc g)\<lparr>svc_ctx := Some (end_ctx e c x)\<rparr>) g, P)"
proof -
  let ?s = "(svc g)\<lparr>svc_ctx := Some (end_ctx e c x)\<rparr>"
  have "advances g (with_svc ?s g)"
    by (rule advances_frame) simp_all
  moreover have "ctx_ok (with_svc ?s g)"
    using assms by (intro ctx_ok_with_svc) (auto simp: inv_order_def shared_ok_def ctx_ok_def)
  moreover have old: "counts_ok g" "result_ok (svc g)" "stops_ok (g, P)" "closes_ok g" "starts_ok g"
    using assms(1) by (simp_all add: inv_order_def shared_ok_def)
  moreover have "counts_ok (with_svc ?s g)" "result_ok ?s" "stops_ok (with_svc ?s g, P)"
    using old(1-3) by (simp_all add: counts_simps result_ok_def stops_ok_def hooks_def comp_at_def accepting_def)
  moreover have "starts_ok (with_svc ?s g)" "closes_ok (with_svc ?s g)"
    using assms(2) by - (rule starts_frame[OF old(5)], simp_all, rule closes_frame[OF old(4)], simp_all)
  moreover have "inv_drain (with_svc ?s g, P)"
    using assms(1) by (simp add: inv_order_def inv_drain_def Let_def split: if_splits)
  ultimately show ?thesis
    using assms threads_advance[of g P "with_svc ?s g"] phase_ctx[of "svc g"]
    by (simp add: inv_order_def inv_phase_def shared_ok_def)
qed

lemma inv_order_deadline:
  assumes "inv_order (g, P)"
  shows "inv_order (g\<lparr>startupCtx := deadline_passes (startupCtx g)\<rparr>, P)"
proof -
  let ?g = "g\<lparr>startupCtx := deadline_passes (startupCtx g)\<rparr>"
  have old: "ctx_ok g" "counts_ok g" "result_ok (svc g)" "stops_ok (g, P)" "closes_ok g" "starts_ok g"
    using assms by (simp_all add: inv_order_def shared_ok_def)
  have "advances g ?g"
    by (auto simp: advances_def Let_def accepting_def)
  moreover have "ctx_ok ?g"
    using assms by (auto simp: inv_order_def shared_ok_def ctx_ok_def deadline_passes_def)
  moreover have "counts_ok ?g" "stops_ok (?g, P)"
    using old(2,4) by (simp_all add: counts_simps stops_ok_def hooks_def comp_at_def)
  moreover have "starts_ok ?g" "closes_ok ?g"
    by (rule starts_frame[OF old(6)], simp_all) (rule closes_frame[OF old(5)], simp_all)
  ultimately show ?thesis
    using assms old(3) threads_advance[of g P ?g]
    by (simp add: inv_order_def inv_phase_def inv_drain_def shared_ok_def)
qed

lemma inv_order_step: "inv_order x \<Longrightarrow> sys_step x y \<Longrightarrow> inv_order y"
  by (erule sys_step.cases)
    (auto intro: inv_order_thread inv_order_call inv_order_parent inv_order_deadline dest: inv_order_go)

lemma New_fresh:
  assumes "New a cfg = Inr s"
  shows "\<exists>cs su rb mt. s = zero_service\<lparr>components := cs, startup := su, rollback := rb, maxTasks := mt\<rparr>"
  using assms by (auto simp: New_def split: if_splits go_error.splits)

lemma inv_order_init: "sys_init x \<Longrightarrow> inv_order x"
  by (auto simp: sys_init_def fresh_shared_def zero_service_def inv_order_def inv_phase_def phase_ok_def
      inv_drain_def shared_ok_def ctx_ok_def counts_simps result_ok_def starts_ok_def stops_ok_def closes_ok_def
      accepting_def threads_ok_def dest!: New_fresh)

interpretation lifecycle: safe_system sys_init sys_step inv_order
  by unfold_locales (auto intro: inv_order_init inv_order_step)

end
