(* ===== verification/Lifecycle_Correct.thy ===== *)
theory Lifecycle_Correct
  imports Lifecycle_Invariant
begin

section \<open>Correctness of the lifecycle\<close>

text \<open>
  What the invariant says of the service, and that cleanup always finishes. The concrete run at the
  start shows the hypotheses can hold and exhibits a schedule that stops components without
  closing admission.
\<close>

subsection \<open>Runs of threads\<close>

inductive moves :: "sys \<Rightarrow> sys \<Rightarrow> bool" where
  moves: "thread_step g p g' p' new \<Longrightarrow> moves (g, add_mset p P) (g', add_mset p' (new + P))"

lemma moves_step: "moves x y \<Longrightarrow> sys_step x y"
  by (auto elim!: moves.cases intro: sys_step.thread)

lemma moves_steps: "moves\<^sup>*\<^sup>* x y \<Longrightarrow> sys_step\<^sup>*\<^sup>* x y"
  by (rule rtranclp_mono[THEN predicate2D, rotated]) (auto intro: moves_step)

lemma moves_reachable: "lifecycle_reachable x \<Longrightarrow> moves\<^sup>*\<^sup>* x y \<Longrightarrow> lifecycle_reachable y"
  by (rotate_tac 1, induction rule: rtranclp_induct) (auto intro: reachable_step moves_step)

fun finished :: "pc \<Rightarrow> bool" where
  "finished (StartReturned _) = True"
| "finished (DrainReturned _) = True"
| "finished CancelReturned = True"
| "finished TaskDone = True"
| "finished StopDone = True"
| "finished (ShutdownReturned _) = True"
| "finished (ShutdownFailed _) = True"
| "finished _ = False"

lemma finished_no_step: "finished p \<Longrightarrow> \<not> thread_step g p g' p' new"
  by (cases p) (auto elim: thread_step.cases)

lemma finished_stuck: "\<forall>p\<in>#P. finished p \<Longrightarrow> \<nexists>z. moves (g, P) z"
  by (auto elim!: moves.cases simp: finished_no_step)

subsection \<open>A concrete run\<close>

definition race_config :: config where
  "race_config = \<lparr>Components = [\<lparr>Name = ''db'', CloseAdmission = True, StartHook = False, StopHook = True\<rparr>],
     StartupTimeout = 0, RollbackTimeout = 0, MaxTasks = 2\<rparr>"

definition race_service :: service where
  "race_service = zero_service\<lparr>components := Components race_config, startup := 30 * second,
     rollback := 30 * second, maxTasks := 2\<rparr>"

definition race_ready :: shared where
  "race_ready = (fresh_shared (race_service\<lparr>svc_state := StateReady, svc_ctx := Some CtxActive,
     startDone := ChanClosed, startedFully := True, started := 1\<rparr>))\<lparr>acquired := 1\<rparr>"

definition race_task :: shared where
  "race_task = with_svc ((svc race_ready)\<lparr>taskCount := 1\<rparr>) race_ready"

definition race_stopping :: shared where
  "race_stopping = with_svc (fst (shutdown_enter 0 (svc race_ready))) race_ready"

definition race_stopped :: shared where
  "race_stopped = with_svc (stop_finish 0 [] (svc race_stopping))
     (race_stopping\<lparr>calls := [CallStop 0]\<rparr>)"

lemmas race_defs = race_config_def race_service_def race_ready_def race_task_def race_stopping_def race_stopped_def
  fresh_shared_def zero_service_def with_svc_def

lemma race_names: "validRuntimeIdentity ''db''" "validRuntimeIdentity ''job''"
  by (simp_all add: validRuntimeIdentity_def trim_space_plain printable_def lifecycle_constants)

lemma race_new: "New 0 race_config = Inr race_service"
  by (simp add: race_config_def race_service_def New_def lifecycle_constants race_names)

lemma reach_thread:
  assumes "lifecycle_reachable (g, M)" "thread_step g p g' p' new" "M = add_mset p P"
    "M' = add_mset p' (new + P)"
  shows "lifecycle_reachable (g', M')"
  using reachable_step[OF assms(1)[unfolded assms(3)] sys_step.thread[OF assms(2)]] by (simp add: assms(4))

lemma race_ready_reachable:
  "lifecycle_reachable (race_ready, {#ShutdownLock 0, StartReturned NilErr#})"
proof -
  let ?g0 = "fresh_shared race_service"
  let ?g1 = "with_svc (race_service\<lparr>svc_state := StateStarting, svc_ctx := Some CtxActive, startDone := ChanOpen\<rparr>) ?g0"
  have r0: "lifecycle_reachable (?g0, {#})"
    by (rule reachable_init) (use race_new in \<open>auto simp: sys_init_def\<close>)
  have r1: "lifecycle_reachable (?g0, {#StartEnter (Some CtxActive), ShutdownRead (Some 0)#})"
    using reachable_step[OF reachable_step[OF r0 sys_step.call[of "ShutdownRead (Some 0)"]]
        sys_step.call[of "StartEnter (Some CtxActive)"]] by simp
  have r2: "lifecycle_reachable (?g1, {#StartLoop 0, ShutdownRead (Some 0)#})"
    by (rule reach_thread[OF r1 thread_step.start_accepted[of 0 CtxActive]])
      (auto simp: start_enter_def race_defs)
  have r3: "lifecycle_reachable (?g1, {#ShutdownLock 0, StartLoop 0#})"
    by (rule reach_thread[OF r2 thread_step.shutdown_direct[of _ 0]]) (auto simp: accepting_def)
  have r4: "lifecycle_reachable (acquire 0 ?g1, {#StartLoop 1, ShutdownLock 0#})"
    by (rule reach_thread[OF r3 thread_step.start_no_hook[of 0]])
      (auto simp: n_comps_def comp_at_def race_defs start_next_def)
  have "start_finish (startupCtx (acquire 0 ?g1)) (svc (acquire 0 ?g1)) = Inr (svc race_ready)"
    by (simp add: start_finish_def acquire_def start_acquired_def race_defs)
  from thread_step.start_ready[OF this]
  have "thread_step (acquire 0 ?g1) (StartLoop 1) race_ready (StartReturned NilErr) {#}"
    by (simp add: n_comps_def acquire_def start_acquired_def race_defs)
  from reach_thread[OF r4 this, of "{#ShutdownLock 0#}" "{#ShutdownLock 0, StartReturned NilErr#}"]
  show ?thesis by (simp add: add_mset_commute)
qed

lemma race_task_reachable:
  "lifecycle_reachable (race_task, {#TaskRunning ''job'', ShutdownLock 0, StartReturned NilErr#})"
proof -
  have "go_admit 0 ''job'' True (svc race_ready) = (svc race_task, NilErr)"
    by (simp add: go_admit_def race_defs Context_def race_names)
  from sys_step.go[OF this, of "{#ShutdownLock 0, StartReturned NilErr#}"]
  have "sys_step (race_ready, {#ShutdownLock 0, StartReturned NilErr#})
      (race_task, {#TaskRunning ''job'', ShutdownLock 0, StartReturned NilErr#})"
    by (simp add: race_task_def)
  with race_ready_reachable show ?thesis by (rule reachable_step)
qed

lemma race_stopping_reachable:
  "lifecycle_reachable (race_stopping, {#Stopping 1 [] ''stop'', AwaitDone, StartReturned NilErr#})"
proof -
  have "shutdown_enter 0 (svc race_ready) = (svc race_stopping, ShutdownStart True)"
    by (simp add: shutdown_enter_def race_defs cancel_service_def)
  from thread_step.shutdown_locked[OF this]
  have "thread_step race_ready (ShutdownLock 0) race_stopping AwaitDone {#Stopping 1 [] ''stop''#}"
    by (simp add: spawn_stop_def race_defs shutdown_enter_def cancel_service_def)
  from reach_thread[OF race_ready_reachable this, of "{#StartReturned NilErr#}"
      "{#Stopping 1 [] ''stop'', AwaitDone, StartReturned NilErr#}"]
  show ?thesis by (simp add: add_mset_commute)
qed

lemma race_run:
  "moves\<^sup>*\<^sup>* (race_stopping, {#Stopping 1 [] ''stop'', AwaitDone, StartReturned NilErr#})
     (race_stopped, {#ShutdownReturned NilErr, StopDone, StartReturned NilErr#})"
proof -
  let ?h = "race_stopping\<lparr>calls := [CallStop 0]\<rparr>"
  have "StopHook (comp_at race_stopping 0)" and name: "Name (comp_at race_stopping 0) = ''db''"
    by (simp_all add: comp_at_def race_defs shutdown_enter_def cancel_service_def)
  from thread_step.stop_call[OF this(1), of "[]" "''stop''" 0 0 "Returned NilErr"]
  have "thread_step race_stopping (Stopping 1 [] ''stop'') ?h (Stopping 0 [] ''stop'') {#}"
    by (simp add: stopComponents_body_def append_failure_def race_defs shutdown_enter_def)
  from moves[OF this, of "{#AwaitDone, StartReturned NilErr#}"]
  have 1: "moves (race_stopping, {#Stopping 1 [] ''stop'', AwaitDone, StartReturned NilErr#})
    (?h, {#Stopping 0 [] ''stop'', AwaitDone, StartReturned NilErr#})" by simp
  have "thread_step ?h (Stopping 0 [] ''stop'') race_stopped StopDone {#}"
    using thread_step.stop_done[of ?h "[]" "''stop''" 0] by (simp add: race_stopped_def)
  from moves[OF this, of "{#AwaitDone, StartReturned NilErr#}"]
  have 2: "moves (?h, {#Stopping 0 [] ''stop'', AwaitDone, StartReturned NilErr#})
    (race_stopped, {#AwaitDone, StopDone, StartReturned NilErr#})"
    by (simp add: add_mset_commute)
  have "shutdownDone (svc race_stopped) = ChanClosed" "shutdownErr (svc race_stopped) = NilErr"
    by (simp_all add: race_defs shutdown_enter_def cancel_service_def stop_finish_def finishShutdownLocked_def)
  with thread_step.await_done_done[of race_stopped]
  have "thread_step race_stopped AwaitDone race_stopped (ShutdownReturned NilErr) {#}" by simp
  from moves[OF this, of "{#StopDone, StartReturned NilErr#}"]
  have 3: "moves (race_stopped, {#AwaitDone, StopDone, StartReturned NilErr#})
    (race_stopped, {#ShutdownReturned NilErr, StopDone, StartReturned NilErr#})" by simp
  from 1 2 3 show ?thesis by (meson converse_rtranclp_into_rtranclp rtranclp.rtrancl_refl)
qed

lemma race_stopped_reachable:
  "lifecycle_reachable (race_stopped, {#ShutdownReturned NilErr, StopDone, StartReturned NilErr#})"
  by (rule moves_reachable[OF race_stopping_reachable race_run])

subsection \<open>The work left\<close>

text \<open>
  Every thread step lowers the work left: the loops over components go down or up to a fixed
  bound, and the only thread a step creates is the stop loop, which the creator pays for.
\<close>

fun work :: "nat \<Rightarrow> pc \<Rightarrow> nat" where
  "work N (StartEnter _) = 4 * N + 10"
| "work N (StartLoop i) = 2 * N + 9 + 2 * (N - i)"
| "work N (StartCalling i) = 2 * N + 8 + 2 * (N - i)"
| "work N (FailEnter _ _) = 2 * N + 8"
| "work N (RollbackCancel _ _ _ _) = N + 5"
| "work N (RollbackWaiting _ _ _) = 2"
| "work N (FailClose _ _ _) = 1"
| "work N (DrainEnter _) = 2 * N + 8"
| "work N (CloseEnter n _) = N + n + 7"
| "work N (CloseWaiting _) = N + 6"
| "work N (Closing i _ _) = N + i + 6"
| "work N (CancelRead _ _) = 2 * N + 9"
| "work N (CancelLock _ _) = N + 4"
| "work N (TaskRunning _) = 2 * N + 11"
| "work N (TaskRecording _) = 2 * N + 10"
| "work N TaskRetiring = N + 3"
| "work N (Stopping i _ _) = i + 2"
| "work N (StopSend _) = 1"
| "work N (ShutdownRead _) = 2 * N + 9"
| "work N (ShutdownLock _) = N + 4"
| "work N AwaitStart = 2"
| "work N AwaitDone = 1"
| "work N _ = 0"

definition total_work :: "sys \<Rightarrow> nat" where
  "total_work = (\<lambda>(g, P). \<Sum>p\<in>#P. work (n_comps g) p)"

lemma resume_work: "work N (resume a k fs) < N + 6" "work N (reject_drain k e) < N + 6"
  by (cases k; simp)+

lemma start_next_work: "i < N \<Longrightarrow> work N (start_next i g) < 2 * N + 8 + 2 * (N - i)"
  by (auto simp: start_next_def)

lemma spawn_work [simp]: "(\<Sum>p\<in>#spawn_stop b n. work N p) = (if b then n + 2 else 0)"
  by (simp add: spawn_stop_def)

lemma shutdown_next_work: "work N (shutdown_next b) \<le> (if b = ShutdownStart True then 1 else 2)"
  by (cases b) auto

lemma started_bound: "counts_ok g \<Longrightarrow> started (svc g) \<le> n_comps g"
  by (simp add: counts_ok_def Let_def)

lemma thread_work:
  assumes "thread_step g p g' p' new" and "thread_ok g p" and "counts_ok g"
  shows "work (n_comps g) p' + (\<Sum>q\<in>#new. work (n_comps g) q) < work (n_comps g) p"
  using assms
proof (induction rule: thread_step.induct)
  case (start_no_hook i g)
  then show ?case using start_next_work[of i "n_comps g" g] by simp
next
  case (start_call_done a g i out)
  then show ?case using start_next_work[of i "n_comps g" g] by simp
next
  case (fail_enter g name cause)
  then show ?case using started_bound[of g] by simp
next
  case (rollback_cancel g name cause n failures)
  then show ?case by (simp add: counts_ok_def Let_def)
next
  case (drain_accepted a g s k)
  then show ?case using started_bound[of g] by (auto dest!: drain_enter_fields)
next
  case (drain_rejected a g err k)
  then show ?case using resume_work(2)[of "n_comps g" k err] by (simp del: reject_drain.simps)
next
  case (close_done g failures k a)
  then show ?case using resume_work(1)[of "n_comps g" a k failures] by simp
next
  case (close_shared g k a)
  then show ?case using resume_work(1)[of "n_comps g" a k "drainErrors (svc g)"] by simp
next
  case (task_retired g s startStops)
  then have "started s = started (svc g)" by (auto simp: task_retire_def Let_def split: if_splits)
  then show ?case using started_bound[OF task_retired(3)] by simp
next
  case (shutdown_locked k g s branch)
  then show ?case
    using started_bound[OF shutdown_locked(3)] shutdown_next_work[of "n_comps g" branch]
    by (auto simp: shutdown_enter_fields[OF shutdown_locked(1)] split: if_splits)
qed auto

lemma thread_comps:
  assumes "thread_step g p g' p' new"
  shows "n_comps g' = n_comps g"
  using assms
proof (induction rule: thread_step.induct)
  case (shutdown_locked k g s branch)
  then show ?case by (simp add: n_comps_def shutdown_enter_fields)
qed (auto dest!: start_enter_fields start_finish_fields drain_enter_fields simp: n_comps_def acquire_def
      start_acquired_def rollback_enter_def fail_startup_close_def close_enter_def close_finish_def
      task_record_def task_retire_def stop_finish_def finishShutdownLocked_def Let_def split: if_splits)

lemma moves_work:
  assumes "inv_order x" and "moves x y"
  shows "total_work y < total_work x"
  using assms(2,1)
proof (induction rule: moves.induct)
  case (moves g p g' p' new P)
  note inv = inv_orderD[OF moves.prems]
  have "counts_ok g" using inv(3) by (simp add: shared_ok_def)
  from thread_work[OF moves.hyps inv(4) this] show ?case
    by (simp add: total_work_def thread_comps[OF moves.hyps])
qed

lemma moves_bound:
  assumes "(moves ^^ n) x y" and "inv_order x"
  shows "n + total_work y \<le> total_work x"
  using assms
proof (induction n arbitrary: y)
  case (Suc n)
  then obtain z where z: "(moves ^^ n) x z" "moves z y" by auto
  have "inv_order z"
    using lifecycle.reachable_steps_inv[OF Suc.prems(2)] z(1)
    by (metis moves_step mono_rtranclp relpowp_imp_rtranclp)
  from moves_work[OF this z(2)] Suc.IH[OF z(1) Suc.prems(2)] show ?case by simp
qed simp

subsection \<open>Cleanup is never stuck\<close>

definition can_step :: "shared \<Rightarrow> pc \<Rightarrow> bool" where
  "can_step g p \<longleftrightarrow> (\<exists>g' p' new. thread_step g p g' p' new)"

lemma can_stepI: "thread_step g p g' p' new \<Longrightarrow> can_step g p"
  by (auto simp: can_step_def)

lemma can_step_moves: "can_step g p \<Longrightarrow> p \<in># P \<Longrightarrow> \<exists>y. moves (g, P) y"
  by (metis can_step_def insert_DiffM moves.intros)

lemma closing_steps: "closing p \<Longrightarrow> can_step g p"
proof (induction p rule: closing.induct)
  case (1 i failures k)
  then show ?case
    by (cases i; cases "CloseAdmission (comp_at g (i - 1))")
      (auto intro!: can_stepI intro: close_skip close_call close_done)
qed auto

lemma stopping_steps: "can_step g (Stopping i errs operation)"
  by (cases i; cases "StopHook (comp_at g (i - 1))")
    (auto intro!: can_stepI intro: stop_skip stop_call stop_done)

lemma worker_steps:
  assumes "owes_stop p \<or> live_task p" and "\<And>k. p \<noteq> CloseWaiting k"
  shows "can_step g p"
proof (cases p)
  case (Stopping i errs operation)
  then show ?thesis by (simp add: stopping_steps)
next
  case (Closing i failures k)
  then show ?thesis by (simp add: closing_steps)
next
  case (DrainEnter k)
  then show ?thesis
    by (cases "drain_enter undefined (svc g)") (auto intro: can_stepI drain_rejected drain_accepted)
next
  case (CloseEnter n k)
  then show ?thesis by (cases "drainStarted (svc g)") (auto intro: can_stepI close_wait close_begin)
next
  case (TaskRunning name)
  then show ?thesis
    by (cases "task_failed (svc g) (invoke undefined name ''run'' (Returned NilErr))")
      (auto intro: can_stepI task_ok task_bad)
next
  case (CancelRead cause t)
  then show ?thesis by (cases "accepting (svc g)") (auto intro: can_stepI cancel_drains cancel_direct)
next
  case TaskRetiring
  then show ?thesis by (cases "task_retire (svc g)") (auto intro: can_stepI task_retired)
qed (use assms in \<open>auto intro: can_stepI rollback_cancel task_recorded cancel_locked\<close>)

lemma waiting_progress:
  assumes "inv_order (g, P)" and "CloseWaiting k \<in># P"
  shows "\<exists>y. moves (g, P) y"
proof (cases "drainDone (svc g) = ChanClosed")
  case True
  then show ?thesis using assms(2) by (blast intro: can_step_moves can_stepI close_shared)
next
  case False
  have "drainStarted (svc g)" using assms by (auto simp: inv_order_def threads_ok_def)
  with False assms(1) have "cnt closing P \<noteq> 0"
    by (cases "drainDone (svc g)") (auto simp: inv_order_def inv_drain_def Let_def)
  then show ?thesis by (metis size_filter_zero can_step_moves closing_steps)
qed

lemma stopping_progress:
  assumes "inv_order (g, P)" and "svc_state (svc g) = StateStopping"
  shows "\<exists>y. moves (g, P) y"
proof -
  have "cnt owes_stop P \<noteq> 0 \<or> cnt live_task P \<noteq> 0"
    using assms by (auto simp: inv_order_def inv_phase_def phase_ok_def simp del: size_eq_0_iff_empty split: if_splits)
  then obtain p where p: "p \<in># P" "owes_stop p \<or> live_task p"
    by (auto simp: size_filter_zero)
  show ?thesis
    using waiting_progress[OF assms(1)] worker_steps[OF p(2)] can_step_moves[OF _ p(1)] p(1) by metis
qed

lemma step_monotone:
  assumes "inv_order x" and "sys_step x y"
  shows "svc_state (svc (fst x)) \<le> svc_state (svc (fst y))"
  using assms(2,1)
proof (induction rule: sys_step.induct)
  case (thread g p g' p' new P)
  then show ?case using thread_state_mono[of g p g' p' new P] by (simp add: inv_order_def)
next
  case (go a name task_present g s err P)
  then show ?case using go_admit_fields(10)[OF go(1)] by (auto simp: state_order)
qed simp_all

lemma moves_monotone:
  assumes "lifecycle_reachable x" and "moves\<^sup>*\<^sup>* x y"
  shows "svc_state (svc (fst x)) \<le> svc_state (svc (fst y))"
  using assms(2)
proof (induction rule: rtranclp_induct)
  case (step y z)
  have "inv_order y" using lifecycle.reachable_inv moves_reachable assms(1) step(1) by blast
  from step_monotone[OF this moves_step[OF step(2)]] step(3) show ?case by simp
qed simp

lemma run_to_stopped:
  assumes "lifecycle_reachable x" and "StateStopping \<le> svc_state (svc (fst x))"
  shows "\<exists>z. moves\<^sup>*\<^sup>* x z \<and> svc_state (svc (fst z)) = StateStopped"
  using assms
proof (induction "total_work x" arbitrary: x rule: less_induct)
  case less
  note inv = lifecycle.reachable_inv[OF less.prems(1)]
  show ?case
  proof (cases "svc_state (svc (fst x)) = StateStopped")
    case False
    with less.prems(2) have "svc_state (svc (fst x)) = StateStopping"
      by (cases "svc_state (svc (fst x))") (auto simp: state_order)
    then obtain y where y: "moves x y"
      using stopping_progress[of "fst x" "snd x"] inv by auto
    have "lifecycle_reachable y" using less.prems(1) y by (blast intro: reachable_step moves_step)
    moreover have "StateStopping \<le> svc_state (svc (fst y))"
      using step_monotone[OF inv moves_step[OF y]] less.prems(2) by simp
    ultimately obtain z where "moves\<^sup>*\<^sup>* y z" "svc_state (svc (fst z)) = StateStopped"
      using less.hyps[OF moves_work[OF inv y]] by blast
    with y show ?thesis by (meson converse_rtranclp_into_rtranclp)
  qed blast
qed

subsection \<open>The bound on tasks\<close>

definition task_bound :: "sys \<Rightarrow> bool" where
  "task_bound = (\<lambda>(g, P). 0 < maxTasks (svc g) \<and> maxTasks (svc g) \<le> maximumTasks \<and>
     taskCount (svc g) \<le> maxTasks (svc g))"

lemma task_bound_thread:
  assumes "thread_step g p g' p' new" and "task_bound (g, Q)"
  shows "task_bound (g', Q')"
  using assms
proof (induction rule: thread_step.induct)
  case (shutdown_locked k g s branch)
  then show ?case by (simp add: task_bound_def shutdown_enter_fields)
qed (auto dest!: start_enter_fields start_finish_fields drain_enter_fields simp: task_bound_def acquire_def
      start_acquired_def rollback_enter_def fail_startup_close_def close_enter_def close_finish_def
      task_record_def task_retire_def stop_finish_def finishShutdownLocked_def Let_def split: if_splits)

lemma task_bound_go:
  assumes "go_admit a n b (svc g) = (s, e)" and "task_bound (g, Q)"
  shows "task_bound (with_svc s g, Q')"
  using assms by (auto simp: go_admit_def task_bound_def Let_def split: if_splits)

interpretation tasks: safe_system sys_init sys_step task_bound
proof
  fix x y
  show "sys_init x \<Longrightarrow> task_bound x"
    by (auto simp: sys_init_def fresh_shared_def zero_service_def New_def task_bound_def lifecycle_constants
        split: if_splits go_error.splits)
  assume "task_bound x" "sys_step x y"
  then show "task_bound y"
    by (auto elim!: sys_step.cases intro: task_bound_thread task_bound_go) (auto simp: task_bound_def)
qed

subsection \<open>The result of a shutdown\<close>

text \<open>Recorded failures are never forgotten, and after the service stopped the result is fixed.\<close>

definition keeps_failures :: "service \<Rightarrow> service \<Rightarrow> bool" where
  "keeps_failures s t \<longleftrightarrow> prefix (drainErrors s) (drainErrors t) \<and> prefix (taskErrors s) (taskErrors t) \<and>
     prefix (stopErrors s) (stopErrors t)"

definition keeps_result :: "service \<Rightarrow> service \<Rightarrow> bool" where
  "keeps_result s t \<longleftrightarrow> keeps_failures s t \<and> taskErrors t = taskErrors s \<and> stopErrors t = stopErrors s \<and>
     shutdownErr t = shutdownErr s \<and> (svc_ctx t = None \<longleftrightarrow> svc_ctx s = None)"

lemma keeps_result_trans: "keeps_result s t \<Longrightarrow> keeps_result t u \<Longrightarrow> keeps_result s u"
  by (auto simp: keeps_result_def keeps_failures_def)

lemma thread_keeps_failures:
  assumes "thread_step g p g' p' new"
  shows "keeps_failures (svc g) (svc g')"
  using assms
proof (induction rule: thread_step.induct)
  case (shutdown_locked k g s branch)
  then show ?case by (simp add: keeps_failures_def shutdown_enter_fields)
qed (auto dest!: start_enter_fields start_finish_fields drain_enter_fields simp: keeps_failures_def
      rollback_enter_def fail_startup_close_def close_enter_def close_finish_def
      task_record_def task_retire_def stop_finish_def finishShutdownLocked_def Let_def split: if_splits)

lemma go_keeps:
  "go_admit a n b s = (t, e) \<Longrightarrow> keeps_result s t \<and> stopsDone t = stopsDone s \<and>
     (svc_state t = StateStopped \<longleftrightarrow> svc_state s = StateStopped)"
  by (auto simp: go_admit_def keeps_result_def keeps_failures_def Let_def split: if_splits)

lemma step_keeps_failures: "sys_step x y \<Longrightarrow> keeps_failures (svc (fst x)) (svc (fst y))"
proof (induction rule: sys_step.induct)
  case (thread g p g' p' new P)
  then show ?case using thread_keeps_failures by simp
next
  case (go a name task_present g s err P)
  then show ?case using go_keeps by (simp add: keeps_result_def)
qed (simp_all add: keeps_failures_def)

lemma thread_keeps_result:
  assumes "thread_step g p g' p' new" and "inv_phase (g, add_mset p P)" and "svc_state (svc g) = StateStopped"
  shows "keeps_result (svc g) (svc g')"
  using assms
proof (induction rule: thread_step.induct)
  case (shutdown_locked k g s branch)
  then show ?case by (simp add: keeps_result_def keeps_failures_def shutdown_enter_fields)
next
  case (task_recorded g err)
  then show ?case using live_not_new by fastforce
next
  case (stop_done g errs operation a)
  then show ?case using owing_phase(1) by fastforce
qed (auto dest!: start_enter_fields start_finish_fields drain_enter_fields simp: keeps_result_def keeps_failures_def
      rollback_enter_def fail_startup_close_def close_enter_def close_finish_def
      task_retire_def Let_def split: if_splits)

lemma step_keeps_result:
  assumes "sys_step x y" and "inv_order x" and "svc_state (svc (fst x)) = StateStopped"
  shows "keeps_result (svc (fst x)) (svc (fst y))"
  using assms
proof (induction rule: sys_step.induct)
  case (thread g p g' p' new P)
  then show ?case using thread_keeps_result[of g p g' p' new P] by (simp add: inv_order_def)
next
  case (go a name task_present g s err P)
  then show ?case using go_keeps by simp
qed (simp_all add: keeps_result_def keeps_failures_def)

text \<open>Only the end of the component stops records their failures.\<close>

definition stops_unrecorded :: "sys \<Rightarrow> bool" where
  "stops_unrecorded = (\<lambda>(g, P). \<not> stopsDone (svc g) \<longrightarrow> stopErrors (svc g) = [])"

lemma unrecorded_thread:
  assumes "thread_step g p g' p' new" and "inv_phase (g, add_mset p P)" and "stops_unrecorded (g, Q)"
  shows "stops_unrecorded (g', Q')"
  using assms
proof (induction rule: thread_step.induct)
  case (shutdown_locked k g s branch)
  then have "\<not> stopsDone (svc g)" if "accepting (svc g)"
    using that by (cases "svc_state (svc g)") (auto simp: inv_phase_def phase_ok_def accepting_def)
  with shutdown_locked show ?case by (auto simp: stops_unrecorded_def shutdown_enter_fields)
next
  case (fail_enter g name cause)
  then show ?case using starting_phase[OF fail_enter(1)]
    by (simp add: stops_unrecorded_def rollback_enter_def inv_phase_def phase_ok_def)
qed (auto dest!: start_enter_fields start_finish_fields drain_enter_fields simp: stops_unrecorded_def
      fail_startup_close_def close_enter_def close_finish_def
      task_record_def task_retire_def stop_finish_def finishShutdownLocked_def Let_def split: if_splits)

interpretation unrecorded: safe_system sys_init sys_step "\<lambda>x. inv_order x \<and> stops_unrecorded x"
proof
  fix x y
  show "sys_init x \<Longrightarrow> inv_order x \<and> stops_unrecorded x"
    using lifecycle.inv_init by (auto simp: sys_init_def fresh_shared_def zero_service_def New_def stops_unrecorded_def
        split: if_splits go_error.splits)
  assume inv: "inv_order x \<and> stops_unrecorded x" and step: "sys_step x y"
  from step inv have "stops_unrecorded y"
  proof (induction rule: sys_step.induct)
    case (thread g p g' p' new P)
    then show ?case using unrecorded_thread[of g p g' p' new P] by (auto simp: inv_order_def)
  next
    case (go a name task_present g s err P)
    then show ?case using go_keeps[OF go(1)] by (auto simp: stops_unrecorded_def keeps_result_def)
  qed (auto simp: stops_unrecorded_def)
  with inv step show "inv_order y \<and> stops_unrecorded y" using lifecycle.inv_step by blast
qed

text \<open>How a service becomes stopped: unstarted, or when its one stopper is done.\<close>

lemma thread_stops:
  assumes "thread_step g p g' p' new" and "svc_state (svc g) \<noteq> StateStopped" "svc_state (svc g') = StateStopped"
    and "inv_order (g, add_mset p P)" "stops_unrecorded (g, add_mset p P)"
  shows "(svc_ctx (svc g') = None \<and> shutdownErr (svc g') = NilErr) \<or>
    (\<exists>a errs operation. p = Stopping 0 errs operation \<and> svc_state (svc g) = StateStopping \<and> stopErrors (svc g') = errs \<and>
       shutdownErr (svc g') = shutdown_result a (drainErrors (svc g) @ errs @ taskErrors (svc g)) \<and>
       drainErrors (svc g') = drainErrors (svc g) \<and> taskErrors (svc g') = taskErrors (svc g))"
  using assms
proof (induction rule: thread_step.induct)
  case (shutdown_locked k g s branch)
  then have "svc_state (svc g) = StateNew"
    by (cases "svc_state (svc g)") (auto simp: shutdown_enter_def Let_def)
  with shutdown_locked show ?case
    by (auto simp: shutdown_enter_fields inv_order_def inv_phase_def phase_ok_def shared_ok_def result_ok_def)
next
  case (stop_done g errs operation a)
  then have ph: "inv_phase (g, add_mset (Stopping 0 errs operation) P)" by (simp add: inv_order_def)
  then have "stopErrors (svc g) = []" using owing_phase(2)[OF ph] stop_done(4) by (simp add: stops_unrecorded_def)
  then show ?case using owing_phase(1)[OF ph]
    by (auto simp: stop_finish_state[OF ph] finishShutdownLocked_def shutdown_result_def Let_def)
qed (auto dest!: start_enter_fields start_finish_fields drain_enter_fields simp:
      rollback_enter_def fail_startup_close_def close_enter_def close_finish_def
      task_record_def task_retire_def Let_def split: if_splits)

definition stopped_by :: "sys \<Rightarrow> sys \<Rightarrow> bool" where
  "stopped_by y z \<longleftrightarrow> (\<exists>x Q errs operation a. lifecycle_reachable (x, add_mset (Stopping 0 errs operation) Q) \<and>
     svc_state (svc x) = StateStopping \<and> sys_step (x, add_mset (Stopping 0 errs operation) Q) y \<and>
     svc_state (svc (fst y)) = StateStopped \<and> sys_step\<^sup>*\<^sup>* y z \<and>
     shutdownErr (svc (fst z)) = shutdown_result a (drainErrors (svc x) @ errs @ taskErrors (svc x)) \<and>
     prefix (drainErrors (svc x)) (drainErrors (svc (fst z))) \<and> stopErrors (svc (fst z)) = errs \<and>
     taskErrors (svc (fst z)) = taskErrors (svc x))"

lemma stopped_by_step:
  assumes "stopped_by y x" and "sys_step x z" and kept: "keeps_result (svc (fst x)) (svc (fst z))"
  shows "stopped_by y z"
proof -
  have "prefix d (drainErrors (svc (fst z)))" if "prefix d (drainErrors (svc (fst x)))" for d
    using kept that unfolding keeps_result_def keeps_failures_def by (blast intro: prefix_order.trans)
  moreover have "sys_step\<^sup>*\<^sup>* y z" if "sys_step\<^sup>*\<^sup>* y x" using that assms(2) by (rule rtranclp.rtrancl_into_rtrancl)
  ultimately show ?thesis using assms(1) kept unfolding stopped_by_def keeps_result_def by fastforce
qed

lemma stop_moment:
  assumes "lifecycle_reachable z" and "svc_state (svc (fst z)) = StateStopped"
  shows "svc_ctx (svc (fst z)) = None \<and> shutdownErr (svc (fst z)) = NilErr \<or> (\<exists>y. stopped_by y z)"
  using assms
proof (induction rule: reachable.induct)
  case (reachable_init x)
  then show ?case by (auto simp: sys_init_def fresh_shared_def zero_service_def New_def
        split: if_splits go_error.splits)
next
  case (reachable_step x z)
  note inv = unrecorded.reachable_inv[OF reachable_step(1)]
  show ?case
  proof (cases "svc_state (svc (fst x)) = StateStopped")
    case True
    then have "keeps_result (svc (fst x)) (svc (fst z))" using step_keeps_result reachable_step(2) inv by blast
    with reachable_step.IH[OF True] stopped_by_step[OF _ reachable_step(2)] show ?thesis
      unfolding keeps_result_def by metis
  next
    case False
    from reachable_step(2) False reachable_step.prems reachable_step(1) inv show ?thesis
    proof (induction rule: sys_step.induct)
      case (thread g p g' p' new P)
      have "inv_order (g, add_mset p P)" "stops_unrecorded (g, add_mset p P)" using thread.prems(4) by blast+
      with thread_stops[OF thread.hyps(1), of P] thread.prems(1,2) show ?case
        using sys_step.thread[OF thread.hyps(1)] thread.prems(3) unfolding stopped_by_def by fastforce
    next
      case (go a name task_present g s err P)
      then show ?case using go_keeps[OF go.hyps(1)] by simp
    qed simp_all
  qed
qed

subsection \<open>Properties\<close>

lemma stops_prefix:
  assumes "inv_order (g, P)"
  shows "prefix (stop_calls (calls g)) (hooks StopHook g (rev [0..<acquired g]))"
proof (cases "stopsDone (svc g) \<or> cnt stopping_thread P = 0")
  case True
  with assms show ?thesis by (auto simp: inv_order_def shared_ok_def stops_ok_def visited_def split: if_splits)
next
  case False
  then obtain i errs op where "Stopping i errs op \<in># P"
    by (metis size_filter_zero stopping_thread.elims(2))
  with assms have "i \<le> acquired g" "stop_calls (calls g) = hooks StopHook g (visited i (acquired g))"
    by (auto simp: inv_order_def threads_ok_def)
  moreover from this(1) have "rev [0..<acquired g] = visited i (acquired g) @ rev [0..<i]"
    by (metis le0 le_add_diff_inverse rev_append upt_add_eq_append visited_def)
  ultimately show ?thesis by simp
qed

lemma closes_prefix:
  assumes "inv_order (g, P)"
  shows "prefix (close_calls (calls g)) (hooks CloseAdmission g (rev [0..<acquired g]))"
proof (cases "drainDone (svc g) = ChanOpen")
  case False
  with assms show ?thesis
    by (cases "drainDone (svc g)")
      (auto simp: inv_order_def shared_ok_def closes_ok_def inv_drain_def Let_def visited_def)
next
  case True
  with assms obtain i fs k where "Closing i fs k \<in># P"
    by (auto simp: inv_order_def inv_drain_def Let_def)
      (metis One_nat_def closing.elims(2) size_filter_zero zero_neq_one)
  with assms have "i \<le> acquired g" "close_calls (calls g) = hooks CloseAdmission g (visited i (acquired g))"
    by (auto simp: inv_order_def threads_ok_def)
  moreover from this(1) have "rev [0..<acquired g] = visited i (acquired g) @ rev [0..<i]"
    by (metis le0 le_add_diff_inverse rev_append upt_add_eq_append visited_def)
  ultimately show ?thesis by simp
qed

lemma stopped_quiet:
  assumes "inv_order (g, P)" and "svc_state (svc g) = StateStopped"
  shows "stop_calls (calls g) = hooks StopHook g (rev [0..<acquired g])"
    "\<forall>p\<in>#P. \<not> live_task p \<and> \<not> owes_stop p"
proof -
  have quiet: "cnt live_task P = 0" "cnt owes_stop P = 0"
    using assms by (simp_all add: inv_order_def inv_phase_def phase_ok_def)
  then show "\<forall>p\<in>#P. \<not> live_task p \<and> \<not> owes_stop p"
    by (simp add: size_filter_zero)
  show "stop_calls (calls g) = hooks StopHook g (rev [0..<acquired g])"
  proof (cases "stopsDone (svc g)")
    case True
    with assms show ?thesis by (simp add: inv_order_def shared_ok_def stops_ok_def visited_def)
  next
    case False
    with assms have "acquired g = 0"
      by (auto simp: inv_order_def inv_phase_def phase_ok_def shared_ok_def counts_ok_def Let_def)
    with False assms(1) stopping_owes[OF quiet(2)] show ?thesis
      by (simp add: inv_order_def shared_ok_def stops_ok_def)
  qed
qed

lemma race_facts:
  "svc_state (svc race_stopped) = StateStopped" "calls race_stopped = [CallStop 0]" "acquired race_stopped = 1"
  "svc_state (svc race_stopping) = StateStopping" "CloseAdmission (comp_at race_stopped 0)"
  "StopHook (comp_at race_stopped 0)" "n_comps race_stopping = 1" "svc_state (svc race_ready) = StateReady"
  "n_comps race_ready = 1" "svc_state (svc race_task) = StateReady" "taskCount (svc race_task) = 1"
  by (simp_all add: race_defs comp_at_def n_comps_def shutdown_enter_def cancel_service_def
      stop_finish_def finishShutdownLocked_def)

text \<open>C1. Cleanup stops exactly the components whose startup succeeded, each once, in reverse order
  of startup: at every moment the Stop callbacks made are an initial part of that sequence, and in
  a stopped service they are all of it, with no task and no cleanup goroutine left running.\<close>

theorem cleanup_reverse_once:
  assumes "lifecycle_reachable (g, P)"
  shows "prefix (stop_calls (calls g)) (hooks StopHook g (rev [0..<acquired g])) \<and>
    (svc_state (svc g) = StateStopped \<longrightarrow>
      stop_calls (calls g) = hooks StopHook g (rev [0..<acquired g]) \<and>
      (\<forall>p\<in>#P. \<not> live_task p \<and> \<not> owes_stop p))"
  using lifecycle.reachable_inv[OF assms] stops_prefix stopped_quiet by blast

theorem cleanup_reverse_once_witness:
  "lifecycle_reachable (race_stopped, {#ShutdownReturned NilErr, StopDone, StartReturned NilErr#}) \<and>
   svc_state (svc race_stopped) = StateStopped \<and>
   stop_calls (calls race_stopped) = hooks StopHook race_stopped (rev [0..<acquired race_stopped])"
  using cleanup_reverse_once[OF race_stopped_reachable] race_stopped_reachable race_facts(1) by simp

text \<open>C4. Every supervised task has returned before the first component is stopped, and at most one
  goroutine stops components: while it runs the service is stopping and no task is live.\<close>

theorem tasks_joined_before_stop:
  assumes "lifecycle_reachable (g, P)" and "Stopping i errs operation \<in># P"
  shows "svc_state (svc g) = StateStopping \<and> taskCount (svc g) = 0 \<and> (\<forall>p\<in>#P. \<not> live_task p) \<and>
    cnt stopping_thread P = 1"
proof -
  obtain Q where P: "P = add_mset (Stopping i errs operation) Q"
    using assms(2) by (metis insert_DiffM)
  then have ph: "inv_phase (g, add_mset (Stopping i errs operation) Q)"
    using lifecycle.reachable_inv[OF assms(1)] by (simp add: inv_order_def)
  then have "cnt owes_stop Q = 0" by (auto simp: inv_phase_def dest: phase_owes)
  moreover have "cnt live_task P = 0"
    using ph owing_phase(3)[OF ph] by (simp add: P inv_phase_def phase_ok_def)
  ultimately show ?thesis
    using owing_phase[OF ph] stopping_owes[of Q] by (simp add: P size_filter_zero)
qed

theorem tasks_joined_before_stop_witness:
  "svc_state (svc race_stopping) = StateStopping \<and> taskCount (svc race_stopping) = 0"
  using tasks_joined_before_stop[OF race_stopping_reachable, of 1 "[]" "''stop''"] by simp

text \<open>C5. A call of Shutdown that returns without timing out returns after the service stopped, and
  returns the retained result. Either the service was never started and the result is nil, or
  the service became stopped in one step, that of its stopper finishing with the failures it
  collected, and the result is nil when nothing had failed by that step and otherwise one
  \<^verbatim>\<open>ShutdownError\<close> with exactly the admission-closure failures recorded by that step, then the failures the
  stopper collected, then the failures of tasks, in that order; only admission-closure failures can still be
  recorded later. Finished admission closures and failed tasks record their failures, and no step of anybody forgets one.\<close>

theorem shutdown_returns_result:
  assumes "lifecycle_reachable (g, P)" and "ShutdownReturned err \<in># P"
  shows "svc_state (svc g) = StateStopped \<and>
    (svc_ctx (svc g) = None \<and> err = NilErr \<or>
     (\<exists>x Q errs operation y a. lifecycle_reachable (x, add_mset (Stopping 0 errs operation) Q) \<and>
        svc_state (svc x) = StateStopping \<and> sys_step (x, add_mset (Stopping 0 errs operation) Q) y \<and>
        svc_state (svc (fst y)) = StateStopped \<and> sys_step\<^sup>*\<^sup>* y (g, P) \<and>
        err = (if drainErrors (svc x) @ errs @ taskErrors (svc x) = [] then NilErr
               else ShutdownError a (drainErrors (svc x) @ errs @ taskErrors (svc x))) \<and>
        prefix (drainErrors (svc x)) (drainErrors (svc g)) \<and> stopErrors (svc g) = errs \<and>
        taskErrors (svc g) = taskErrors (svc x))) \<and>
    (\<forall>u failures k v p new. thread_step u (Closing 0 failures k) v p new \<longrightarrow>
        drainErrors (svc v) = drainErrors (svc u) @ failures) \<and>
    (\<forall>u failure v p new. thread_step u (TaskRecording failure) v p new \<longrightarrow>
        taskErrors (svc v) = taskErrors (svc u) @ [failure]) \<and>
    (\<forall>u v. sys_step u v \<longrightarrow> prefix (drainErrors (svc (fst u))) (drainErrors (svc (fst v))) \<and>
        prefix (taskErrors (svc (fst u))) (taskErrors (svc (fst v))) \<and>
        prefix (stopErrors (svc (fst u))) (stopErrors (svc (fst v))))"
proof -
  note inv = lifecycle.reachable_inv[OF assms(1)]
  with assms(2) have stopped: "svc_state (svc g) = StateStopped" and err: "err = shutdownErr (svc g)"
    by (auto simp: inv_order_def threads_ok_def)
  have result_value: "shutdown_result a f = (if f = [] then NilErr else ShutdownError a f)" for a f
    by (simp add: shutdown_result_def)
  have c1: "svc_ctx (svc g) = None \<and> err = NilErr \<or>
     (\<exists>x Q errs operation y a. lifecycle_reachable (x, add_mset (Stopping 0 errs operation) Q) \<and>
        svc_state (svc x) = StateStopping \<and> sys_step (x, add_mset (Stopping 0 errs operation) Q) y \<and>
        svc_state (svc (fst y)) = StateStopped \<and> sys_step\<^sup>*\<^sup>* y (g, P) \<and>
        err = (if drainErrors (svc x) @ errs @ taskErrors (svc x) = [] then NilErr
               else ShutdownError a (drainErrors (svc x) @ errs @ taskErrors (svc x))) \<and>
        prefix (drainErrors (svc x)) (drainErrors (svc g)) \<and> stopErrors (svc g) = errs \<and>
        taskErrors (svc g) = taskErrors (svc x))"
    using stop_moment[OF assms(1)] stopped unfolding err stopped_by_def result_value fst_conv by blast
  have c2: "drainErrors (svc v) = drainErrors (svc u) @ failures"
    if closed: "thread_step u (Closing 0 failures k) v p new" for u failures k v p new
    using closed by (auto elim: thread_step.cases simp: close_finish_def)
  have c3: "taskErrors (svc v) = taskErrors (svc u) @ [failure]"
    if recorded: "thread_step u (TaskRecording failure) v p new" for u failure v p new
    using recorded by (auto elim: thread_step.cases simp: task_record_def)
  show ?thesis using stopped c1 c2 c3 step_keeps_failures unfolding keeps_failures_def by blast
qed

theorem shutdown_returns_result_witness:
  "svc_state (svc race_stopped) = StateStopped \<and>
    (\<exists>x Q errs operation y. lifecycle_reachable (x, add_mset (Stopping 0 errs operation) Q) \<and>
       sys_step (x, add_mset (Stopping 0 errs operation) Q) y \<and>
       sys_step\<^sup>*\<^sup>* y (race_stopped, {#ShutdownReturned NilErr, StopDone, StartReturned NilErr#}) \<and>
       drainErrors (svc x) @ errs @ taskErrors (svc x) = [])"
proof -
  have "svc_ctx (svc race_stopped) \<noteq> None" by (simp add: race_defs shutdown_enter_def cancel_service_def
        stop_finish_def finishShutdownLocked_def)
  then show ?thesis
    using shutdown_returns_result[OF race_stopped_reachable, of NilErr] by (fastforce split: if_splits)
qed

text \<open>C2. Cleanup always finishes: once a service is stopping, however its threads are scheduled and
  whatever its callbacks return, a state in which no thread can move is a stopped one.\<close>

theorem cleanup_finishes:
  assumes "lifecycle_reachable x" and "svc_state (svc (fst x)) = StateStopping"
    and "moves\<^sup>*\<^sup>* x y" and "\<nexists>z. moves y z"
  shows "svc_state (svc (fst y)) = StateStopped"
proof -
  have inv: "inv_order y"
    using lifecycle.reachable_inv moves_reachable assms(1,3) by blast
  have "StateStopping \<le> svc_state (svc (fst y))"
    using moves_monotone[OF assms(1,3)] assms(2) by simp
  moreover have "svc_state (svc (fst y)) \<noteq> StateStopping"
    using stopping_progress inv assms(4) by (metis prod.collapse)
  ultimately show ?thesis by (cases "svc_state (svc (fst y))") (auto simp: state_order)
qed

theorem cleanup_finishes_witness:
  "svc_state (svc (fst (race_stopped, {#ShutdownReturned NilErr, StopDone, StartReturned NilErr#}))) = StateStopped"
  by (rule cleanup_finishes[OF race_stopping_reachable _ race_run])
    (use race_facts(4) finished_stuck in auto)

text \<open>C3. Every run of threads without calls from outside is finite, with an explicit bound: no more
  steps than the work of the threads running now, and a stopping service can run to stopped.\<close>

theorem runs_bounded:
  assumes "lifecycle_reachable x"
  shows "((moves ^^ n) x y \<longrightarrow> n \<le> total_work x) \<and>
    (svc_state (svc (fst x)) = StateStopping \<longrightarrow>
       (\<exists>z. moves\<^sup>*\<^sup>* x z \<and> svc_state (svc (fst z)) = StateStopped))"
proof -
  have "\<exists>z. moves\<^sup>*\<^sup>* x z \<and> svc_state (svc (fst z)) = StateStopped"
    if "svc_state (svc (fst x)) = StateStopping"
    using run_to_stopped[OF assms] that by simp
  moreover have "n \<le> total_work x" if "(moves ^^ n) x y"
    using moves_bound[OF that lifecycle.reachable_inv[OF assms]] by simp
  ultimately show ?thesis by blast
qed

theorem runs_bounded_witness:
  "\<exists>z. moves\<^sup>*\<^sup>* (race_stopping, {#Stopping 1 [] ''stop'', AwaitDone, StartReturned NilErr#}) z \<and>
     svc_state (svc (fst z)) = StateStopped"
  using runs_bounded[OF race_stopping_reachable] race_facts(4) by simp

text \<open>The state of a service only moves forward, in the order of its constants; no step of any
  method, goroutine or of the environment moves it back.\<close>

theorem state_never_regresses:
  assumes "lifecycle_reachable x" and "sys_step\<^sup>*\<^sup>* x y"
  shows "State (svc (fst x)) \<le> State (svc (fst y))"
  using assms(2)
proof (induction rule: rtranclp_induct)
  case (step y z)
  have "inv_order y"
    using lifecycle.reachable_steps_inv lifecycle.reachable_inv assms(1) step(1) by blast
  from step_monotone[OF this step(2)] step(3) show ?case by (simp add: State_def)
qed simp

theorem state_never_regresses_witness:
  "State (svc race_stopping) \<le> State (svc race_stopped)"
  using state_never_regresses[OF race_stopping_reachable moves_steps[OF race_run]] by simp

text \<open>C6. No interleaving closes a channel twice or closes one that was never made: the three
  channels of a service are never closed by a panicking close.\<close>

theorem channels_closed_once:
  assumes "lifecycle_reachable (g, P)"
  shows "startDone (svc g) \<noteq> ChanPanic \<and> shutdownDone (svc g) \<noteq> ChanPanic \<and> drainDone (svc g) \<noteq> ChanPanic"
  using lifecycle.reachable_inv[OF assms]
  by (cases "svc_state (svc g)") (auto simp: inv_order_def inv_phase_def phase_ok_def inv_drain_def Let_def)

theorem channels_closed_once_witness:
  "shutdownDone (svc race_stopped) \<noteq> ChanPanic"
  using channels_closed_once[OF race_stopped_reachable] by simp

text \<open>C7. Admission is closed in reverse order of startup, each component at most once, and completely
  before any waiter is released; components are started in order, and a service that became ready
  acquired all of them.\<close>

theorem admission_and_startup_order:
  assumes "lifecycle_reachable (g, P)"
  shows "prefix (close_calls (calls g)) (hooks CloseAdmission g (rev [0..<acquired g])) \<and>
    (drainDone (svc g) = ChanClosed \<longrightarrow>
       close_calls (calls g) = hooks CloseAdmission g (rev [0..<acquired g])) \<and>
    prefix (hooks StartHook g [0..<acquired g]) (start_calls (calls g)) \<and>
    prefix (start_calls (calls g)) (hooks StartHook g [0..<n_comps g]) \<and>
    (Ready (svc g) \<longrightarrow> acquired g = n_comps g)"
proof -
  note inv = lifecycle.reachable_inv[OF assms]
  then have le: "acquired g \<le> n_comps g" and starts: "starts_ok g" and counts: "counts_ok g"
    and closes: "closes_ok g"
    by (simp_all add: inv_order_def shared_ok_def counts_ok_def Let_def)
  have upto: "prefix (hooks StartHook g [0..<k]) (hooks StartHook g [0..<n_comps g])" if "k \<le> n_comps g" for k
    using that by (metis hooks_simps(2) le0 le_add_diff_inverse prefixI upt_add_eq_append)
  have "prefix (hooks StartHook g [0..<acquired g]) (start_calls (calls g)) \<and>
      prefix (start_calls (calls g)) (hooks StartHook g [0..<n_comps g])"
    using starts upto[OF le] upto[of "Suc (acquired g)"] by (auto simp: starts_ok_def simp del: hooks_simps(3))
  then show ?thesis
    using closes_prefix[OF inv] closes counts
    by (auto simp: closes_ok_def counts_ok_def Let_def visited_def Ready_def accepting_def)
qed

theorem admission_and_startup_order_witness:
  "prefix (close_calls (calls race_ready)) (hooks CloseAdmission race_ready (rev [0..<acquired race_ready])) \<and>
   acquired race_ready = n_comps race_ready"
  using admission_and_startup_order[OF race_ready_reachable]
  by (simp add: Ready_def Context_def race_defs n_comps_def)

text \<open>C8. The task counter always equals the number of live supervised goroutines, and never exceeds
  the configured maximum, which is between 1 and 4096.\<close>

theorem tasks_bounded:
  assumes "lifecycle_reachable (g, P)"
  shows "taskCount (svc g) = int (cnt live_task P) \<and> taskCount (svc g) \<le> maxTasks (svc g) \<and>
    0 < maxTasks (svc g) \<and> maxTasks (svc g) \<le> 4096"
  using lifecycle.reachable_inv[OF assms] tasks.reachable_inv[OF assms]
  by (simp add: inv_order_def inv_phase_def phase_ok_def task_bound_def maximumTasks_def)

theorem tasks_bounded_witness:
  "taskCount (svc race_task) =
     int (cnt live_task {#TaskRunning ''job'', ShutdownLock 0, StartReturned NilErr#}) \<and>
   taskCount (svc race_task) \<le> maxTasks (svc race_task)"
  using tasks_bounded[OF race_task_reachable] by simp

text \<open>There is a schedule of one Start and one Shutdown in which Shutdown reads the state while
  the service is starting, the service becomes ready, and Shutdown then stops every component and
  returns nil although admission was never closed: the decision to drain is made on a state read
  under an earlier acquisition of the mutex.\<close>

theorem shutdown_can_skip_admission:
  "\<exists>g P. lifecycle_reachable (g, P) \<and> ShutdownReturned NilErr \<in># P \<and> StartReturned NilErr \<in># P \<and>
     acquired g = 1 \<and> CloseAdmission (comp_at g 0) \<and> stop_calls (calls g) = [0] \<and> close_calls (calls g) = []"
  using race_stopped_reachable race_facts
  by (intro exI[of _ race_stopped] exI[of _ "{#ShutdownReturned NilErr, StopDone, StartReturned NilErr#}"]) simp

text \<open>A configuration is accepted exactly when its timeouts are not negative, its task bound is at
  most 4096 and its component names are valid runtime identities, all different; the accepted
  service is new, with zero values replaced by the documented defaults.\<close>

theorem New_accepts:
  "(\<exists>s. New a cfg = Inr s) \<longleftrightarrow>
     0 \<le> StartupTimeout cfg \<and> 0 \<le> RollbackTimeout cfg \<and> 0 \<le> MaxTasks cfg \<and> MaxTasks cfg \<le> 4096 \<and>
     (\<forall>c\<in>set (Components cfg). validRuntimeIdentity (Name c)) \<and> distinct (map Name (Components cfg))"
proof -
  have "(\<exists>s. (case e of NilErr \<Rightarrow> Inr v | err \<Rightarrow> Inl err) = Inr s) \<longleftrightarrow> e = NilErr" for e and v :: service
    by (cases e) auto
  then show ?thesis
    using component_names.accepts_iff[of a 0 "[]" "Components cfg"]
    by (simp add: New_def accepted_simps maximumTasks_def not_less)
qed

theorem New_accepts_witness: "\<exists>s. New 0 race_config = Inr s"
  using New_accepts[of 0 race_config] by (simp add: race_config_def race_names)

text \<open>Go admits a task exactly on a ready service whose context is live and whose task count is below
  the bound; a cancelled ready service is moved to draining by the attempt; every rejection is a
  typed error and counts nothing.\<close>

theorem Go_admission:
  assumes "go_admit a name task_present s = (t, err)" and "0 < maxTasks s"
  shows "(err = NilErr \<longleftrightarrow> validRuntimeIdentity name \<and> task_present \<and> Ready s \<and> taskCount s < maxTasks s) \<and>
    (err = NilErr \<longrightarrow> t = s\<lparr>taskCount := taskCount s + 1\<rparr>) \<and>
    (err \<noteq> NilErr \<longrightarrow> taskCount t = taskCount s \<and>
       (classificationIs err (Sentinel ErrInvalidConfig) \<or> classificationIs err (Sentinel ErrInvalidState)))"
proof -
  have config: "classificationIs (ConfigError a f r) (Sentinel ErrInvalidConfig)" for f r
    by (simp add: classificationIs_iff preorder.simps children_def)
  have state: "classificationIs (StateError a f st) (Sentinel ErrInvalidState)" for f st
    by (simp add: classificationIs_iff preorder.simps children_def)
  show ?thesis
    using assms config state by (auto simp: go_admit_def Ready_def Let_def split: if_splits)
qed

theorem Go_admission_witness:
  "snd (go_admit 0 ''job'' True (svc race_ready)) = NilErr"
proof -
  obtain t err where r: "go_admit 0 ''job'' True (svc race_ready) = (t, err)" by fastforce
  have "maxTasks (svc race_ready) = 2" "taskCount (svc race_ready) = 0" "Ready (svc race_ready)"
    by (simp_all add: race_defs Ready_def Context_def)
  with Go_admission[OF r] r race_names(2) show ?thesis by simp
qed

end
