(* ===== verification/Owned.thy ===== *)
theory Owned
  imports Lifecycle
begin

section \<open>Lifecycle-owned resources\<close>

text \<open>
  Models \<^verbatim>\<open>owned.go\<close>: \<^verbatim>\<open>NewOwned\<close>, \<^verbatim>\<open>Current\<close> and the \<^verbatim>\<open>start\<close> and \<^verbatim>\<open>stop\<close> callbacks, whose critical sections are
  functions on the record and whose interleavings are a step relation with the Open and Close
  callbacks of the application as separate steps. The ghost fields record which resources were
  acquired and which were closed.
\<close>

subsection \<open>Resources\<close>

text \<open>A Go value as \<^verbatim>\<open>nilResource\<close> inspects it: no dynamic value, a nil or non-nil value of a kind that
  can be nil, or a value of another kind.\<close>

datatype go_value = NoValue | NilReference | Reference nat | PlainValue nat

fun nilResource :: "go_value \<Rightarrow> bool" where
  "nilResource NoValue = True"
| "nilResource NilReference = True"
| "nilResource (Reference _) = False"
| "nilResource (PlainValue _) = False"

record owned_config =
  own_Name :: string
  own_Open :: bool
  own_Close :: bool
  own_implements_closer :: bool
  own_CloseTimeout :: duration

datatype owned_state = OwnedNew | OwnedOpening | OwnedOpen | OwnedClosed

record owned =
  own_name :: string
  own_timeout :: duration
  own_state :: owned_state
  own_resource :: "go_value option"
  cancelOpen :: bool
  stopDone :: chan
  stopErr :: go_error

definition defaultOwnedCloseTimeout :: duration where "defaultOwnedCloseTimeout = 30 * second"

definition NewOwned :: "addr \<Rightarrow> owned_config \<Rightarrow> go_error + owned" where
  "NewOwned a cfg =
     (if \<not> validRuntimeIdentity (own_Name cfg) then Inl (ConfigError a ''Name'' identity_reason)
      else if \<not> own_Open cfg then Inl (ConfigError a ''Open'' ''must not be nil'')
      else if own_CloseTimeout cfg < 0 then Inl (ConfigError a ''CloseTimeout'' ''must not be negative'')
      else if \<not> own_Close cfg \<and> \<not> own_implements_closer cfg then
        Inl (ConfigError a ''Close'' ''is required when the resource has no Close(context.Context) error method'')
      else Inr \<lparr>own_name = own_Name cfg,
        own_timeout = (if own_CloseTimeout cfg = 0 then defaultOwnedCloseTimeout else own_CloseTimeout cfg),
        own_state = OwnedNew, own_resource = None, cancelOpen = False, stopDone = ChanNil, stopErr = NilErr\<rparr>)"

definition owned_Component :: "owned \<Rightarrow> component" where
  "owned_Component ow = \<lparr>Name = own_name ow, CloseAdmission = False, StartHook = True, StopHook = True\<rparr>"

definition Current :: "owned \<Rightarrow> go_error + go_value option" where
  "Current ow = (case own_state ow of
     OwnedOpen \<Rightarrow> Inr (own_resource ow)
   | OwnedClosed \<Rightarrow> Inl (Sentinel ErrResourceClosed)
   | _ \<Rightarrow> Inl (Sentinel ErrResourceNotStarted))"

subsection \<open>Callbacks\<close>

datatype open_outcome = OpenReturned go_value go_error | OpenPanicked panic_value

fun invokeOpen :: "addr \<Rightarrow> string \<Rightarrow> open_outcome \<Rightarrow> go_value \<times> go_error" where
  "invokeOpen a name (OpenReturned resource err) = (resource, err)"
| "invokeOpen a name (OpenPanicked v) = (NoValue, PanicError a name ''open'' v)"

definition closeWith :: "addr \<Rightarrow> string \<Rightarrow> outcome \<Rightarrow> go_error" where
  "closeWith a name out = invoke a name ''close'' out"

text \<open>What \<^verbatim>\<open>start\<close> holds after Open: the resource it now owns, or the error.\<close>

definition open_result :: "go_value \<times> go_error \<Rightarrow> go_error + go_value" where
  "open_result result = (case result of (resource, err) \<Rightarrow>
     if err \<noteq> NilErr then Inl err
     else if nilResource resource then Inl (Sentinel ErrResourceNil)
     else Inr resource)"

subsection \<open>Critical sections\<close>

definition owned_start_enter :: "owned \<Rightarrow> go_error + owned" where
  "owned_start_enter ow = (case own_state ow of
     OwnedOpening \<Rightarrow> Inl (Sentinel ErrResourceAlreadyStarted)
   | OwnedOpen \<Rightarrow> Inl (Sentinel ErrResourceAlreadyStarted)
   | OwnedClosed \<Rightarrow> Inl (Sentinel ErrResourceClosed)
   | OwnedNew \<Rightarrow> Inr (ow\<lparr>own_state := OwnedOpening, cancelOpen := True\<rparr>))"

datatype publish_branch = PublishFailed go_error | Published | Unpublished go_error go_value

definition owned_publish :: "ctx_state \<Rightarrow> go_error + go_value \<Rightarrow> owned \<Rightarrow> owned \<times> publish_branch" where
  "owned_publish ctx result ow =
     (let ow = ow\<lparr>cancelOpen := False\<rparr>; stopped = (own_state ow = OwnedClosed) in
      case result of
        Inl err \<Rightarrow>
          (if stopped then ow\<lparr>stopDone := close_chan (stopDone ow)\<rparr> else ow\<lparr>own_state := OwnedNew\<rparr>,
           PublishFailed err)
      | Inr resource \<Rightarrow>
          if \<not> stopped \<and> ctx_err ctx = NilErr
          then (ow\<lparr>own_state := OwnedOpen, own_resource := Some resource\<rparr>, Published)
          else (ow, Unpublished (if stopped then Sentinel ErrResourceClosed else ctx_cause ctx) resource))"

definition owned_discarded :: "go_error \<Rightarrow> owned \<Rightarrow> owned" where
  "owned_discarded closeErr ow =
     (if own_state ow = OwnedClosed
      then ow\<lparr>stopErr := closeErr, stopDone := close_chan (stopDone ow)\<rparr>
      else ow\<lparr>own_state := OwnedNew\<rparr>)"

datatype owned_stop_branch = OwnedStopped | OwnedWait bool | OwnedClose "go_value option"

definition owned_stop_enter :: "owned \<Rightarrow> owned \<times> owned_stop_branch" where
  "owned_stop_enter ow = (case own_state ow of
     OwnedNew \<Rightarrow> (ow\<lparr>own_state := OwnedClosed, stopDone := close_chan ChanOpen\<rparr>, OwnedStopped)
   | OwnedOpening \<Rightarrow> (ow\<lparr>own_state := OwnedClosed, stopDone := ChanOpen\<rparr>, OwnedWait (cancelOpen ow))
   | OwnedClosed \<Rightarrow> (ow, OwnedWait False)
   | OwnedOpen \<Rightarrow>
       (ow\<lparr>own_resource := None, own_state := OwnedClosed, stopDone := ChanOpen\<rparr>, OwnedClose (own_resource ow)))"

definition owned_stop_finish :: "go_error \<Rightarrow> owned \<Rightarrow> owned" where
  "owned_stop_finish err ow = ow\<lparr>stopErr := err, stopDone := close_chan (stopDone ow)\<rparr>"

subsection \<open>Threads\<close>

datatype own_pc =
    OwnStart "ctx_state option" | OwnOpening ctx_state | OwnOpened ctx_state "go_error + go_value"
  | OwnDiscard go_error go_value | OwnDiscarded go_error go_error | OwnStartDone go_error
  | OwnStop "ctx_state option" | OwnWaitStop ctx_state | OwnClosing go_value | OwnClosed go_error
  | OwnStopDone go_error | OwnStopFailed go_error

record own_shared =
  own :: owned
  openCtx :: ctx_state
  opened :: "go_value multiset"
  closed :: "go_value multiset"

fun taken :: "go_error + go_value \<Rightarrow> go_value multiset" where
  "taken (Inl _) = {#}"
| "taken (Inr r) = {#r#}"

fun after_publish :: "publish_branch \<Rightarrow> own_pc" where
  "after_publish (PublishFailed err) = OwnStartDone err"
| "after_publish Published = OwnStartDone NilErr"
| "after_publish (Unpublished cause r) = OwnDiscard cause r"

inductive own_thread :: "own_shared \<Rightarrow> own_pc \<Rightarrow> own_shared \<Rightarrow> own_pc \<Rightarrow> bool" where
  own_start_nil: "own_thread g (OwnStart None) g (OwnStartDone (ConfigError a ''ctx'' ''must not be nil''))"
| own_start_ended: "ctx_err ctx \<noteq> NilErr \<Longrightarrow>
     own_thread g (OwnStart (Some ctx)) g (OwnStartDone (ctx_cause ctx))"
| own_start_rejected: "ctx_err ctx = NilErr \<Longrightarrow> owned_start_enter (own g) = Inl err \<Longrightarrow>
     own_thread g (OwnStart (Some ctx)) g (OwnStartDone err)"
| own_start_opens: "ctx_err ctx = NilErr \<Longrightarrow> owned_start_enter (own g) = Inr ow \<Longrightarrow>
     own_thread g (OwnStart (Some ctx)) (g\<lparr>own := ow, openCtx := ctx\<rparr>) (OwnOpening ctx)"
| own_opens: "result = open_result (invokeOpen a (own_name (own g)) out) \<Longrightarrow>
     own_thread g (OwnOpening ctx) (g\<lparr>opened := opened g + taken result\<rparr>) (OwnOpened ctx result)"
| own_publishes: "owned_publish ctx result (own g) = (ow, branch) \<Longrightarrow>
     own_thread g (OwnOpened ctx result) (g\<lparr>own := ow\<rparr>) (after_publish branch)"
| own_discards: "own_thread g (OwnDiscard cause r) (g\<lparr>closed := add_mset r (closed g)\<rparr>)
     (OwnDiscarded cause (closeWith a (own_name (own g)) out))"
| own_discarded: "own_thread g (OwnDiscarded cause closeErr) (g\<lparr>own := owned_discarded closeErr (own g)\<rparr>)
     (OwnStartDone (errors_join a [cause, closeErr]))"
| own_stop_nil: "own_thread g (OwnStop None) g (OwnStopFailed (ConfigError a ''ctx'' ''must not be nil''))"
| own_stop_new: "owned_stop_enter (own g) = (ow, OwnedStopped) \<Longrightarrow>
     own_thread g (OwnStop (Some ctx)) (g\<lparr>own := ow\<rparr>) (OwnStopDone NilErr)"
| own_stop_waits: "owned_stop_enter (own g) = (ow, OwnedWait cancels) \<Longrightarrow>
     own_thread g (OwnStop (Some ctx))
       (g\<lparr>own := ow, openCtx := if cancels then cancel_cause (Sentinel ErrResourceClosed) (openCtx g)
                              else openCtx g\<rparr>) (OwnWaitStop ctx)"
| own_stop_closes: "owned_stop_enter (own g) = (ow, OwnedClose (Some r)) \<Longrightarrow>
     own_thread g (OwnStop (Some ctx)) (g\<lparr>own := ow\<rparr>) (OwnClosing r)"
| own_closes: "own_thread g (OwnClosing r) (g\<lparr>closed := add_mset r (closed g)\<rparr>)
     (OwnClosed (closeWith a (own_name (own g)) out))"
| own_closed: "own_thread g (OwnClosed err) (g\<lparr>own := owned_stop_finish err (own g)\<rparr>) (OwnStopDone err)"
| own_wait_done: "stopDone (own g) = ChanClosed \<Longrightarrow>
     own_thread g (OwnWaitStop ctx) g (OwnStopDone (stopErr (own g)))"
| own_wait_ended: "stopDone (own g) \<noteq> ChanClosed \<Longrightarrow> ctx_err ctx \<noteq> NilErr \<Longrightarrow>
     own_thread g (OwnWaitStop ctx) g (OwnStopFailed (ctx_cause ctx))"

text \<open>The callers' contexts end at any time; whoever holds one sees it from then on.\<close>

fun ctx_ends :: "go_error \<Rightarrow> go_error \<Rightarrow> own_pc \<Rightarrow> own_pc" where
  "ctx_ends e c (OwnStart (Some x)) = OwnStart (Some (end_ctx e c x))"
| "ctx_ends e c (OwnOpening x) = OwnOpening (end_ctx e c x)"
| "ctx_ends e c (OwnOpened x r) = OwnOpened (end_ctx e c x) r"
| "ctx_ends e c (OwnWaitStop x) = OwnWaitStop (end_ctx e c x)"
| "ctx_ends e c p = p"

type_synonym own_sys = "own_shared \<times> own_pc multiset"

inductive own_step :: "own_sys \<Rightarrow> own_sys \<Rightarrow> bool" where
  own_moves: "own_thread g p g' p' \<Longrightarrow> own_step (g, add_mset p P) (g', add_mset p' P)"
| own_call_start: "own_step (g, P) (g, add_mset (OwnStart ctx) P)"
| own_call_stop: "own_step (g, P) (g, add_mset (OwnStop ctx) P)"
| own_ctx_ends: "e \<noteq> NilErr \<Longrightarrow> c \<noteq> NilErr \<Longrightarrow>
     own_step (g, add_mset p P) (g, add_mset (ctx_ends e c p) P)"

definition own_fresh :: "owned \<Rightarrow> own_shared" where
  "own_fresh ow = \<lparr>own = ow, openCtx = CtxActive, opened = {#}, closed = {#}\<rparr>"

definition own_init :: "own_sys \<Rightarrow> bool" where
  "own_init x \<longleftrightarrow> (\<exists>a cfg ow. NewOwned a cfg = Inr ow \<and> x = (own_fresh ow, {#}))"

abbreviation own_reachable :: "own_sys \<Rightarrow> bool" where
  "own_reachable \<equiv> reachable own_init own_step"

subsection \<open>The invariant\<close>

fun own_starting :: "own_pc \<Rightarrow> bool" where
  "own_starting (OwnOpening _) = True"
| "own_starting (OwnOpened _ _) = True"
| "own_starting (OwnDiscard _ _) = True"
| "own_starting (OwnDiscarded _ _) = True"
| "own_starting _ = False"

fun own_stopping :: "own_pc \<Rightarrow> bool" where
  "own_stopping (OwnClosing _) = True"
| "own_stopping (OwnClosed _) = True"
| "own_stopping _ = False"

text \<open>The resources a thread holds: acquired, not published, not closed.\<close>

fun holds :: "own_pc \<Rightarrow> go_value multiset" where
  "holds (OwnOpened _ result) = taken result"
| "holds (OwnDiscard _ r) = {#r#}"
| "holds (OwnClosing r) = {#r#}"
| "holds _ = {#}"

fun published :: "go_value option \<Rightarrow> go_value multiset" where
  "published None = {#}"
| "published (Some r) = {#r#}"

primrec own_table :: "owned_state \<Rightarrow> owned \<Rightarrow> nat \<Rightarrow> nat \<Rightarrow> bool" where
  "own_table OwnedNew ow n_start n_stop \<longleftrightarrow>
     stopDone ow = ChanNil \<and> stopErr ow = NilErr \<and> own_resource ow = None \<and> n_start = 0 \<and> n_stop = 0"
| "own_table OwnedOpening ow n_start n_stop \<longleftrightarrow>
     stopDone ow = ChanNil \<and> stopErr ow = NilErr \<and> own_resource ow = None \<and> n_start = 1 \<and> n_stop = 0"
| "own_table OwnedOpen ow n_start n_stop \<longleftrightarrow>
     stopDone ow = ChanNil \<and> stopErr ow = NilErr \<and> own_resource ow \<noteq> None \<and> n_start = 0 \<and> n_stop = 0"
| "own_table OwnedClosed ow n_start n_stop \<longleftrightarrow> own_resource ow = None \<and>
     (stopDone ow = ChanClosed \<and> n_start = 0 \<and> n_stop = 0 \<or>
      stopDone ow = ChanOpen \<and> stopErr ow = NilErr \<and> n_start + n_stop = 1)"

definition own_ok :: "owned \<Rightarrow> nat \<Rightarrow> nat \<Rightarrow> bool" where
  "own_ok ow n_start n_stop \<longleftrightarrow> own_table (own_state ow) ow n_start n_stop"

definition own_phase :: "own_sys \<Rightarrow> bool" where
  "own_phase = (\<lambda>(g, P). own_ok (own g)
     (size (filter_mset own_starting P)) (size (filter_mset own_stopping P)))"

definition own_conserved :: "own_sys \<Rightarrow> bool" where
  "own_conserved = (\<lambda>(g, P).
     opened g = closed g + published (own_resource (own g)) + (\<Sum>p\<in>#P. holds p))"

fun own_pc_ok :: "owned \<Rightarrow> own_pc \<Rightarrow> bool" where
  "own_pc_ok ow (OwnStopDone err) = (own_state ow = OwnedClosed \<and> stopDone ow = ChanClosed \<and> err = stopErr ow)"
| "own_pc_ok ow (OwnWaitStop _) = (own_state ow = OwnedClosed)"
| "own_pc_ok ow _ = True"

definition own_inv :: "own_sys \<Rightarrow> bool" where
  "own_inv x \<longleftrightarrow> own_phase x \<and> own_conserved x \<and> (\<forall>p\<in>#snd x. own_pc_ok (own (fst x)) p)"

lemma own_ok_start:
  "owned_start_enter ow = Inr t \<Longrightarrow> own_ok ow n m \<Longrightarrow> own_ok t (Suc n) m \<and> own_resource t = own_resource ow"
  by (cases "own_state ow") (auto simp: owned_start_enter_def own_ok_def)

lemma own_ok_publish:
  assumes "owned_publish ctx result ow = (t, b)" and "own_ok ow (Suc n) m"
  shows "own_ok t (if own_starting (after_publish b) then Suc n else n) m"
    "published (own_resource t) + holds (after_publish b) = published (own_resource ow) + taken result"
    "own_state ow = OwnedClosed \<and> stopDone ow = ChanOpen \<or> own_state ow = OwnedOpening"
  using assms
  by (cases "own_state ow"; cases result; auto simp: owned_publish_def own_ok_def Let_def split: if_splits)+

lemma own_ok_discarded:
  assumes "own_ok ow (Suc n) m"
  shows "own_ok (owned_discarded e ow) n m"
  using assms by (cases "own_state ow"; simp add: owned_discarded_def own_ok_def)

lemma section_resource [simp]:
  "own_resource (owned_discarded e ow) = own_resource ow"
  "own_resource (owned_stop_finish e ow) = own_resource ow"
  by (simp_all add: owned_discarded_def owned_stop_finish_def)

lemma own_ok_stop:
  assumes "owned_stop_enter ow = (t, b)" and "own_ok ow n m"
  shows "own_ok t n (case b of OwnedClose _ \<Rightarrow> Suc m | _ \<Rightarrow> m)" "own_state t = OwnedClosed"
    "published (own_resource t) + (case b of OwnedClose (Some r) \<Rightarrow> {#r#} | _ \<Rightarrow> {#}) = published (own_resource ow)"
    "b = OwnedStopped \<Longrightarrow> stopDone t = ChanClosed \<and> stopErr t = NilErr"
    "own_state ow = OwnedClosed \<Longrightarrow> t = ow"
  using assms by (cases "own_state ow"; auto simp: owned_stop_enter_def own_ok_def split: option.splits)+

lemma own_ok_finish:
  assumes "own_ok ow n (Suc m)"
  shows "own_ok (owned_stop_finish e ow) n m"
    "own_state ow = OwnedClosed" "stopDone ow = ChanOpen"
  using assms by (cases "own_state ow"; auto simp: owned_stop_finish_def own_ok_def)+

lemma own_phase_thread:
  assumes "own_thread g p g' p'" and "own_phase (g, add_mset p P)"
  shows "own_phase (g', add_mset p' P)"
  using assms
proof (induction rule: own_thread.induct)
  case (own_start_opens ctx g ow)
  then show ?case by (auto simp: own_phase_def dest: own_ok_start)
next
  case (own_publishes ctx result g ow branch)
  then show ?case
    using own_ok_publish(1)[OF own_publishes(1)] by (cases branch) (auto simp: own_phase_def)
next
  case (own_discarded g cause closeErr a)
  then show ?case by (auto simp: own_phase_def dest: own_ok_discarded)
next
  case (own_closed g err)
  then show ?case by (auto simp: own_phase_def dest: own_ok_finish)
qed (auto simp: own_phase_def dest: own_ok_stop(1))

lemma own_conserved_thread:
  assumes "own_thread g p g' p'" and "own_conserved (g, add_mset p P)" and "own_phase (g, add_mset p P)"
  shows "own_conserved (g', add_mset p' P)"
  using assms
proof (induction rule: own_thread.induct)
  case (own_start_opens ctx g ow)
  then show ?case by (auto simp: own_phase_def own_conserved_def dest: own_ok_start)
next
  case (own_publishes ctx result g ow branch)
  then show ?case
    using own_ok_publish(2)[OF own_publishes(1)]
    by (auto simp: own_phase_def own_conserved_def ac_simps)
next
  case (own_discarded g cause closeErr a)
  then show ?case by (auto simp: own_phase_def own_conserved_def dest: own_ok_discarded)
next
  case (own_closed g err)
  then show ?case by (auto simp: own_phase_def own_conserved_def dest: own_ok_finish)
next
  case (own_stop_new g ow ctx)
  then show ?case using own_ok_stop(3)[OF own_stop_new(1)] by (auto simp: own_phase_def own_conserved_def)
next
  case (own_stop_waits g ow cancels ctx)
  then show ?case using own_ok_stop(3)[OF own_stop_waits(1)] by (auto simp: own_phase_def own_conserved_def)
next
  case (own_stop_closes g ow r ctx)
  then show ?case using own_ok_stop(3)[OF own_stop_closes(1)] by (auto simp: own_phase_def own_conserved_def)
qed (auto simp: own_conserved_def)

text \<open>Once closed the state stays closed, and once the close finished its result is kept.\<close>

lemma own_closed_stable:
  assumes "own_thread g p g' p'" and "own_phase (g, add_mset p P)" and "own_state (own g) = OwnedClosed"
  shows "own_state (own g') = OwnedClosed \<and>
    (stopDone (own g) = ChanClosed \<longrightarrow> stopDone (own g') = ChanClosed \<and> stopErr (own g') = stopErr (own g))"
  using assms
proof (induction rule: own_thread.induct)
  case (own_publishes ctx result g ow branch)
  then show ?case using own_ok_publish(3)[OF own_publishes(1)]
    by (auto simp: own_phase_def owned_publish_def Let_def split: sum.splits)
next
  case (own_discarded g cause closeErr a)
  then show ?case by (auto simp: own_phase_def own_ok_def owned_discarded_def)
next
  case (own_closed g err)
  then show ?case by (auto simp: own_phase_def owned_stop_finish_def dest: own_ok_finish)
qed (auto simp: owned_start_enter_def owned_stop_enter_def)

lemma own_pc_stable:
  assumes "own_pc_ok ow p" and "own_state ow = OwnedClosed \<Longrightarrow> own_state t = OwnedClosed \<and>
    (stopDone ow = ChanClosed \<longrightarrow> stopDone t = ChanClosed \<and> stopErr t = stopErr ow)"
  shows "own_pc_ok t p"
  using assms by (cases p) auto

lemma own_pc_thread:
  assumes "own_thread g p g' p'" and "own_phase (g, add_mset p P)" and "own_pc_ok (own g) p"
  shows "own_pc_ok (own g') p'"
  using assms
proof (induction rule: own_thread.induct)
  case (own_publishes ctx result g ow branch)
  then show ?case by (cases branch) auto
next
  case (own_stop_new g ow ctx)
  then show ?case using own_ok_stop(2,4)[OF own_stop_new(1)] by (auto simp: own_phase_def)
next
  case (own_stop_waits g ow cancels ctx)
  then show ?case using own_ok_stop(2)[OF own_stop_waits(1)] by (auto simp: own_phase_def)
next
  case (own_closed g err)
  then show ?case by (auto simp: own_phase_def owned_stop_finish_def dest: own_ok_finish)
qed auto

lemma own_inv_step:
  assumes "own_inv x" and "own_step x y"
  shows "own_inv y"
  using assms(2,1)
proof (induction rule: own_step.induct)
  case (own_moves g p g' p' P)
  then have old: "own_phase (g, add_mset p P)" "own_conserved (g, add_mset p P)" "own_pc_ok (own g) p"
    "\<forall>q\<in>#P. own_pc_ok (own g) q" by (auto simp: own_inv_def)
  have "own_pc_ok (own g') q" if "q \<in># P" for q
    using own_pc_stable[of "own g" q "own g'"] old(4) that own_closed_stable[OF own_moves(1) old(1)] by blast
  then show ?case
    using own_phase_thread[OF own_moves(1) old(1)] own_conserved_thread[OF own_moves(1) old(2,1)]
      own_pc_thread[OF own_moves(1) old(1,3)]
    by (simp add: own_inv_def)
next
  case (own_ctx_ends e c g p P)
  have "own_starting (ctx_ends e c p) = own_starting p" "own_stopping (ctx_ends e c p) = own_stopping p"
    "holds (ctx_ends e c p) = holds p" "own_pc_ok ow (ctx_ends e c p) = own_pc_ok ow p" for ow
    by (cases "(e, c, p)" rule: ctx_ends.cases; simp)+
  with own_ctx_ends show ?case by (auto simp: own_inv_def own_phase_def own_conserved_def)
qed (auto simp: own_inv_def own_phase_def own_conserved_def)

lemma own_inv_init: "own_init x \<Longrightarrow> own_inv x"
  by (auto simp: own_init_def NewOwned_def own_fresh_def own_inv_def own_phase_def own_ok_def own_conserved_def
      split: if_splits)

interpretation owned: safe_system own_init own_step own_inv
  by unfold_locales (auto intro: own_inv_init own_inv_step)

subsection \<open>A concrete run\<close>

definition demo_owned :: owned where
  "demo_owned = \<lparr>own_name = ''db'', own_timeout = 30 * second, own_state = OwnedNew, own_resource = None,
     cancelOpen = False, stopDone = ChanNil, stopErr = NilErr\<rparr>"

definition demo_open :: own_shared where
  "demo_open = \<lparr>own = demo_owned\<lparr>own_state := OwnedOpen, own_resource := Some (Reference 7)\<rparr>,
     openCtx = CtxActive, opened = {#Reference 7#}, closed = {#}\<rparr>"

definition demo_closing :: own_shared where
  "demo_closing = demo_open\<lparr>own := demo_owned\<lparr>own_state := OwnedClosed, stopDone := ChanOpen\<rparr>\<rparr>"

definition demo_closed :: own_shared where
  "demo_closed = demo_open\<lparr>own := demo_owned\<lparr>own_state := OwnedClosed, stopDone := ChanClosed\<rparr>,
     closed := {#Reference 7#}\<rparr>"

lemmas demo_owned_defs = demo_owned_def demo_open_def demo_closing_def demo_closed_def own_fresh_def

lemma own_reach:
  "own_reachable (g, add_mset p P) \<Longrightarrow> own_thread g p g' p' \<Longrightarrow> own_reachable (g', add_mset p' P)"
  by (blast intro: reachable_step own_moves)

lemma demo_open_reachable: "own_reachable (demo_open, {#OwnStartDone NilErr#})"
proof -
  let ?g0 = "own_fresh demo_owned"
  let ?g1 = "?g0\<lparr>own := demo_owned\<lparr>own_state := OwnedOpening, cancelOpen := True\<rparr>, openCtx := CtxActive\<rparr>"
  let ?g2 = "?g1\<lparr>opened := {#Reference 7#}\<rparr>"
  have "NewOwned 0 \<lparr>own_Name = ''db'', own_Open = True, own_Close = True, own_implements_closer = False,
      own_CloseTimeout = 0\<rparr> = Inr demo_owned"
    by (simp add: NewOwned_def validRuntimeIdentity_def trim_space_plain printable_def lifecycle_constants
        demo_owned_def defaultOwnedCloseTimeout_def)
  then have "own_reachable (?g0, {#})" by (intro reachable_init) (auto simp: own_init_def)
  from reachable_step[OF this own_call_start[of _ _ "Some CtxActive"]]
  have "own_reachable (?g0, {#OwnStart (Some CtxActive)#})" .
  from own_reach[OF this own_start_opens]
  have "own_reachable (?g1, {#OwnOpening CtxActive#})"
    by (simp add: owned_start_enter_def demo_owned_defs)
  from own_reach[OF this own_opens[OF refl, where a = 0 and out = "OpenReturned (Reference 7) NilErr"]]
  have "own_reachable (?g2, {#OwnOpened CtxActive (Inr (Reference 7))#})"
    by (simp add: open_result_def demo_owned_defs)
  from own_reach[OF this own_publishes, of "own demo_open" Published] show ?thesis
    by (simp add: owned_publish_def demo_owned_defs)
qed

lemma demo_closing_reachable: "own_reachable (demo_closing, {#OwnClosing (Reference 7), OwnStartDone NilErr#})"
proof -
  from reachable_step[OF demo_open_reachable own_call_stop[of _ _ "Some CtxActive"]]
  have "own_reachable (demo_open, {#OwnStop (Some CtxActive), OwnStartDone NilErr#})" .
  from own_reach[OF this own_stop_closes[of _ "own demo_closing" "Reference 7"]] show ?thesis
    by (simp add: owned_stop_enter_def demo_owned_defs)
qed

lemma demo_closed_reachable: "own_reachable (demo_closed, {#OwnStopDone NilErr, OwnStartDone NilErr#})"
proof -
  from own_reach[OF demo_closing_reachable own_closes[where a = 0 and out = "Returned NilErr"]]
  have "own_reachable (demo_closing\<lparr>closed := {#Reference 7#}\<rparr>, {#OwnClosed NilErr, OwnStartDone NilErr#})"
    by (simp add: closeWith_def demo_owned_defs)
  from own_reach[OF this own_closed] show ?thesis
    by (simp add: owned_stop_finish_def demo_owned_defs)
qed

subsection \<open>Properties\<close>

lemma no_holders:
  assumes "size (filter_mset own_starting P) = 0" and "size (filter_mset own_stopping P) = 0"
  shows "(\<Sum>p\<in>#P. holds p) = {#}"
proof -
  have "holds p = {#}" if "p \<in># P" for p
    using that assms by (cases p) (auto simp: size_filter_zero)
  then show ?thesis by (simp add: sum_mset.neutral)
qed

lemma holders_size:
  "size (\<Sum>p\<in>#P. holds p) \<le> size (filter_mset own_starting P) + size (filter_mset own_stopping P)"
proof (induction P)
  case (add p P)
  have "size (holds p) \<le> (if own_starting p then 1 else 0) + (if own_stopping p then 1 else 0)"
  proof (cases p)
    case (OwnOpened ctx result)
    then show ?thesis by (cases result) auto
  qed auto
  with add show ?case by auto
qed simp

lemma own_ok_one: "own_ok ow n m \<Longrightarrow> size (published (own_resource ow)) + (n + m) \<le> 1"
  by (cases "own_state ow") (auto simp: own_ok_def)

lemma one_owner:
  assumes "own_inv (g, P)"
  shows "size (published (own_resource (own g))) + size (\<Sum>p\<in>#P. holds p) \<le> 1"
proof -
  have "own_ok (own g) (size (filter_mset own_starting P)) (size (filter_mset own_stopping P))"
    using assms by (simp add: own_inv_def own_phase_def)
  from own_ok_one[OF this] holders_size[of P] show ?thesis by linarith
qed

text \<open>C11. No interleaving of Start and Stop leaks a resource or closes one twice. At every moment the
  resources Open handed over are, with their multiplicity, those closed, the published one and those
  threads hold on their way to being published or closed (\<open>holds\<close>): none is lost, none is counted
  twice; and at most one resource is published or held at a time. A Stop that returned a result
  returns the retained one, after every acquired resource was closed exactly once.\<close>

theorem owned_closes_exactly_once:
  assumes "own_reachable (g, P)"
  shows "opened g = closed g + published (own_resource (own g)) + (\<Sum>p\<in>#P. holds p) \<and>
    size (published (own_resource (own g))) + size (\<Sum>p\<in>#P. holds p) \<le> 1 \<and>
    (OwnStopDone err \<in># P \<longrightarrow> closed g = opened g \<and> own_state (own g) = OwnedClosed \<and> err = stopErr (own g))"
proof (intro conjI impI)
  note inv = owned.reachable_inv[OF assms]
  show "opened g = closed g + published (own_resource (own g)) + (\<Sum>p\<in>#P. holds p)"
    using inv by (simp add: own_inv_def own_conserved_def)
  show "size (published (own_resource (own g))) + size (\<Sum>p\<in>#P. holds p) \<le> 1"
    using inv by (rule one_owner)
  assume "OwnStopDone err \<in># P"
  with inv have fin: "own_state (own g) = OwnedClosed" "stopDone (own g) = ChanClosed" "err = stopErr (own g)"
    by (auto simp: own_inv_def)
  with inv have "own_resource (own g) = None" "size (filter_mset own_starting P) = 0"
    "size (filter_mset own_stopping P) = 0"
    by (simp_all add: own_inv_def own_phase_def own_ok_def)
  note rest = this(1) no_holders[OF this(2,3)]
  with inv fin rest show "closed g = opened g" "own_state (own g) = OwnedClosed" "err = stopErr (own g)"
    by (auto simp: own_inv_def own_conserved_def)
qed

theorem owned_closes_exactly_once_witness:
  "closed demo_closed = opened demo_closed \<and> own_state (own demo_closed) = OwnedClosed"
  using conjunct2[OF conjunct2[OF owned_closes_exactly_once[OF demo_closed_reachable, of NilErr]]] by simp

text \<open>Current hands out a resource only while it is open: one that Open returned and that no close
  has touched; before Start it reports not started and after Stop began it reports closed.\<close>

theorem owned_current_is_open:
  assumes "own_reachable (g, P)"
  shows "(case Current (own g) of
      Inr r \<Rightarrow> own_state (own g) = OwnedOpen \<and> (\<exists>v. r = Some v \<and> count (closed g) v < count (opened g) v)
    | Inl err \<Rightarrow> err = (if own_state (own g) = OwnedClosed then Sentinel ErrResourceClosed
                        else Sentinel ErrResourceNotStarted))"
  using owned.reachable_inv[OF assms]
  by (cases "own_state (own g)")
    (auto simp: Current_def own_inv_def own_phase_def own_ok_def own_conserved_def)

theorem owned_current_is_open_witness:
  "own_state (own demo_open) = OwnedOpen \<and> count (closed demo_open) (Reference 7) < count (opened demo_open) (Reference 7)"
  using owned_current_is_open[OF demo_open_reachable] by (simp add: Current_def demo_owned_defs)

text \<open>C12. A waiting Stop is never stranded: while a closed resource has not finished closing, the
  goroutine that owes the close exists, can move, and is the only one.\<close>

theorem owned_stop_never_stranded:
  assumes "own_reachable (g, P)" and "own_state (own g) = OwnedClosed" and "stopDone (own g) \<noteq> ChanClosed"
  shows "\<exists>p g' p'. p \<in># P \<and> (own_starting p \<or> own_stopping p) \<and> own_thread g p g' p' \<and>
    size (filter_mset own_starting P) + size (filter_mset own_stopping P) = 1"
proof -
  have one: "size (filter_mset own_starting P) + size (filter_mset own_stopping P) = 1"
    using owned.reachable_inv[OF assms(1)] assms(2,3) by (auto simp: own_inv_def own_phase_def own_ok_def)
  then have "\<not> (size (filter_mset own_starting P) = 0 \<and> size (filter_mset own_stopping P) = 0)"
    by linarith
  then obtain p where p: "p \<in># P" "own_starting p \<or> own_stopping p"
    by (auto simp: size_filter_zero)
  moreover have "\<exists>g' p'. own_thread g p g' p'"
  proof (cases p)
    case (OwnOpened ctx result)
    then show ?thesis by (cases "owned_publish ctx result (own g)") (auto intro: own_publishes)
  qed (use p(2) in \<open>auto intro: own_thread.intros\<close>)
  ultimately show ?thesis using one by blast
qed

theorem owned_stop_never_stranded_witness:
  "\<exists>p g' p'. p \<in># {#OwnClosing (Reference 7), OwnStartDone NilErr#} \<and> own_thread demo_closing p g' p'"
  using owned_stop_never_stranded[OF demo_closing_reachable] by (auto simp: demo_owned_defs)

end
