(* ===== verification/Identity.thy ===== *)
theory Identity
  imports Lifecycle
begin

section \<open>Service identity\<close>

text \<open>
  Models the identity part of \<^verbatim>\<open>platform.go\<close>: \<^verbatim>\<open>Identity\<close>, \<^verbatim>\<open>validateIdentity\<close> and the scanners it
  calls, with the \<^verbatim>\<open>strings\<close> functions and \<^verbatim>\<open>time.Parse(time.RFC3339, _)\<close> as they use them. The
  scanners are proved equal to grammars: lowercase kebab case for names, the Semantic Versioning
  grammar for versions.
\<close>

subsection \<open>Characters and splitting\<close>

definition digit :: "char \<Rightarrow> bool" where
  "digit c \<longleftrightarrow> 48 \<le> (of_char c :: nat) \<and> (of_char c :: nat) \<le> 57"

definition lower :: "char \<Rightarrow> bool" where
  "lower c \<longleftrightarrow> 97 \<le> (of_char c :: nat) \<and> (of_char c :: nat) \<le> 122"

definition upper :: "char \<Rightarrow> bool" where
  "upper c \<longleftrightarrow> 65 \<le> (of_char c :: nat) \<and> (of_char c :: nat) \<le> 90"

lemmas char_classes = digit_def lower_def upper_def

text \<open>\<^verbatim>\<open>strings.Cut\<close> and \<^verbatim>\<open>strings.Split\<close> with a one-byte separator.\<close>

fun strings_cut :: "char \<Rightarrow> string \<Rightarrow> string \<times> string option" where
  "strings_cut sep [] = ([], None)"
| "strings_cut sep (c # cs) =
     (if c = sep then ([], Some cs) else let (before, after) = strings_cut sep cs in (c # before, after))"

fun strings_split :: "char \<Rightarrow> string \<Rightarrow> string list" where
  "strings_split sep [] = [[]]"
| "strings_split sep (c # cs) =
     (if c = sep then [] # strings_split sep cs
      else case strings_split sep cs of [] \<Rightarrow> [[c]] | part # parts \<Rightarrow> (c # part) # parts)"

subsection \<open>The scanners\<close>

fun name_loop :: "bool \<Rightarrow> string \<Rightarrow> bool" where
  "name_loop previousHyphen [] = True"
| "name_loop previousHyphen (c # cs) =
     (if c = CHR ''-'' then
        if previousHyphen \<or> cs = [] then False else name_loop True cs
      else if \<not> lower c \<and> \<not> digit c then False
      else name_loop False cs)"

definition validCommandName :: "string \<Rightarrow> bool" where
  "validCommandName value =
     (if \<not> validRuntimeIdentity value \<or> \<not> lower (hd value) then False
      else name_loop False (tl value))"

definition hex_digit :: "char \<Rightarrow> bool" where
  "hex_digit c \<longleftrightarrow>
     (let k = (of_char c :: nat) in
      \<not> ((k < 48 \<or> k > 57) \<and> (k < 97 \<or> k > 102) \<and> (k < 65 \<or> k > 70)))"

definition validSourceRevision :: "string \<Rightarrow> bool" where
  "validSourceRevision value =
     (if length value < 7 \<or> length value > 64 then False else list_all hex_digit value)"

definition validVersionNumber :: "string \<Rightarrow> bool" where
  "validVersionNumber value =
     (if value = [] \<or> length value > 1 \<and> hd value = CHR ''0'' then False else list_all digit value)"

definition identifier_char :: "char \<Rightarrow> bool" where
  "identifier_char c \<longleftrightarrow> \<not> (\<not> digit c \<and> \<not> upper c \<and> \<not> lower c \<and> c \<noteq> CHR ''-'')"

definition validVersionIdentifier :: "bool \<Rightarrow> string \<Rightarrow> bool" where
  "validVersionIdentifier rejectLeadingZero identifier =
     (if identifier = [] then False
      else if \<not> list_all identifier_char identifier then False
      else \<not> (rejectLeadingZero \<and> list_all digit identifier \<and> length identifier > 1 \<and> hd identifier = CHR ''0''))"

definition validVersionIdentifiers :: "string \<Rightarrow> bool \<Rightarrow> bool" where
  "validVersionIdentifiers value rejectLeadingZero =
     (if value = [] then False
      else list_all (validVersionIdentifier rejectLeadingZero) (strings_split (CHR ''.'') value))"

definition validSemanticVersion :: "string \<Rightarrow> bool" where
  "validSemanticVersion version =
     (let (coreAndPrerelease, build) = strings_cut (CHR ''+'') version in
      if build \<noteq> None \<and> \<not> validVersionIdentifiers (the build) False then False
      else
        let (core, prerelease) = strings_cut (CHR ''-'') coreAndPrerelease;
            parts = strings_split (CHR ''.'') core in
        if length parts \<noteq> 3 then False
        else if \<not> list_all validVersionNumber parts then False
        else if prerelease \<noteq> None \<and> \<not> validVersionIdentifiers (the prerelease) True then False
        else True)"

subsection \<open>RFC 3339 timestamps\<close>

text \<open>
  \<^verbatim>\<open>time.Parse\<close> with the RFC 3339 layout: the year, month, day, minute and second have fixed widths,
  the hour one or two digits, a fraction may follow the seconds after a period or a comma, and the
  zone is \<^verbatim>\<open>Z\<close> or a signed offset of at most 24 hours and 60 minutes.
\<close>

definition number :: "string \<Rightarrow> nat" where
  "number s = foldl (\<lambda>n c. 10 * n + (of_char c - 48)) 0 s"

definition take_digits :: "nat \<Rightarrow> string \<Rightarrow> (nat \<times> string) option" where
  "take_digits n s =
     (if length (take n s) = n \<and> list_all digit (take n s) then Some (number (take n s), drop n s) else None)"

definition take_char :: "char \<Rightarrow> string \<Rightarrow> string option" where
  "take_char c s = (case s of [] \<Rightarrow> None | d # ds \<Rightarrow> if d = c then Some ds else None)"

definition take_hour :: "string \<Rightarrow> (nat \<times> string) option" where
  "take_hour s = (case take_digits 2 s of Some r \<Rightarrow> Some r | None \<Rightarrow> take_digits 1 s)"

definition drop_fraction :: "string \<Rightarrow> string" where
  "drop_fraction s =
     (case s of
        p # d # rest \<Rightarrow> if (p = CHR ''.'' \<or> p = CHR '','') \<and> digit d then dropWhile digit rest else s
      | _ \<Rightarrow> s)"

definition leap_year :: "nat \<Rightarrow> bool" where
  "leap_year y \<longleftrightarrow> y mod 4 = 0 \<and> (y mod 100 \<noteq> 0 \<or> y mod 400 = 0)"

definition days_in :: "nat \<Rightarrow> nat \<Rightarrow> nat" where
  "days_in month year =
     (if month = 2 then (if leap_year year then 29 else 28)
      else if month \<in> {4, 6, 9, 11} then 30 else 31)"

definition valid_zone :: "string \<Rightarrow> bool" where
  "valid_zone s =
     (if s = [CHR ''Z''] then True
      else case s of
        sign # rest \<Rightarrow>
          (sign = CHR ''+'' \<or> sign = CHR ''-'') \<and>
          (case take_digits 2 rest of None \<Rightarrow> False | Some (hh, rest) \<Rightarrow>
           case take_char (CHR '':'') rest of None \<Rightarrow> False | Some rest \<Rightarrow>
           case take_digits 2 rest of None \<Rightarrow> False | Some (mm, rest) \<Rightarrow> hh \<le> 24 \<and> mm \<le> 60 \<and> rest = [])
      | [] \<Rightarrow> False)"

definition valid_clock :: "string \<Rightarrow> bool" where
  "valid_clock s =
     (case take_hour s of None \<Rightarrow> False | Some (hh, s) \<Rightarrow>
      case take_char (CHR '':'') s of None \<Rightarrow> False | Some s \<Rightarrow>
      case take_digits 2 s of None \<Rightarrow> False | Some (mm, s) \<Rightarrow>
      case take_char (CHR '':'') s of None \<Rightarrow> False | Some s \<Rightarrow>
      case take_digits 2 s of None \<Rightarrow> False | Some (ss, s) \<Rightarrow>
        hh < 24 \<and> mm < 60 \<and> ss < 60 \<and> valid_zone (drop_fraction s))"

definition valid_rfc3339 :: "string \<Rightarrow> bool" where
  "valid_rfc3339 s =
     (case take_digits 4 s of None \<Rightarrow> False | Some (year, s) \<Rightarrow>
      case take_char (CHR ''-'') s of None \<Rightarrow> False | Some s \<Rightarrow>
      case take_digits 2 s of None \<Rightarrow> False | Some (month, s) \<Rightarrow>
      case take_char (CHR ''-'') s of None \<Rightarrow> False | Some s \<Rightarrow>
      case take_digits 2 s of None \<Rightarrow> False | Some (day, s) \<Rightarrow>
      case take_char (CHR ''T'') s of None \<Rightarrow> False | Some s \<Rightarrow>
        1 \<le> month \<and> month \<le> 12 \<and> 1 \<le> day \<and> day \<le> days_in month year \<and> valid_clock s)"

subsection \<open>Identity\<close>

record identity =
  id_Name :: string
  id_Version :: string
  id_Commit :: string
  id_BuildTime :: string
  id_GoVersion :: string
  id_Environment :: string
  id_Instance :: string

definition validateIdentity :: "addr \<Rightarrow> identity \<Rightarrow> go_error" where
  "validateIdentity a identity =
     (if trim_space (id_Name identity) = [] \<or> \<not> validCommandName (id_Name identity) then
        DefinitionError a ''Identity.Name'' ''must be lowercase kebab case''
      else if id_Version identity \<noteq> [] \<and> \<not> validSemanticVersion (id_Version identity) then
        DefinitionError a ''Identity.Version'' ''must be semantic version syntax''
      else if id_Commit identity \<noteq> [] \<and> \<not> validSourceRevision (id_Commit identity) then
        DefinitionError a ''Identity.Commit'' ''must be a hexadecimal source revision''
      else if id_BuildTime identity \<noteq> [] \<and> \<not> valid_rfc3339 (id_BuildTime identity) then
        DefinitionError a ''Identity.BuildTime'' ''must use RFC3339 syntax''
      else NilErr)"

definition identityValue :: "string \<Rightarrow> string" where
  "identityValue value = (if value = [] then ''unknown'' else value)"

subsection \<open>Separated lists\<close>

fun joined :: "char \<Rightarrow> string list \<Rightarrow> string" where
  "joined sep [] = []"
| "joined sep [x] = x"
| "joined sep (x # y # ys) = x @ sep # joined sep (y # ys)"

lemma joined_Cons: "joined sep (x # xs) = (if xs = [] then x else x @ sep # joined sep xs)"
  by (cases xs) auto

lemma cut_append: "sep \<notin> set b \<Longrightarrow> strings_cut sep (b @ sep # t) = (b, Some t)"
  by (induction b) auto

lemma cut_plain: "sep \<notin> set s \<Longrightarrow> strings_cut sep s = (s, None)"
  by (induction s) auto

lemma cut_cases:
  obtains "sep \<notin> set s" "strings_cut sep s = (s, None)"
  | b t where "s = b @ sep # t" "sep \<notin> set b" "strings_cut sep s = (b, Some t)"
proof (cases "sep \<in> set s")
  case True
  then obtain b t where "s = b @ sep # t" "sep \<notin> set b" by (meson split_list_first)
  then show ?thesis using that(2) cut_append by blast
qed (use that(1) cut_plain in blast)

lemma split_not_Nil: "strings_split sep s \<noteq> []"
  by (induction s) (auto split: list.splits)

lemma joined_split: "joined sep (strings_split sep s) = s"
proof (induction s)
  case (Cons c s)
  then show ?case using split_not_Nil[of sep s]
    by (auto simp: joined_Cons split: list.splits)
qed simp

lemma split_parts: "p \<in> set (strings_split sep s) \<Longrightarrow> sep \<notin> set p"
  by (induction s arbitrary: p) (auto split: list.splits if_splits)

lemma split_plain: "sep \<notin> set s \<Longrightarrow> strings_split sep s = [s]"
  by (induction s) auto

lemma split_append: "sep \<notin> set x \<Longrightarrow> strings_split sep (x @ sep # s) = x # strings_split sep s"
  by (induction x) auto

lemma split_joined:
  "xs \<noteq> [] \<Longrightarrow> \<forall>x\<in>set xs. sep \<notin> set x \<Longrightarrow> strings_split sep (joined sep xs) = xs"
  by (induction sep xs rule: joined.induct) (auto simp: split_plain split_append)

lemma split_iff:
  "strings_split sep s = xs \<longleftrightarrow> xs \<noteq> [] \<and> s = joined sep xs \<and> (\<forall>x\<in>set xs. sep \<notin> set x)"
  using joined_split split_not_Nil split_parts split_joined by metis

lemma split_all:
  "list_all P (strings_split sep s) \<longleftrightarrow>
     (\<exists>xs. xs \<noteq> [] \<and> s = joined sep xs \<and> (\<forall>x\<in>set xs. sep \<notin> set x \<and> P x))"
  by (metis list_all_iff split_iff)

subsection \<open>The grammars\<close>

text \<open>Words of lowercase letters and digits, joined by single hyphens, the first starting with a letter.\<close>

definition kebab_word :: "string \<Rightarrow> bool" where
  "kebab_word w \<longleftrightarrow> w \<noteq> [] \<and> (\<forall>c\<in>set w. lower c \<or> digit c)"

definition kebab_case :: "string \<Rightarrow> bool" where
  "kebab_case s \<longleftrightarrow> (\<exists>ws. ws \<noteq> [] \<and> (\<forall>w\<in>set ws. kebab_word w) \<and> s = joined (CHR ''-'') ws \<and> lower (hd s))"

text \<open>The backus-naur form of Semantic Versioning 2.0.\<close>

definition numeric_identifier :: "string \<Rightarrow> bool" where
  "numeric_identifier n \<longleftrightarrow> n = ''0'' \<or> n \<noteq> [] \<and> (\<forall>c\<in>set n. digit c) \<and> hd n \<noteq> CHR ''0''"

definition build_identifier :: "string \<Rightarrow> bool" where
  "build_identifier i \<longleftrightarrow> i \<noteq> [] \<and> (\<forall>c\<in>set i. digit c \<or> upper c \<or> lower c \<or> c = CHR ''-'')"

definition prerelease_identifier :: "string \<Rightarrow> bool" where
  "prerelease_identifier i \<longleftrightarrow> build_identifier i \<and> ((\<forall>c\<in>set i. digit c) \<longrightarrow> numeric_identifier i)"

definition optional_suffix :: "(string \<Rightarrow> bool) \<Rightarrow> char \<Rightarrow> string \<Rightarrow> bool" where
  "optional_suffix valid c s \<longleftrightarrow>
     s = [] \<or> (\<exists>ids. ids \<noteq> [] \<and> (\<forall>i\<in>set ids. valid i) \<and> s = c # joined (CHR ''.'') ids)"

definition semver :: "string \<Rightarrow> bool" where
  "semver v \<longleftrightarrow>
     (\<exists>major minor patch pre build.
        numeric_identifier major \<and> numeric_identifier minor \<and> numeric_identifier patch \<and>
        optional_suffix prerelease_identifier (CHR ''-'') pre \<and>
        optional_suffix build_identifier (CHR ''+'') build \<and>
        v = joined (CHR ''.'') [major, minor, patch] @ pre @ build)"

lemma number_iff: "validVersionNumber n \<longleftrightarrow> numeric_identifier n"
  by (cases n) (auto simp: validVersionNumber_def numeric_identifier_def list_all_iff digit_def neq_Nil_conv)

lemma identifier_iff:
  "validVersionIdentifier z i \<longleftrightarrow> (if z then prerelease_identifier i else build_identifier i)"
  by (cases i) (auto simp: validVersionIdentifier_def prerelease_identifier_def build_identifier_def
      numeric_identifier_def identifier_char_def list_all_iff digit_def)

lemma build_chars: "build_identifier i \<Longrightarrow> CHR ''.'' \<notin> set i \<and> CHR ''+'' \<notin> set i"
  by (force simp: build_identifier_def char_classes)

lemma numeric_chars: "numeric_identifier n \<Longrightarrow> CHR ''.'' \<notin> set n \<and> CHR ''+'' \<notin> set n \<and> CHR ''-'' \<notin> set n"
  by (force simp: numeric_identifier_def char_classes)

lemma prerelease_build: "prerelease_identifier i \<Longrightarrow> build_identifier i"
  by (simp add: prerelease_identifier_def)

lemma joined_not_Nil: "xs \<noteq> [] \<Longrightarrow> hd xs \<noteq> [] \<Longrightarrow> joined sep xs \<noteq> []"
  by (cases xs) (auto simp: joined_Cons)

lemma joined_set: "set (joined sep xs) \<subseteq> insert sep (\<Union> (set ` set xs))"
  by (induction sep xs rule: joined.induct) auto

definition identifier_of :: "bool \<Rightarrow> string \<Rightarrow> bool" where
  "identifier_of z i \<longleftrightarrow> (if z then prerelease_identifier i else build_identifier i)"

lemma identifier_of_build: "identifier_of z i \<Longrightarrow> build_identifier i"
  by (auto simp: identifier_of_def prerelease_identifier_def split: if_splits)

lemma identifiers_iff:
  "validVersionIdentifiers s z \<longleftrightarrow>
     (\<exists>ids. ids \<noteq> [] \<and> s = joined (CHR ''.'') ids \<and> (\<forall>i\<in>set ids. identifier_of z i))"
proof -
  have dots: "CHR ''.'' \<notin> set i \<and> validVersionIdentifier z i \<longleftrightarrow> identifier_of z i" for i
    using build_chars[of i] identifier_of_build[of z i] by (auto simp: identifier_iff identifier_of_def)
  have "[] \<noteq> joined (CHR ''.'') ids" if "ids \<noteq> []" "\<forall>i\<in>set ids. identifier_of z i" for ids
  proof -
    have "build_identifier (hd ids)" using that identifier_of_build hd_in_set by blast
    with that(1) show ?thesis
      using joined_not_Nil[of ids "CHR ''.''"] by (auto simp: build_identifier_def)
  qed
  then show ?thesis
    by (auto simp: validVersionIdentifiers_def split_all dots)
qed

lemma identifiers_chars:
  assumes "validVersionIdentifiers s z" shows "CHR ''+'' \<notin> set s"
proof -
  from assms obtain ids where s: "s = joined (CHR ''.'') ids" and ok: "\<forall>i\<in>set ids. identifier_of z i"
    unfolding identifiers_iff by blast
  have "CHR ''+'' \<notin> set i" if "i \<in> set ids" for i
    using ok that identifier_of_build build_chars by blast
  then show ?thesis using s joined_set[of "CHR ''.''" ids] by auto
qed

definition core_ok :: "string \<Rightarrow> bool" where
  "core_ok core \<longleftrightarrow> length (strings_split (CHR ''.'') core) = 3 \<and>
     list_all validVersionNumber (strings_split (CHR ''.'') core)"

lemma core_iff:
  "core_ok core \<longleftrightarrow>
     (\<exists>x y z. core = joined (CHR ''.'') [x, y, z] \<and> numeric_identifier x \<and> numeric_identifier y \<and> numeric_identifier z)"
  (is "_ \<longleftrightarrow> ?numbers")
proof
  assume ok: "core_ok core"
  then obtain x y z where parts: "strings_split (CHR ''.'') core = [x, y, z]"
    by (auto simp: core_ok_def length_Suc_conv numeral_3_eq_3)
  then have "core = joined (CHR ''.'') [x, y, z]" using joined_split by metis
  then show ?numbers using ok parts by (auto simp: core_ok_def number_iff)
next
  assume ?numbers
  then obtain x y z where core: "core = joined (CHR ''.'') [x, y, z]"
    and num: "numeric_identifier x" "numeric_identifier y" "numeric_identifier z" by blast
  then have "strings_split (CHR ''.'') core = [x, y, z]"
    using numeric_chars by (simp add: split_iff)
  then show "core_ok core" using num by (simp add: core_ok_def number_iff)
qed

lemma core_chars: "core_ok core \<Longrightarrow> CHR ''+'' \<notin> set core \<and> CHR ''-'' \<notin> set core"
  using numeric_chars by (auto simp: core_iff)

fun opt_part :: "char \<Rightarrow> string option \<Rightarrow> string" where
  "opt_part c None = []"
| "opt_part c (Some s) = c # s"

definition opt_ok :: "bool \<Rightarrow> string option \<Rightarrow> bool" where
  "opt_ok z part \<longleftrightarrow> (\<forall>s. part = Some s \<longrightarrow> validVersionIdentifiers s z)"

lemma opt_ok_simps [simp]: "opt_ok z None" "opt_ok z (Some s) = validVersionIdentifiers s z"
  by (simp_all add: opt_ok_def)

lemma semver_cut:
  assumes "strings_cut (CHR ''+'') v = (cp, build)" and "strings_cut (CHR ''-'') cp = (core, pre)"
  shows "validSemanticVersion v \<longleftrightarrow> opt_ok False build \<and> core_ok core \<and> opt_ok True pre"
  using assms by (cases build; cases pre) (auto simp: validSemanticVersion_def core_ok_def Let_def)

lemma cut_parts:
  assumes "CHR ''-'' \<notin> set core" "CHR ''+'' \<notin> set (core @ opt_part (CHR ''-'') pre)"
  shows "strings_cut (CHR ''+'') (core @ opt_part (CHR ''-'') pre @ opt_part (CHR ''+'') build) =
      (core @ opt_part (CHR ''-'') pre, build)"
    and "strings_cut (CHR ''-'') (core @ opt_part (CHR ''-'') pre) = (core, pre)"
proof -
  show "strings_cut (CHR ''+'') (core @ opt_part (CHR ''-'') pre @ opt_part (CHR ''+'') build) =
      (core @ opt_part (CHR ''-'') pre, build)"
    using assms(2) cut_plain[of "CHR ''+''" "core @ opt_part (CHR ''-'') pre"]
      cut_append[of "CHR ''+''" "core @ opt_part (CHR ''-'') pre"] by (cases build) auto
  show "strings_cut (CHR ''-'') (core @ opt_part (CHR ''-'') pre) = (core, pre)"
    using assms(1) by (cases pre) (auto simp: cut_plain cut_append)
qed

lemma semver_parts:
  "validSemanticVersion v \<longleftrightarrow>
     (\<exists>core pre build. v = core @ opt_part (CHR ''-'') pre @ opt_part (CHR ''+'') build \<and>
        core_ok core \<and> opt_ok True pre \<and> opt_ok False build)"
  (is "_ \<longleftrightarrow> ?parts")
proof
  assume valid: "validSemanticVersion v"
  obtain cp build where plus: "strings_cut (CHR ''+'') v = (cp, build)" by fastforce
  obtain core pre where hyphen: "strings_cut (CHR ''-'') cp = (core, pre)" by fastforce
  have "v = cp @ opt_part (CHR ''+'') build" using plus by (cases rule: cut_cases[of "CHR ''+''" v]) auto
  moreover have "cp = core @ opt_part (CHR ''-'') pre"
    using hyphen by (cases rule: cut_cases[of "CHR ''-''" cp]) auto
  ultimately show ?parts using valid semver_cut[OF plus hyphen] by auto
next
  assume ?parts
  then obtain core pre build where v: "v = core @ opt_part (CHR ''-'') pre @ opt_part (CHR ''+'') build"
    and ok: "core_ok core" "opt_ok True pre" "opt_ok False build" by blast
  have "CHR ''+'' \<notin> set (core @ opt_part (CHR ''-'') pre)"
    using ok core_chars identifiers_chars by (cases pre) auto
  then show "validSemanticVersion v"
    using ok core_chars cut_parts semver_cut unfolding v by blast
qed

lemma opt_part_iff:
  "(\<exists>part. opt_ok z part \<and> rest = opt_part c part) \<longleftrightarrow> optional_suffix (identifier_of z) c rest"
proof -
  have "(\<exists>part. opt_ok z part \<and> rest = opt_part c part) \<longleftrightarrow>
      rest = [] \<or> (\<exists>s. validVersionIdentifiers s z \<and> rest = c # s)"
    by (metis opt_ok_simps opt_part.simps option.exhaust)
  then show ?thesis by (auto simp: optional_suffix_def identifiers_iff)
qed

lemma identifier_of_simps: "identifier_of True = prerelease_identifier" "identifier_of False = build_identifier"
  by (simp_all add: fun_eq_iff identifier_of_def)

lemma semver_iff: "validSemanticVersion v \<longleftrightarrow> semver v"
proof -
  have "validSemanticVersion v \<longleftrightarrow>
     (\<exists>core p b. v = core @ p @ b \<and> core_ok core \<and>
        (\<exists>pre. opt_ok True pre \<and> p = opt_part (CHR ''-'') pre) \<and>
        (\<exists>build. opt_ok False build \<and> b = opt_part (CHR ''+'') build))"
    unfolding semver_parts by blast
  also have "\<dots> \<longleftrightarrow> semver v"
    unfolding opt_part_iff core_iff semver_def identifier_of_simps by blast
  finally show ?thesis .
qed

lemma kebab_word_plain: "kebab_word w \<Longrightarrow> CHR ''-'' \<notin> set w"
  by (force simp: kebab_word_def char_classes)

lemma name_loop_iff:
  assumes "prev \<longrightarrow> s \<noteq> []"
  shows "name_loop prev s \<longleftrightarrow>
    (\<forall>c\<in>set (hd (strings_split (CHR ''-'') s)). lower c \<or> digit c) \<and>
    (prev \<longrightarrow> hd (strings_split (CHR ''-'') s) \<noteq> []) \<and>
    (\<forall>w\<in>set (tl (strings_split (CHR ''-'') s)). kebab_word w)"
  using assms
proof (induction s arbitrary: prev)
  case (Cons c cs)
  obtain p ps where parts: "strings_split (CHR ''-'') cs = p # ps"
    using split_not_Nil by (meson neq_Nil_conv)
  show ?case
  proof (cases "c = CHR ''-''")
    case True
    have "\<not> kebab_word p" if "cs = []" using that parts by (simp add: kebab_word_def)
    with True parts show ?thesis using Cons.IH[of True] by (auto simp: kebab_word_def)
  next
    case False
    then show ?thesis using Cons.IH[of False] parts by auto
  qed
qed simp

lemma kebab_case_iff: "kebab_case s \<longleftrightarrow> s \<noteq> [] \<and> lower (hd s) \<and> name_loop False (tl s)"
proof -
  have words: "(\<exists>ws. ws \<noteq> [] \<and> (\<forall>w\<in>set ws. kebab_word w) \<and> s = joined (CHR ''-'') ws) \<longleftrightarrow>
      list_all kebab_word (strings_split (CHR ''-'') s)"
    using kebab_word_plain unfolding split_all by blast
  show ?thesis
  proof (cases s)
    case Nil
    then show ?thesis using words by (auto simp: kebab_case_def kebab_word_def)
  next
    case (Cons c cs)
    obtain p ps where parts: "strings_split (CHR ''-'') cs = p # ps"
      using split_not_Nil by (meson neq_Nil_conv)
    have "lower c \<Longrightarrow> c \<noteq> CHR ''-''" by (auto simp: lower_def)
    then have "lower c \<Longrightarrow> list_all kebab_word (strings_split (CHR ''-'') s) \<longleftrightarrow> name_loop False cs"
      using Cons parts name_loop_iff[of False cs] by (auto simp: kebab_word_def list_all_iff)
    then show ?thesis using words Cons by (auto simp: kebab_case_def)
  qed
qed

lemma kebab_printable:
  assumes "kebab_case s" shows "\<forall>c\<in>set s. printable c"
proof -
  from assms obtain ws where s: "s = joined (CHR ''-'') ws" and ws: "\<forall>w\<in>set ws. kebab_word w"
    by (auto simp: kebab_case_def)
  have "printable c" if "w \<in> set ws" "c \<in> set w" for c w
    using that ws by (force simp: kebab_word_def char_classes printable_def)
  then show ?thesis using s joined_set[of "CHR ''-''" ws] by (auto simp: printable_def)
qed

lemma strip_rune_Nil: "strip_rune rs [] = None"
  by (induction rs) auto

lemma validCommandName_iff: "validCommandName s \<longleftrightarrow> kebab_case s \<and> length s \<le> 128"
proof -
  have "trim_space s \<noteq> []" if "kebab_case s"
  proof -
    have "s \<noteq> []" using that by (simp add: kebab_case_iff)
    then show ?thesis using kebab_printable[OF that] by (simp add: trim_space_plain)
  qed
  moreover have "trim_space [] = []"
    by (simp add: trim_space_def trim_runes.simps strip_rune_Nil)
  ultimately show ?thesis
    by (auto simp: validCommandName_def validRuntimeIdentity_def MaxRuntimeIdentityBytes_def kebab_case_iff)
qed

text \<open>C32. \<^bold>\<open>The identity scanners accept exactly their grammars.\<close> A service or command name is accepted
  exactly when it is lowercase kebab case of at most 128 bytes, and a version exactly when it is
  derived by the grammar of Semantic Versioning: three numbers without leading zeros, optionally
  prerelease identifiers whose numeric ones have no leading zero, optionally build identifiers. An
  identity is valid exactly when its name, version, commit and build time are, the last three when
  present.\<close>

theorem identity_grammar:
  shows "(validCommandName name \<longleftrightarrow> kebab_case name \<and> length name \<le> 128) \<and>
    (validSemanticVersion version \<longleftrightarrow> semver version) \<and>
    (validateIdentity a identity = NilErr \<longleftrightarrow>
      kebab_case (id_Name identity) \<and> length (id_Name identity) \<le> 128 \<and>
      (id_Version identity = [] \<or> semver (id_Version identity)) \<and>
      (id_Commit identity = [] \<or>
        7 \<le> length (id_Commit identity) \<and> length (id_Commit identity) \<le> 64 \<and> list_all hex_digit (id_Commit identity)) \<and>
      (id_BuildTime identity = [] \<or> valid_rfc3339 (id_BuildTime identity)))"
proof -
  have c1: "validCommandName name \<longleftrightarrow> kebab_case name \<and> length name \<le> 128" by (rule validCommandName_iff)
  have c2: "validSemanticVersion version \<longleftrightarrow> semver version" by (rule semver_iff)
  have "validCommandName s \<Longrightarrow> trim_space s \<noteq> []" for s
    by (auto simp: validCommandName_def validRuntimeIdentity_def split: if_splits)
  then have c3: "validateIdentity a identity = NilErr \<longleftrightarrow>
      kebab_case (id_Name identity) \<and> length (id_Name identity) \<le> 128 \<and>
      (id_Version identity = [] \<or> semver (id_Version identity)) \<and>
      (id_Commit identity = [] \<or>
        7 \<le> length (id_Commit identity) \<and> length (id_Commit identity) \<le> 64 \<and> list_all hex_digit (id_Commit identity)) \<and>
      (id_BuildTime identity = [] \<or> valid_rfc3339 (id_BuildTime identity))"
    by (auto simp: validateIdentity_def validSourceRevision_def list_all_iff validCommandName_iff semver_iff)
  show ?thesis using c1 c2 c3 by blast
qed

lemma identity_examples:
  "validSemanticVersion ''1.2.0-rc.1+build.007'' \<and> \<not> validSemanticVersion ''1.02.0'' \<and> \<not> validSemanticVersion ''1.2.0-01''"
  "name_loop False ''mport-v2'' \<and> \<not> name_loop False ''mport--v2'' \<and> \<not> name_loop False ''v2-''"
  "valid_rfc3339 ''2024-02-29T08:30:00.25+02:00'' \<and> \<not> valid_rfc3339 ''2023-02-29T08:30:00Z''"
  by code_simp+

end
