(* ===== verification/Shutdown_Budget.thy ===== *)
theory Shutdown_Budget
  imports Lifecycle
begin

section \<open>The two-phase shutdown budget\<close>

text \<open>
  Models \<^verbatim>\<open>shutdown_budget.go\<close> and \<^verbatim>\<open>classifyShutdownError\<close> of \<^verbatim>\<open>platform.go\<close>: the waiter context of a
  platform shutdown, its timer and the moving deadline, as a transition system in which time
  passes, the timer fires and its callback runs, each at its own moment.
\<close>

subsection \<open>Waiters\<close>

text \<open>\<^verbatim>\<open>errors.Is\<close> for a comparable target: the first match of the depth-first walk.\<close>

definition errors_is :: "go_error \<Rightarrow> go_error \<Rightarrow> bool" where
  "errors_is err target = list_ex (\<lambda>t. t = target \<or> is_hook t target) (preorder err)"

datatype timer = TimerArmed go_time | TimerStopped | TimerFired

fun timer_stop :: "timer \<Rightarrow> timer \<times> bool" where
  "timer_stop (TimerArmed _) = (TimerStopped, True)"
| "timer_stop t = (t, False)"

record budget =
  bg_ctx :: ctx_state
  bg_component :: duration
  bg_timer :: timer
  bg_deadline :: go_time
  bg_components :: bool

datatype waiter = SingleDeadline go_time ctx_state | TwoPhase budget

definition newShutdownContext :: "service \<Rightarrow> go_time \<Rightarrow> duration \<Rightarrow> waiter" where
  "newShutdownContext runtime now limit =
     (if componentStopTimeout runtime \<le> 0 then SingleDeadline (now + limit) CtxActive
      else TwoPhase \<lparr>bg_ctx = CtxActive, bg_component = componentStopTimeout runtime,
             bg_timer = TimerArmed (now + limit), bg_deadline = now + limit, bg_components = False\<rparr>)"

definition budget_release :: "budget \<Rightarrow> budget" where
  "budget_release b = b\<lparr>bg_timer := fst (timer_stop (bg_timer b)),
     bg_ctx := cancel_cause (Sentinel Canceled) (bg_ctx b)\<rparr>"

definition budget_expire :: "budget \<Rightarrow> budget" where
  "budget_expire b = b\<lparr>bg_ctx := cancel_cause (Sentinel DeadlineExceeded) (bg_ctx b)\<rparr>"

fun shutdownDeadline :: "waiter \<Rightarrow> go_time" where
  "shutdownDeadline (SingleDeadline d _) = d"
| "shutdownDeadline (TwoPhase b) = bg_deadline b"

definition begin_components :: "go_time \<Rightarrow> budget \<Rightarrow> budget" where
  "begin_components now b =
     (if \<not> bg_components b \<and> ctx_err (bg_ctx b) = NilErr then
        let (timer, stopped) = timer_stop (bg_timer b) in
        if stopped then b\<lparr>bg_components := True, bg_deadline := now + bg_component b,
          bg_timer := TimerArmed (now + bg_component b)\<rparr>
        else b\<lparr>bg_timer := timer\<rparr>
      else b)"

text \<open>
  The context the component stops run under: its own deadline, and every cancellation of the
  waiter but the waiter's own expiry.
\<close>

definition propagate :: "ctx_state \<Rightarrow> ctx_state \<Rightarrow> ctx_state" where
  "propagate waiter phase =
     (if errors_is (ctx_cause waiter) (Sentinel DeadlineExceeded) then phase
      else cancel_cause (ctx_cause waiter) phase)"

definition withPhaseDeadline :: "ctx_state \<Rightarrow> go_time \<Rightarrow> go_time \<Rightarrow> ctx_state" where
  "withPhaseDeadline waiter now deadline =
     (let phase = (if deadline \<le> now then deadline_passes CtxActive else CtxActive)
      in if ctx_err waiter \<noteq> NilErr then propagate waiter phase else phase)"

fun beginComponentStop :: "go_time \<Rightarrow> waiter \<Rightarrow> waiter \<times> ctx_state" where
  "beginComponentStop now (SingleDeadline d ctx) = (SingleDeadline d ctx, ctx)"
| "beginComponentStop now (TwoPhase b) =
     (let b = begin_components now b
      in (TwoPhase b, withPhaseDeadline (bg_ctx b) now (bg_deadline b)))"

definition budgetedShutdown :: "addr \<Rightarrow> waiter \<Rightarrow> go_time \<Rightarrow> go_error \<Rightarrow> go_error" where
  "budgetedShutdown a waiter now err =
     (case waiter of
        SingleDeadline _ _ \<Rightarrow> err
      | TwoPhase b \<Rightarrow>
          if err = NilErr \<or> errors_is err (Sentinel DeadlineExceeded) then err
          else if bg_components b \<and> \<not> now < bg_deadline b
          then errors_join a [Sentinel DeadlineExceeded, err]
          else err)"

definition classifyShutdownError :: "addr \<Rightarrow> go_error \<Rightarrow> go_error" where
  "classifyShutdownError a err =
     (if classificationIs err (Sentinel DeadlineExceeded) then ShutdownTimeoutError a err else err)"

subsection \<open>The budget over time\<close>

text \<open>The ghost fields keep when the waiter was created, its total allowance and the phase change.\<close>

record budget_sys =
  clock :: go_time
  bud :: budget
  born :: go_time
  allowance :: duration
  begun :: "go_time option"

inductive budget_step :: "budget_sys \<Rightarrow> budget_sys \<Rightarrow> bool" where
  time_passes: "clock x \<le> t \<Longrightarrow> budget_step x (x\<lparr>clock := t\<rparr>)"
| timer_fires: "bg_timer (bud x) = TimerArmed t \<Longrightarrow> t \<le> clock x \<Longrightarrow>
     budget_step x (x\<lparr>bud := (bud x)\<lparr>bg_timer := TimerFired\<rparr>\<rparr>)"
| timer_expires: "bg_timer (bud x) = TimerFired \<Longrightarrow> budget_step x (x\<lparr>bud := budget_expire (bud x)\<rparr>)"
| waiter_returns: "budget_step x (x\<lparr>bud := budget_release (bud x)\<rparr>)"
| stops_begin: "beginComponentStop (clock x) (TwoPhase (bud x)) = (TwoPhase b, phase) \<Longrightarrow>
     budget_step x (x\<lparr>bud := b,
       begun := if bg_components b \<and> \<not> bg_components (bud x) then Some (clock x) else begun x\<rparr>)"

definition budget_init :: "budget_sys \<Rightarrow> bool" where
  "budget_init x \<longleftrightarrow> (\<exists>runtime now limit b. newShutdownContext runtime now limit = TwoPhase b \<and>
     x = \<lparr>clock = now, bud = b, born = now, allowance = limit, begun = None\<rparr>)"

definition budget_inv :: "budget_sys \<Rightarrow> bool" where
  "budget_inv x \<longleftrightarrow> (let b = bud x in
     born x \<le> clock x \<and> 0 < bg_component b \<and> bg_components b = (begun x \<noteq> None) \<and>
     (\<forall>t. bg_timer b = TimerArmed t \<longrightarrow> t = bg_deadline b) \<and>
     bg_deadline b = (case begun x of None \<Rightarrow> born x + allowance x | Some t \<Rightarrow> t + bg_component b) \<and>
     (\<forall>t. begun x = Some t \<longrightarrow> born x \<le> t \<and> t \<le> clock x))"

lemmas budget_defs = begin_components_def budget_expire_def budget_release_def Let_def

lemma timer_stop_iff: "timer_stop t = (u, True) \<longleftrightarrow> (\<exists>d. t = TimerArmed d) \<and> u = TimerStopped"
  by (cases t) auto

lemma timer_stop_not_armed: "fst (timer_stop t) \<noteq> TimerArmed d"
  by (cases t) auto

lemma begin_cases:
  assumes "begin_components now b = b'"
  shows "b' = b \<or>
    (\<exists>d. \<not> bg_components b \<and> ctx_err (bg_ctx b) = NilErr \<and> bg_timer b = TimerArmed d \<and>
       b' = b\<lparr>bg_components := True, bg_deadline := now + bg_component b,
              bg_timer := TimerArmed (now + bg_component b)\<rparr>)"
  using assms by (cases "bg_timer b") (auto simp: begin_components_def split: if_splits)

lemma budget_inv_step:
  assumes "budget_step x y" and "budget_inv x"
  shows "budget_inv y"
  using assms
proof (induction rule: budget_step.induct)
  case (stops_begin x b phase)
  then have "begin_components (clock x) (bud x) = b" by (simp add: Let_def)
  from begin_cases[OF this] stops_begin(2) show ?case by (auto simp: budget_inv_def Let_def)
qed (auto simp: budget_inv_def budget_defs timer_stop_not_armed split: option.splits)

interpretation budget: safe_system budget_init budget_step budget_inv
proof
  fix x y :: budget_sys
  show "budget_init x \<Longrightarrow> budget_inv x"
    by (auto simp: budget_init_def budget_inv_def newShutdownContext_def Let_def split: if_splits)
  show "budget_inv x \<Longrightarrow> budget_step x y \<Longrightarrow> budget_inv y"
    by (rule budget_inv_step)
qed

lemma demo_budget_reachable:
  "reachable budget_init budget_step
     \<lparr>clock = 4, bud = \<lparr>bg_ctx = CtxActive, bg_component = 5, bg_timer = TimerArmed 9, bg_deadline = 9,
        bg_components = True\<rparr>, born = 0, allowance = 10, begun = Some 4\<rparr>" (is "reachable _ _ ?x")
proof -
  let ?b = "\<lparr>bg_ctx = CtxActive, bg_component = 5, bg_timer = TimerArmed 10, bg_deadline = 10, bg_components = False\<rparr>"
  let ?start = "\<lparr>clock = 0, bud = ?b, born = 0, allowance = 10, begun = None\<rparr>"
  have "newShutdownContext (zero_service\<lparr>componentStopTimeout := 5\<rparr>) 0 10 = TwoPhase ?b"
    by (simp add: newShutdownContext_def zero_service_def)
  then have "reachable budget_init budget_step ?start"
    by (intro reachable_init) (auto simp: budget_init_def)
  from reachable_step[OF this time_passes[of _ 4]]
  have r: "reachable budget_init budget_step (?start\<lparr>clock := 4\<rparr>)" by simp
  have "budget_step (?start\<lparr>clock := 4\<rparr>) ?x"
    using stops_begin[of "?start\<lparr>clock := 4\<rparr>" "bud ?x"] by (simp add: begin_components_def)
  with r show ?thesis by (rule reachable_step)
qed

subsection \<open>Properties\<close>

text \<open>C13. One deadline applies at a time and it moves at most once: before the component phase it is
  creation plus the total allowance, afterwards the moment the phase began plus the component
  allowance, and an armed timer always stands at the current deadline.\<close>

theorem budget_one_deadline:
  assumes "reachable budget_init budget_step x"
  shows "(\<forall>t. bg_timer (bud x) = TimerArmed t \<longrightarrow> t = shutdownDeadline (TwoPhase (bud x))) \<and>
    (if bg_components (bud x)
     then \<exists>t. begun x = Some t \<and> born x \<le> t \<and> t \<le> clock x \<and>
            shutdownDeadline (TwoPhase (bud x)) = t + bg_component (bud x)
     else shutdownDeadline (TwoPhase (bud x)) = born x + allowance x)"
  using budget.reachable_inv[OF assms] by (auto simp: budget_inv_def Let_def split: option.splits)

theorem budget_one_deadline_witness:
  "shutdownDeadline (TwoPhase \<lparr>bg_ctx = CtxActive, bg_component = 5, bg_timer = TimerArmed 9, bg_deadline = 9,
     bg_components = True\<rparr>) = 4 + 5"
  using budget_one_deadline[OF demo_budget_reachable] by simp

text \<open>No fresh allowance is earned twice or too late: once the component phase has begun, the timer
  has fired, or the waiter was cancelled, no step moves the deadline.\<close>

theorem budget_never_extended:
  assumes "budget_step x y"
    and "bg_components (bud x) \<or> bg_timer (bud x) = TimerFired \<or> ctx_err (bg_ctx (bud x)) \<noteq> NilErr"
  shows "bg_deadline (bud y) = bg_deadline (bud x)"
  using assms
proof (induction rule: budget_step.induct)
  case (stops_begin x b phase)
  then have "begin_components (clock x) (bud x) = b" by (simp add: Let_def)
  from begin_cases[OF this] stops_begin(2) show ?case by auto
qed (simp_all add: budget_expire_def budget_release_def)

theorem budget_never_extended_witness:
  "bg_deadline (bud (\<lparr>clock = 7, bud = \<lparr>bg_ctx = CtxActive, bg_component = 5, bg_timer = TimerFired,
     bg_deadline = 6, bg_components = False\<rparr>, born = 0, allowance = 6, begun = None\<rparr>\<lparr>clock := 8\<rparr>)) = 6"
  using budget_never_extended[OF time_passes[of "\<lparr>clock = 7, bud = \<lparr>bg_ctx = CtxActive, bg_component = 5,
     bg_timer = TimerFired, bg_deadline = 6, bg_components = False\<rparr>, born = 0, allowance = 6, begun = None\<rparr>" 8]]
  by simp

lemma errors_is_classified:
  "errors_is err (Sentinel t) \<Longrightarrow> classificationIs err (Sentinel t)"
  by (cases "err = NilErr") (auto simp: errors_is_def classificationIs_iff list_ex_iff)

lemma errors_is_join: "e \<noteq> NilErr \<Longrightarrow> errors_is e t \<Longrightarrow> errors_is (errors_join a (e # es)) t"
  by (simp add: errors_is_def errors_join_def preorder.simps[of "JoinError _ _"] children_def)

text \<open>An expired component phase is always classified as a shutdown timeout: if any stop failed
  and the component deadline has passed, the caller gets a ShutdownTimeoutError, whatever error
  the stop itself returned; a nil result stays nil.\<close>

theorem expired_budget_is_timeout:
  assumes "bg_components b" and "bg_deadline b \<le> now"
  shows "classifyShutdownError a (budgetedShutdown c (TwoPhase b) now err) =
    (if err = NilErr then NilErr else ShutdownTimeoutError a (budgetedShutdown c (TwoPhase b) now err))"
proof (cases "err = NilErr")
  case False
  have "errors_is (Sentinel DeadlineExceeded) (Sentinel DeadlineExceeded)"
    by (simp add: errors_is_def preorder.simps)
  with False assms have "errors_is (budgetedShutdown c (TwoPhase b) now err) (Sentinel DeadlineExceeded)"
    by (auto simp: budgetedShutdown_def intro: errors_is_join)
  with False show ?thesis by (simp add: classifyShutdownError_def errors_is_classified)
qed (simp add: budgetedShutdown_def classifyShutdownError_def classificationIs_def)

theorem expired_budget_is_timeout_witness:
  "\<exists>e. classifyShutdownError 1 (budgetedShutdown 2 (TwoPhase \<lparr>bg_ctx = CtxActive, bg_component = 5,
     bg_timer = TimerFired, bg_deadline = 6, bg_components = True\<rparr>) 8 (ErrorString 3 ''stop failed'')) =
     ShutdownTimeoutError 1 e"
  using expired_budget_is_timeout[of "\<lparr>bg_ctx = CtxActive, bg_component = 5, bg_timer = TimerFired,
    bg_deadline = 6, bg_components = True\<rparr>" 8 1 2 "ErrorString 3 ''stop failed''"] by simp

text \<open>The stops' context ends only for a reason that is theirs: the waiter's own expiry does not
  reach it, an escalation reaches it with its cause, and otherwise it ends exactly at the deadline.\<close>

theorem phase_context_causes:
  "(ctx_err waiter = NilErr \<longrightarrow> withPhaseDeadline waiter now deadline =
      (if deadline \<le> now then CtxDone (Sentinel DeadlineExceeded) (Sentinel DeadlineExceeded) else CtxActive)) \<and>
   (ctx_err waiter \<noteq> NilErr \<and> errors_is (ctx_cause waiter) (Sentinel DeadlineExceeded) \<longrightarrow>
      withPhaseDeadline waiter now deadline = withPhaseDeadline CtxActive now deadline) \<and>
   (ctx_err waiter \<noteq> NilErr \<and> ctx_cause waiter \<noteq> NilErr \<and> now < deadline \<and>
      \<not> errors_is (ctx_cause waiter) (Sentinel DeadlineExceeded) \<longrightarrow>
      withPhaseDeadline waiter now deadline = CtxDone (Sentinel Canceled) (ctx_cause waiter))"
  by (simp add: withPhaseDeadline_def propagate_def deadline_passes_def cancel_cause_def Let_def)

theorem phase_context_causes_witness:
  "withPhaseDeadline (CtxDone (Sentinel Canceled) (Sentinel ErrSignal)) 1 9 =
     CtxDone (Sentinel Canceled) (Sentinel ErrSignal)"
  using phase_context_causes[of "CtxDone (Sentinel Canceled) (Sentinel ErrSignal)" 1 9]
  by (simp add: errors_is_def preorder.simps children_def)

end
