(* ===== verification/Exit_Codes.thy ===== *)
theory Exit_Codes
  imports Shutdown_Budget
begin

section \<open>Exit codes\<close>

text \<open>
  Models \<^verbatim>\<open>exitCode\<close>, \<^verbatim>\<open>exitCodeWithDefault\<close>, \<^verbatim>\<open>preserveCommandSignal\<close> and \<^verbatim>\<open>Execute\<close> of
  \<^verbatim>\<open>platform.go\<close>. The command-line library is the world: \<^verbatim>\<open>Execute\<close> takes what compiling the
  definition gave, what the library's run returned, and what the command handler left in the
  execution state. An error is sorted by the first of ten questions that the bounded walk of
  \<^verbatim>\<open>classification.go\<close> answers with yes.
\<close>

subsection \<open>The types the walk asks for\<close>

fun is_ShutdownTimeoutError :: "go_error \<Rightarrow> bool" where
  "is_ShutdownTimeoutError (ShutdownTimeoutError _ _) = True"
| "is_ShutdownTimeoutError _ = False"

fun is_ShutdownError :: "go_error \<Rightarrow> bool" where
  "is_ShutdownError (ShutdownError _ _) = True"
| "is_ShutdownError _ = False"

fun is_SignalError :: "go_error \<Rightarrow> bool" where
  "is_SignalError (SignalError _ _) = True"
| "is_SignalError _ = False"

fun is_ConfigurationError :: "go_error \<Rightarrow> bool" where
  "is_ConfigurationError (ConfigurationError _ _ _) = True"
| "is_ConfigurationError _ = False"

fun is_StartupError :: "go_error \<Rightarrow> bool" where
  "is_StartupError (StartupError _ _ _ _) = True"
| "is_StartupError _ = False"

fun is_MaintenanceError :: "go_error \<Rightarrow> bool" where
  "is_MaintenanceError (MaintenanceError _ _ _) = True"
| "is_MaintenanceError _ = False"

fun is_ConstructionError :: "go_error \<Rightarrow> bool" where
  "is_ConstructionError (ConstructionError _ _ _) = True"
| "is_ConstructionError _ = False"

fun is_CliErr :: "go_error \<Rightarrow> bool" where
  "is_CliErr (CliErr _ _ _) = True"
| "is_CliErr _ = False"

fun signal_of :: "go_error \<Rightarrow> os_signal" where
  "signal_of (SignalError _ s) = s"
| "signal_of _ = OtherSignal 0"

fun cli_kind_of :: "go_error \<Rightarrow> cli_kind" where
  "cli_kind_of (CliErr _ k _) = k"
| "cli_kind_of _ = ErrorKindOther"

subsection \<open>Classification\<close>

definition cli_exit :: "cli_kind \<Rightarrow> int" where
  "cli_exit kind =
     (if kind \<in> {ErrorKindHelp, ErrorKindVersion} then 0
      else if kind \<in> {ErrorKindUnknownCommand, ErrorKindUnknownOption, ErrorKindMissingValue,
                      ErrorKindUsage, ErrorKindMalformedValue} then 2
      else if kind = ErrorKindCommand then 1
      else 70)"

definition exitCodeWithDefault :: "go_error \<Rightarrow> int \<Rightarrow> int" where
  "exitCodeWithDefault err fallback =
     (if classificationAs is_ShutdownTimeoutError err \<noteq> None then 124
      else if classificationAs is_ShutdownError err \<noteq> None then 70
      else case classificationAs is_SignalError err of
        Some signalError \<Rightarrow> if signal_of signalError = Interrupt then 130 else 143
      | None \<Rightarrow>
      if classificationAs is_ConfigurationError err \<noteq> None then 78
      else if classificationIs err (Sentinel ErrInvalidDefinition) then 70
      else if classificationAs is_StartupError err \<noteq> None then 75
      else if classificationAs is_MaintenanceError err \<noteq> None then 75
      else if classificationAs is_ConstructionError err \<noteq> None then 70
      else case classificationAs is_CliErr err of
        Some cliError \<Rightarrow> cli_exit (cli_kind_of cliError)
      | None \<Rightarrow> fallback)"

definition exitCode :: "go_error \<Rightarrow> int" where
  "exitCode err = exitCodeWithDefault err 70"

definition preserveCommandSignal :: "addr \<Rightarrow> ctx_state \<Rightarrow> go_error \<Rightarrow> go_error" where
  "preserveCommandSignal a ctx err =
     (let cause = ctx_cause ctx in
      if \<not> classificationIs cause (Sentinel ErrSignal) \<or> classificationIs err cause then err
      else errors_join a [err, cause])"

datatype command_kind = CommandKindLongRunning | CommandKindOneShot | CommandKindUnknown nat

record execution_state =
  ex_selected :: "command_kind option"
  ex_commandErr :: go_error

record cli_result =
  cr_Err :: go_error
  cr_ExitCode :: int

definition Execute ::
    "addr \<Rightarrow> bool \<Rightarrow> bool \<Rightarrow> bool \<Rightarrow> go_error \<Rightarrow> ctx_state \<Rightarrow> execution_state \<Rightarrow> cli_result \<Rightarrow> int" where
  "Execute a ctx_present stdout_present stderr_present compileErr ctx state result =
     (if \<not> ctx_present \<or> \<not> stdout_present \<or> \<not> stderr_present then 70
      else if compileErr \<noteq> NilErr then exitCode compileErr
      else if cr_Err result = NilErr then cr_ExitCode result
      else if ex_selected state \<noteq> None \<and> ctx_err ctx \<noteq> NilErr \<and> classificationIs (cr_Err result) (ctx_cause ctx) then
        if ex_commandErr state \<noteq> NilErr \<and> \<not> isCancellationResult ctx (ex_commandErr state) then
          exitCodeWithDefault (ex_commandErr state)
            (if ex_selected state = Some CommandKindOneShot then 1 else 70)
        else 0
      else if ex_commandErr state \<noteq> NilErr \<and> classificationIs (cr_Err result) (ex_commandErr state) then
        exitCode (errors_join a [ex_commandErr state, cr_Err result])
      else exitCode (cr_Err result))"

subsection \<open>What a join preserves\<close>

text \<open>The ten questions in the order they are asked; the first yes decides.\<close>

definition asks :: "(go_error \<Rightarrow> bool) list" where
  "asks = [\<lambda>e. classificationAs is_ShutdownTimeoutError e \<noteq> None, \<lambda>e. classificationAs is_ShutdownError e \<noteq> None,
     \<lambda>e. classificationAs is_SignalError e \<noteq> None, \<lambda>e. classificationAs is_ConfigurationError e \<noteq> None,
     \<lambda>e. classificationIs e (Sentinel ErrInvalidDefinition), \<lambda>e. classificationAs is_StartupError e \<noteq> None,
     \<lambda>e. classificationAs is_MaintenanceError e \<noteq> None, \<lambda>e. classificationAs is_ConstructionError e \<noteq> None,
     \<lambda>e. classificationAs is_CliErr e \<noteq> None]"

fun first_yes :: "(go_error \<Rightarrow> bool) list \<Rightarrow> go_error \<Rightarrow> nat" where
  "first_yes [] e = 0"
| "first_yes (q # qs) e = (if q e then 0 else Suc (first_yes qs e))"

definition urgency :: "go_error \<Rightarrow> nat" where
  "urgency e = first_yes asks e"

lemma first_yes_or:
  assumes "\<forall>q\<in>set qs. q e \<longleftrightarrow> q x \<or> q y"
  shows "first_yes qs e = min (first_yes qs x) (first_yes qs y)"
  using assms by (induction qs) auto

lemma preorder_join2:
  assumes "x \<noteq> NilErr" "y \<noteq> NilErr"
  shows "preorder (errors_join a [x, y]) = JoinError a [x, y] # preorder x @ preorder y"
  using assms by (simp add: errors_join_def preorder_node children_def)

lemma classificationAs_join:
  assumes "x \<noteq> NilErr" "y \<noteq> NilErr" "\<And>es. \<not> ty (JoinError a es)"
  shows "classificationAs ty (errors_join a [x, y]) =
    (case classificationAs ty x of None \<Rightarrow> classificationAs ty y | Some v \<Rightarrow> Some v)"
  using assms
  by (auto simp: classificationAs_def walk_finds_first preorder_join2 find_append
      dest: find_hit split: option.splits)

lemma join_not_Nil: "x \<noteq> NilErr \<Longrightarrow> errors_join a [x, y] \<noteq> NilErr"
  by (simp add: errors_join_def)

lemma classificationIs_join:
  assumes "x \<noteq> NilErr" "y \<noteq> NilErr"
  shows "classificationIs (errors_join a [x, y]) (Sentinel t) \<longleftrightarrow>
    classificationIs x (Sentinel t) \<or> classificationIs y (Sentinel t)"
  using assms by (auto simp: classificationIs_iff join_not_Nil preorder_join2)

lemma urgency_join:
  assumes "x \<noteq> NilErr" "y \<noteq> NilErr"
  shows "urgency (errors_join a [x, y]) = min (urgency x) (urgency y)"
  unfolding urgency_def
  by (rule first_yes_or) (auto simp: asks_def classificationAs_join[OF assms] classificationIs_join[OF assms]
      split: option.splits)

lemma urgency_join_nil: "x \<noteq> NilErr \<Longrightarrow> urgency (errors_join a [x, NilErr]) = urgency x"
proof -
  assume x: "x \<noteq> NilErr"
  then have join: "preorder (errors_join a [x, NilErr]) = JoinError a [x] # preorder x"
    by (simp add: errors_join_def preorder_node children_def)
  have As: "classificationAs ty (errors_join a [x, NilErr]) = classificationAs ty x" if "\<not> ty (JoinError a [x])" for ty
    using that by (simp add: classificationAs_def walk_finds_first join)
  have Is: "classificationIs (errors_join a [x, NilErr]) (Sentinel t) = classificationIs x (Sentinel t)" for t
    using x by (simp add: classificationIs_iff join_not_Nil join)
  show ?thesis by (simp add: urgency_def asks_def As Is)
qed

lemma urgency_join_le: "x \<noteq> NilErr \<Longrightarrow> urgency (errors_join a [x, y]) \<le> urgency x"
  by (cases "y = NilErr") (simp_all add: urgency_join urgency_join_nil)

text \<open>The code of each class; signal and command-line errors carry their own.\<close>

definition class_code :: "nat \<Rightarrow> go_error \<Rightarrow> int \<Rightarrow> int" where
  "class_code k err fallback =
     (if k = 0 then 124 else if k = 1 then 70
      else if k = 2 then (if signal_of (the (classificationAs is_SignalError err)) = Interrupt then 130 else 143)
      else if k = 3 then 78 else if k = 4 then 70 else if k = 5 then 75 else if k = 6 then 75 else if k = 7 then 70
      else if k = 8 then cli_exit (cli_kind_of (the (classificationAs is_CliErr err))) else fallback)"

lemma exit_by_urgency: "exitCodeWithDefault err fallback = class_code (urgency err) err fallback"
  by (auto simp: exitCodeWithDefault_def class_code_def urgency_def asks_def split: option.splits)

lemma As_direct:
  assumes "ty err" "err \<noteq> NilErr"
  shows "classificationAs ty err = Some err"
  using assms by (simp add: classificationAs_def walk_finds_first preorder_node)

lemma As_present: "t \<in> set (preorder err) \<Longrightarrow> ty t \<Longrightarrow> classificationAs ty err \<noteq> None"
  by (auto simp: classificationAs_None)

lemma join_exit:
  assumes "x \<noteq> NilErr" "y \<noteq> NilErr"
  shows "exitCodeWithDefault (errors_join a [x, y]) fallback =
    (if urgency x \<le> urgency y then exitCodeWithDefault x fallback else exitCodeWithDefault y fallback)"
proof -
  have yes: "urgency e = 2 \<Longrightarrow> classificationAs is_SignalError e \<noteq> None"
    "urgency e = 8 \<Longrightarrow> classificationAs is_CliErr e \<noteq> None"
    "urgency e > 2 \<Longrightarrow> classificationAs is_SignalError e = None"
    "urgency e > 8 \<Longrightarrow> classificationAs is_CliErr e = None" for e
    by (auto simp: urgency_def asks_def split: if_splits)
  have "class_code (min (urgency x) (urgency y)) (errors_join a [x, y]) fallback =
      (if urgency x \<le> urgency y then class_code (urgency x) x fallback else class_code (urgency y) y fallback)"
    using yes[of x] yes[of y]
    by (auto simp: class_code_def min_def classificationAs_join[OF assms] split: option.splits)
  then show ?thesis by (simp add: exit_by_urgency urgency_join[OF assms])
qed

lemma exit_range: "exitCodeWithDefault err fallback \<in> {0, 1, 2, 70, 75, 78, 124, 130, 143, fallback}"
  by (auto simp: exit_by_urgency class_code_def cli_exit_def)

text \<open>C27. \<^bold>\<open>Exit codes have one order of urgency and joining failures never hides the more urgent one.\<close> Every
  code is one of the documented ones or the fallback. Of two joined failures the more urgent
  decides the code, the first on a tie: shutdown deadline, shutdown failure, signal, configuration,
  definition, startup, maintenance, construction, command line, anything else. A shutdown deadline
  anywhere in the tree is 124; an interrupt is 130 and any other signal 143.\<close>

theorem exit_code_priority:
  shows "(exitCodeWithDefault err fallback \<in> {0, 1, 2, 70, 75, 78, 124, 130, 143, fallback}) \<and>
    (x \<noteq> NilErr \<longrightarrow> y \<noteq> NilErr \<longrightarrow>
      urgency (errors_join a [x, y]) = min (urgency x) (urgency y) \<and>
      exitCodeWithDefault (errors_join a [x, y]) fallback =
        (if urgency x \<le> urgency y then exitCodeWithDefault x fallback else exitCodeWithDefault y fallback)) \<and>
    (t \<in> set (preorder err) \<longrightarrow> is_ShutdownTimeoutError t \<longrightarrow> exitCodeWithDefault err fallback = 124) \<and>
    (exitCode (SignalError a sig) = (if sig = Interrupt then 130 else 143)) \<and>
    (exitCode (ConfigurationError a command (ErrorString b reason)) = 78) \<and>
    (exitCode (StartupError a component (ErrorString b reason) []) = 75)"
proof -
  have c1: "exitCodeWithDefault err fallback \<in> {0, 1, 2, 70, 75, 78, 124, 130, 143, fallback}" by (rule exit_range)
  have c2: "x \<noteq> NilErr \<Longrightarrow> y \<noteq> NilErr \<Longrightarrow>
      urgency (errors_join a [x, y]) = min (urgency x) (urgency y) \<and>
      exitCodeWithDefault (errors_join a [x, y]) fallback =
        (if urgency x \<le> urgency y then exitCodeWithDefault x fallback else exitCodeWithDefault y fallback)"
    by (simp add: urgency_join join_exit)
  have c3: "t \<in> set (preorder err) \<Longrightarrow> is_ShutdownTimeoutError t \<Longrightarrow> exitCodeWithDefault err fallback = 124"
    by (simp add: exitCodeWithDefault_def As_present)
  have c4: "exitCode (SignalError a sig) = (if sig = Interrupt then 130 else 143)"
    and c5: "exitCode (ConfigurationError a command (ErrorString b reason)) = 78"
    and c6: "exitCode (StartupError a component (ErrorString b reason) []) = 75"
    by (simp_all add: exitCode_def exitCodeWithDefault_def classificationAs_def classificationIs_def
        walk_finds_first preorder_node children_def)
  show ?thesis using c1 c2 c3 c4 c5 c6 by blast
qed

theorem exit_code_priority_witness:
  "exitCode (errors_join 1 [SignalError 2 Interrupt, ShutdownTimeoutError 3 (Sentinel DeadlineExceeded)]) = 124"
proof -
  let ?t = "ShutdownTimeoutError 3 (Sentinel DeadlineExceeded)"
  have "?t \<in> set (preorder (errors_join 1 [SignalError 2 Interrupt, ?t]))"
    by (simp add: preorder_join2) (simp add: preorder_node)
  then have "exitCodeWithDefault (errors_join 1 [SignalError 2 Interrupt, ?t]) 70 = 124"
    using exit_code_priority by (metis is_ShutdownTimeoutError.simps(1))
  then show ?thesis by (simp add: exitCode_def)
qed

subsection \<open>Execute reports failed shutdowns\<close>

lemma acknowledged_child:
  assumes "acknowledges ctx err matched" and "\<not> is_cause ctx err" and "c \<in> set (children err)" and "c \<noteq> NilErr"
  shows "\<exists>m. acknowledges ctx c m"
  using assms(1)[unfolded acknowledges.simps[of ctx err matched]] assms(2-)
  by (cases "unwrap err") (auto simp: children_def)

lemma acknowledged_no_failure:
  assumes "\<forall>t\<in>set (preorder (ctx_cause ctx)). \<not> failed_operation t"
  shows "acknowledges ctx err matched \<Longrightarrow> t \<in> set (preorder err) \<Longrightarrow> \<not> failed_operation t"
proof (induction "weight err" arbitrary: err matched rule: less_induct)
  case less
  have err: "err \<noteq> NilErr" "\<not> failed_operation err"
    using less.prems(1) acknowledges.simps[of ctx err matched] by auto
  show ?case
  proof (cases "is_cause ctx err \<or> t = err")
    case True
    then show ?thesis using assms less.prems(2) err(2) by (auto simp: is_cause_def)
  next
    case False
    then obtain c where c: "c \<in> set (children err)" "t \<in> set (preorder c)"
      using less.prems(2) err(1) by (auto simp: preorder_node)
    then have "c \<noteq> NilErr" by auto
    then obtain m where "acknowledges ctx c m" using acknowledged_child less.prems(1) False c(1) by blast
    then show ?thesis using less.hyps child_lighter c by blast
  qed
qed

lemma timeout_failed: "is_ShutdownTimeoutError t \<Longrightarrow> failed_operation t"
  by (cases t) (auto simp: failed_operation_def)

text \<open>\<^bold>\<open>The process reports a shutdown that ran out of time whatever else happened.\<close> Suppose the
  command's handler returned an error with a shutdown deadline anywhere in its tree, and the
  command-line library reports an error that still matches the cancellation or the handler's error.
  Then the exit code is 124, also after a cancellation by the parent, provided the cancellation's
  cause is not itself such a failure. A parent's cancellation that the handler only acknowledges is
  the clean exit 0.\<close>

theorem execute_reports_deadline:
  assumes "t \<in> set (preorder (ex_commandErr state))" and "is_ShutdownTimeoutError t"
    and "cr_Err result \<noteq> NilErr"
    and "classificationIs (cr_Err result) (ctx_cause ctx) \<and> ex_selected state \<noteq> None \<and> ctx_err ctx \<noteq> NilErr \<or>
      classificationIs (cr_Err result) (ex_commandErr state)"
    and "\<forall>t\<in>set (preorder (ctx_cause ctx)). \<not> failed_operation t"
  shows "(Execute a True True True NilErr ctx state result = 124) \<and>
    (ctx_err ctx \<noteq> NilErr \<longrightarrow> ex_selected state' \<noteq> None \<longrightarrow> classificationIs (cr_Err result) (ctx_cause ctx) \<longrightarrow>
      isCancellationResult ctx (ex_commandErr state') \<or> ex_commandErr state' = NilErr \<longrightarrow>
      Execute a True True True NilErr ctx state' result = 0)"
proof -
  have err: "ex_commandErr state \<noteq> NilErr" using assms(1) by auto
  have "\<not> isCancellationResult ctx (ex_commandErr state)"
    using acknowledged_no_failure[OF assms(5) _ assms(1)] timeout_failed[OF assms(2)]
    by (auto simp: isCancellationResult_iff)
  moreover have "exitCodeWithDefault (ex_commandErr state) f = 124" for f
    using As_present[of t "ex_commandErr state" is_ShutdownTimeoutError] assms(1,2) by (simp add: exitCodeWithDefault_def)
  moreover have "exitCode (errors_join a [ex_commandErr state, cr_Err result]) = 124"
    unfolding exitCode_def exitCodeWithDefault_def
    using As_present[of t "errors_join a [ex_commandErr state, cr_Err result]" is_ShutdownTimeoutError]
      preorder_join2[OF err assms(3)] assms(1,2) by simp
  ultimately have c1: "Execute a True True True NilErr ctx state result = 124"
    using assms(3,4) err by (auto simp: Execute_def)
  have c2: "ctx_err ctx \<noteq> NilErr \<Longrightarrow> ex_selected state' \<noteq> None \<Longrightarrow> classificationIs (cr_Err result) (ctx_cause ctx) \<Longrightarrow>
      isCancellationResult ctx (ex_commandErr state') \<or> ex_commandErr state' = NilErr \<Longrightarrow>
      Execute a True True True NilErr ctx state' result = 0"
    using assms(3) by (auto simp: Execute_def)
  show ?thesis using c1 c2 by blast
qed

theorem execute_reports_deadline_witness:
  "Execute 1 True True True NilErr (CtxDone (Sentinel Canceled) (Sentinel Canceled))
     \<lparr>ex_selected = Some CommandKindOneShot, ex_commandErr = ShutdownTimeoutError 2 (Sentinel DeadlineExceeded)\<rparr>
     \<lparr>cr_Err = Sentinel Canceled, cr_ExitCode = 1\<rparr> = 124"
proof (rule execute_reports_deadline[where t = "ShutdownTimeoutError 2 (Sentinel DeadlineExceeded)", THEN conjunct1])
  show "\<forall>t\<in>set (preorder (ctx_cause (CtxDone (Sentinel Canceled) (Sentinel Canceled)))). \<not> failed_operation t"
    by (simp add: preorder_node children_def failed_operation_def)
qed (simp_all add: preorder_node children_def classificationIs_iff)

end
