(* ===== verification/Http_Writer.thy ===== *)
theory Http_Writer
  imports Prelude
begin

section \<open>HTTP response writers\<close>

text \<open>
  \<^verbatim>\<open>http.ResponseWriter\<close> of the standard library as the code uses it, and the contract its wrappers
  keep: the first final status wins and a write settles it. An informational status (1xx other
  than 101) does not commit the response; a flush commits it with 200. A flush reaches the
  innermost writer through \<^verbatim>\<open>Unwrap\<close>, past any wrapper. Several components wrap a writer; each
  interprets the locale on its own wrapper.
\<close>

record http_writer =
  hw_status :: "nat option"
  hw_header :: "(string \<times> string) list"
  hw_body :: string

definition fresh_writer :: http_writer where
  "fresh_writer = \<lparr>hw_status = None, hw_header = [], hw_body = []\<rparr>"

definition informational :: "nat \<Rightarrow> bool" where
  "informational code \<longleftrightarrow> 100 \<le> code \<and> code \<le> 199 \<and> code \<noteq> 101"

definition http_WriteHeader :: "nat \<Rightarrow> http_writer \<Rightarrow> http_writer" where
  "http_WriteHeader code w =
     (if hw_status w \<noteq> None \<or> informational code then w else w\<lparr>hw_status := Some code\<rparr>)"

definition http_Write :: "string \<Rightarrow> http_writer \<Rightarrow> http_writer" where
  "http_Write body w = (let w = http_WriteHeader 200 w in w\<lparr>hw_body := hw_body w @ body\<rparr>)"

definition http_Flush :: "http_writer \<Rightarrow> http_writer" where
  "http_Flush w = http_WriteHeader 200 w"

definition header_set :: "string \<Rightarrow> string \<Rightarrow> (string \<times> string) list \<Rightarrow> (string \<times> string) list" where
  "header_set name value h = filter (\<lambda>(n, _). n \<noteq> name) h @ [(name, value)]"

text \<open>\<^verbatim>\<open>http.Error\<close>: entity headers are dropped, the text type is set, then status and message.\<close>

definition http_Error :: "string \<Rightarrow> nat \<Rightarrow> http_writer \<Rightarrow> http_writer" where
  "http_Error message code w =
     (let h = filter (\<lambda>(n, _). n \<notin> {''Content-Length'', ''Content-Encoding'', ''Etag'', ''Last-Modified'', ''Cache-Control''})
                (hw_header w);
          w = w\<lparr>hw_header := header_set ''X-Content-Type-Options'' ''nosniff''
                              (header_set ''Content-Type'' ''text/plain; charset=utf-8'' h)\<rparr>
      in http_Write (message @ [char_of (10 :: nat)]) (http_WriteHeader code w))"

text \<open>What a handler does with its writer.\<close>

datatype writer_op = OpHeader nat | OpWrite string | OpFlush

fun writer_run ::
    "(nat \<Rightarrow> 'w \<Rightarrow> 'w) \<Rightarrow> (string \<Rightarrow> 'w \<Rightarrow> 'w) \<Rightarrow> ('w \<Rightarrow> 'w) \<Rightarrow> writer_op list \<Rightarrow> 'w \<Rightarrow> 'w" where
  "writer_run header body flush [] w = w"
| "writer_run header body flush (OpHeader code # ops) w = writer_run header body flush ops (header code w)"
| "writer_run header body flush (OpWrite text # ops) w = writer_run header body flush ops (body text w)"
| "writer_run header body flush (OpFlush # ops) w = writer_run header body flush ops (flush w)"

fun settling :: "writer_op \<Rightarrow> bool" where
  "settling (OpHeader code) = (\<not> informational code)"
| "settling _ = True"

locale response_writer =
  fixes status :: "'w \<Rightarrow> nat option"
    and header :: "nat \<Rightarrow> 'w \<Rightarrow> 'w"
    and body :: "string \<Rightarrow> 'w \<Rightarrow> 'w"
    and flush :: "'w \<Rightarrow> 'w"
    and inv :: "'w \<Rightarrow> bool"
  assumes ops_inv: "inv w \<Longrightarrow> inv (header code w) \<and> inv (body text w) \<and> inv (flush w)"
    and header_settles: "inv w \<Longrightarrow> \<not> informational code \<Longrightarrow> status (header code w) \<noteq> None"
    and body_settles: "inv w \<Longrightarrow> status (body text w) \<noteq> None"
    and flush_settles: "inv w \<Longrightarrow> status (flush w) \<noteq> None"
    and ops_final: "inv w \<Longrightarrow> status w = Some c \<Longrightarrow>
      status (header code w) = Some c \<and> status (body text w) = Some c \<and> status (flush w) = Some c"
begin

lemma run_final:
  "inv w \<Longrightarrow> status w = Some c \<Longrightarrow> status (writer_run header body flush ops w) = Some c"
proof (induction ops arbitrary: w)
  case (Cons op ops)
  then show ?case by (cases op) (simp_all add: ops_inv ops_final)
qed simp

lemma run_inv: "inv w \<Longrightarrow> inv (writer_run header body flush ops w)"
proof (induction ops arbitrary: w)
  case (Cons op ops)
  then show ?case by (cases op) (simp_all add: ops_inv)
qed simp

lemma run_settles:
  "inv w \<Longrightarrow> \<exists>op\<in>set ops. settling op \<Longrightarrow> status (writer_run header body flush ops w) \<noteq> None"
proof (induction ops arbitrary: w)
  case (Cons op ops)
  let ?next = "writer_run header body flush [op] w"
  have next_inv: "inv ?next" using run_inv[OF Cons.prems(1)] .
  have split: "writer_run header body flush (op # ops) w = writer_run header body flush ops ?next"
    by (cases op) simp_all
  show ?case
  proof (cases "settling op")
    case True
    then have "status ?next \<noteq> None"
      using Cons.prems(1) by (cases op) (simp_all add: header_settles body_settles flush_settles)
    then show ?thesis using run_final[OF next_inv] unfolding split by force
  next
    case False
    with Cons.prems(2) have "\<exists>op\<in>set ops. settling op" by auto
    then show ?thesis unfolding split using Cons.IH[OF next_inv] by blast
  qed
qed simp

end

lemmas writer_defs = http_WriteHeader_def http_Write_def http_Flush_def Let_def

interpretation http_writer: response_writer hw_status http_WriteHeader http_Write http_Flush "\<lambda>_. True"
  by unfold_locales (auto simp: writer_defs informational_def)

subsection \<open>Writers that record the first status\<close>

text \<open>
  Wrappers that report a status keep the first one that passes through them: a \<^verbatim>\<open>WriteHeader\<close> of any
  code, or 200 for a \<^verbatim>\<open>Write\<close>. A flush goes past them.
\<close>

fun first_status :: "writer_op list \<Rightarrow> nat option" where
  "first_status [] = None"
| "first_status (OpHeader code # ops) = Some code"
| "first_status (OpWrite text # ops) = Some 200"
| "first_status (OpFlush # ops) = first_status ops"

locale status_recorder =
  fixes recorded :: "'w \<Rightarrow> nat option"
    and header :: "nat \<Rightarrow> 'w \<Rightarrow> 'w"
    and body :: "string \<Rightarrow> 'w \<Rightarrow> 'w"
    and flush :: "'w \<Rightarrow> 'w"
  assumes first_header: "recorded w = None \<Longrightarrow> recorded (header code w) = Some code"
    and first_body: "recorded w = None \<Longrightarrow> recorded (body text w) = Some 200"
    and flush_passes: "recorded (flush w) = recorded w"
    and recorded_kept: "recorded w = Some c \<Longrightarrow> recorded (header code w) = Some c \<and> recorded (body text w) = Some c"
begin

lemma run_kept: "recorded w = Some c \<Longrightarrow> recorded (writer_run header body flush ops w) = Some c"
proof (induction ops arbitrary: w)
  case (Cons op ops)
  then show ?case by (cases op) (simp_all add: recorded_kept flush_passes)
qed simp

lemma run_first:
  "recorded w = None \<Longrightarrow> recorded (writer_run header body flush ops w) = first_status ops"
proof (induction ops arbitrary: w)
  case (Cons op ops)
  then show ?case by (cases op) (simp_all add: first_header first_body flush_passes run_kept)
qed simp

end

end
