(* ===== verification/Maintenance.thy ===== *)
theory Maintenance
  imports Http_Writer Lifecycle "HOL-Library.Word"
begin

section \<open>Maintenance mode\<close>

text \<open>
  Models \<^verbatim>\<open>maintenance.go\<close>: the snapshot and its validation, the shared and the file-backed store, the
  runtime that polls a store, the HTTP admission gate with its response writer, and the operator
  commands. A file holds bytes. The JSON encoder and decoder and the RFC 3339 formatter and parser of the
  standard library are an argument, \<open>state_codec\<close>, and the laws a round trip needs of them are the hypotheses \<open>json_roundtrips\<close>
  and \<open>time_roundtrips\<close>, with the limits the library documents: strings that are not UTF-8 are altered
  by the encoder, and years after 9999 are not parsed. The cookie digest is an argument as well.
\<close>

subsection \<open>Snapshots\<close>

definition defaultMaintenanceRefreshInterval :: duration where "defaultMaintenanceRefreshInterval = second"
definition defaultMaintenanceOperationTimeout :: duration where "defaultMaintenanceOperationTimeout = second"
definition maximumMaintenanceStateBytes :: nat where "maximumMaintenanceStateBytes = 8192"
definition maximumMaintenanceDuration :: duration where "maximumMaintenanceDuration = 7 * 24 * hour"

lemmas maintenance_constants = defaultMaintenanceRefreshInterval_def defaultMaintenanceOperationTimeout_def
  maximumMaintenanceStateBytes_def maximumMaintenanceDuration_def

text \<open>\<open>Since\<close> counts nanoseconds from the zero \<^verbatim>\<open>time.Time\<close>.\<close>

record maintenance_state =
  Enabled :: bool
  Since :: go_time
  RetryAfter :: duration
  Refresh :: duration
  Redirect :: string
  Secret :: string

definition disabled_state :: maintenance_state where
  "disabled_state = \<lparr>Enabled = False, Since = 0, RetryAfter = 0, Refresh = 0, Redirect = [], Secret = []\<rparr>"

definition secret_character :: "char \<Rightarrow> bool" where
  "secret_character c \<longleftrightarrow> (let k = (of_char c :: nat) in
     \<not> ((k < 97 \<or> k > 122) \<and> (k < 65 \<or> k > 90) \<and> (k < 48 \<or> k > 57) \<and> k \<noteq> 45))"

definition validMaintenanceSecret :: "string \<Rightarrow> bool" where
  "validMaintenanceSecret secret \<longleftrightarrow>
     \<not> (length secret < 8 \<or> length secret > 128) \<and> list_all secret_character secret"

definition has_prefix :: "string \<Rightarrow> string \<Rightarrow> bool" where
  "has_prefix p s \<longleftrightarrow> take (length p) s = p"

definition line_break :: "char \<Rightarrow> bool" where
  "line_break c \<longleftrightarrow> (of_char c :: nat) = 13 \<or> (of_char c :: nat) = 10"

definition validRedirect :: "string \<Rightarrow> bool" where
  "validRedirect r \<longleftrightarrow> \<not> (\<not> has_prefix ''/'' r \<or> has_prefix ''//'' r \<or> list_ex line_break r)"

definition validateMaintenanceState :: "addr \<Rightarrow> maintenance_state \<Rightarrow> go_error" where
  "validateMaintenanceState a s =
     (if RetryAfter s < 0 \<or> RetryAfter s > maximumMaintenanceDuration \<or>
         Refresh s < 0 \<or> Refresh s > maximumMaintenanceDuration
      then ErrorString a ''maintenance duration is invalid''
      else if Redirect s \<noteq> [] \<and> \<not> validRedirect (Redirect s)
      then ErrorString a ''maintenance redirect is invalid''
      else if Secret s \<noteq> [] \<and> \<not> validMaintenanceSecret (Secret s)
      then ErrorString a ''maintenance secret is invalid''
      else NilErr)"

definition validateEnabledMaintenanceState :: "addr \<Rightarrow> maintenance_state \<Rightarrow> go_error" where
  "validateEnabledMaintenanceState a s =
     (if \<not> Enabled s then ErrorString a ''maintenance state must be enabled''
      else if Since s = 0 then ErrorString a ''maintenance state requires a timestamp''
      else validateMaintenanceState a s)"

subsection \<open>Configuration\<close>

record maintenance =
  mt_Store :: bool
  mt_RefreshInterval :: duration
  mt_OperationTimeout :: duration
  mt_Response :: bool

definition resolvedMaintenanceRefreshInterval :: "duration \<Rightarrow> duration" where
  "resolvedMaintenanceRefreshInterval v = (if v = 0 then defaultMaintenanceRefreshInterval else v)"

definition resolvedMaintenanceOperationTimeout :: "duration \<Rightarrow> duration" where
  "resolvedMaintenanceOperationTimeout v = (if v = 0 then defaultMaintenanceOperationTimeout else v)"

definition validateMaintenance :: "addr \<Rightarrow> maintenance \<Rightarrow> go_error" where
  "validateMaintenance a cfg =
     (if \<not> mt_Store cfg then
        (if mt_RefreshInterval cfg \<noteq> 0 \<or> mt_OperationTimeout cfg \<noteq> 0 \<or> mt_Response cfg
         then DefinitionError a ''Maintenance.Store'' ''is required when maintenance is configured''
         else NilErr)
      else if mt_RefreshInterval cfg < 0 then
        DefinitionError a ''Maintenance.RefreshInterval'' ''must not be negative''
      else if mt_OperationTimeout cfg < 0 then
        DefinitionError a ''Maintenance.OperationTimeout'' ''must not be negative''
      else if resolvedMaintenanceRefreshInterval (mt_RefreshInterval cfg) < 10 * millisecond then
        DefinitionError a ''Maintenance.RefreshInterval'' ''must be at least 10ms''
      else if resolvedMaintenanceOperationTimeout (mt_OperationTimeout cfg) > minute then
        DefinitionError a ''Maintenance.OperationTimeout'' ''must not exceed one minute''
      else NilErr)"

subsection \<open>Stores\<close>

record store_operations =
  op_Load :: bool
  op_Store :: bool
  op_Clear :: bool

definition NewSharedMaintenanceStore :: "addr \<Rightarrow> store_operations \<Rightarrow> go_error" where
  "NewSharedMaintenanceStore a ops =
     (if \<not> op_Load ops \<or> \<not> op_Store ops \<or> \<not> op_Clear ops
      then DefinitionError a ''MaintenanceStoreOperations'' ''requires load, store, and clear''
      else NilErr)"

definition shared_LoadMaintenance :: "addr \<Rightarrow> go_error + maintenance_state \<Rightarrow> go_error + maintenance_state" where
  "shared_LoadMaintenance a loaded = (case loaded of
     Inl err \<Rightarrow> Inl err
   | Inr s \<Rightarrow> if validateMaintenanceState a s \<noteq> NilErr then Inl (validateMaintenanceState a s) else Inr s)"

definition shared_StoreMaintenance :: "addr \<Rightarrow> (maintenance_state \<Rightarrow> go_error) \<Rightarrow> maintenance_state \<Rightarrow> go_error" where
  "shared_StoreMaintenance a store s =
     (if validateEnabledMaintenanceState a s \<noteq> NilErr then validateEnabledMaintenanceState a s else store s)"

definition NewFileMaintenanceStore :: "addr \<Rightarrow> string \<Rightarrow> go_error" where
  "NewFileMaintenanceStore a path =
     (if trim_space path = '''' \<or> list_ex (\<lambda>c. (of_char c :: nat) = 0) path
      then DefinitionError a ''maintenance file path'' ''must not be blank or contain NUL'' else NilErr)"

text \<open>The persisted form; the timestamp is text.\<close>

record persisted =
  ps_Enabled :: bool
  ps_Since :: string
  ps_RetryAfterSeconds :: int
  ps_RefreshSeconds :: int
  ps_Redirect :: string
  ps_Secret :: string

text \<open>
  \<^verbatim>\<open>json.Marshal\<close>, one \<^verbatim>\<open>Decode\<close> of a decoder that disallows unknown fields (the value and the bytes it
  left, or an error), \<^verbatim>\<open>Format\<close> and \<^verbatim>\<open>Parse\<close> with the layout \<^verbatim>\<open>RFC3339Nano\<close> in UTC.
\<close>

record state_codec =
  cd_Marshal :: "persisted \<Rightarrow> string"
  cd_Decode :: "string \<Rightarrow> (persisted \<times> string) option"
  cd_Format :: "go_time \<Rightarrow> string"
  cd_Parse :: "string \<Rightarrow> go_time option"

text \<open>\<^verbatim>\<open>readMaintenanceSnapshot\<close> of a reader that yields these bytes.\<close>

definition readMaintenanceSnapshot :: "addr \<Rightarrow> string \<Rightarrow> go_error + string" where
  "readMaintenanceSnapshot a bytes =
     (let data = take (maximumMaintenanceStateBytes + 1) bytes in
      if length data > maximumMaintenanceStateBytes
      then Inl (ErrorString a ''maintenance state exceeds size limit'') else Inr data)"

text \<open>A second \<^verbatim>\<open>Decode\<close> reports \<^verbatim>\<open>io.EOF\<close> exactly when only white space is left.\<close>

definition json_space :: "char \<Rightarrow> bool" where
  "json_space c \<longleftrightarrow> (of_char c :: nat) \<in> {9, 10, 13, 32}"

definition ensureJSONEnd :: "addr \<Rightarrow> string \<Rightarrow> go_error" where
  "ensureJSONEnd a rest =
     (if list_all json_space rest then NilErr else ErrorString a ''maintenance state has trailing data'')"

text \<open>Multiplication of 64-bit durations, which wraps.\<close>

definition mul64 :: "int \<Rightarrow> int \<Rightarrow> int" where
  "mul64 x y = sint (word_of_int (x * y) :: 64 word)"

definition maximumSeconds :: int where "maximumSeconds = maximumMaintenanceDuration div second"

definition parse_persisted :: "state_codec \<Rightarrow> addr \<Rightarrow> persisted \<Rightarrow> go_error + maintenance_state" where
  "parse_persisted codec a p = (case cd_Parse codec (ps_Since p) of
     None \<Rightarrow> Inl (ErrorString a ''maintenance state timestamp is invalid'')
   | Some since \<Rightarrow>
       if ps_RetryAfterSeconds p < 0 \<or> ps_RetryAfterSeconds p > maximumSeconds \<or>
          ps_RefreshSeconds p < 0 \<or> ps_RefreshSeconds p > maximumSeconds
       then Inl (ErrorString a ''maintenance duration is invalid'')
       else
         let s = \<lparr>Enabled = ps_Enabled p, Since = since,
                  RetryAfter = mul64 (ps_RetryAfterSeconds p) second,
                  Refresh = mul64 (ps_RefreshSeconds p) second,
                  Redirect = ps_Redirect p, Secret = ps_Secret p\<rparr>
         in if validateMaintenanceState a s \<noteq> NilErr then Inl (validateMaintenanceState a s) else Inr s)"

text \<open>The read gives the bytes, that the file does not exist, or another error.\<close>

datatype read_result = ReadData string | ReadMissing | ReadFailed go_error

definition parseMaintenanceSnapshot :: "state_codec \<Rightarrow> addr \<Rightarrow> ctx_state \<Rightarrow> read_result \<Rightarrow> go_error + maintenance_state" where
  "parseMaintenanceSnapshot codec a ctx r =
     (if ctx_cause ctx \<noteq> NilErr then Inl (ctx_cause ctx)
      else case r of
        ReadMissing \<Rightarrow> Inr disabled_state
      | ReadFailed err \<Rightarrow> Inl err
      | ReadData data \<Rightarrow>
          (case cd_Decode codec data of
             None \<Rightarrow> Inl (ErrorString a ''maintenance state is invalid'')
           | Some (p, rest) \<Rightarrow>
               if ensureJSONEnd a rest \<noteq> NilErr then Inl (ensureJSONEnd a rest) else parse_persisted codec a p))"

record file_store =
  fs_file :: "string option"
  fs_temporary :: "string option"

definition file_read :: "addr \<Rightarrow> file_store \<Rightarrow> read_result" where
  "file_read a fs = (case fs_file fs of
     None \<Rightarrow> ReadMissing
   | Some f \<Rightarrow> (case readMaintenanceSnapshot a f of Inl err \<Rightarrow> ReadFailed err | Inr d \<Rightarrow> ReadData d))"

definition file_LoadMaintenance ::
    "state_codec \<Rightarrow> addr \<Rightarrow> ctx_state \<Rightarrow> ctx_state \<Rightarrow> file_store \<Rightarrow> go_error + maintenance_state" where
  "file_LoadMaintenance codec a before after_read fs =
     (if ctx_cause before \<noteq> NilErr then Inl (ctx_cause before)
      else parseMaintenanceSnapshot codec a after_read (file_read a fs))"

definition persist :: "state_codec \<Rightarrow> maintenance_state \<Rightarrow> persisted" where
  "persist codec s = \<lparr>ps_Enabled = True, ps_Since = cd_Format codec (Since s),
     ps_RetryAfterSeconds = RetryAfter s div second, ps_RefreshSeconds = Refresh s div second,
     ps_Redirect = Redirect s, ps_Secret = Secret s\<rparr>"

definition snapshot_bytes :: "state_codec \<Rightarrow> maintenance_state \<Rightarrow> string" where
  "snapshot_bytes codec s = cd_Marshal codec (persist codec s) @ [char_of (10 :: nat)]"

datatype io_result = IOok | IOfailed go_error

fun io_error :: "io_result \<Rightarrow> go_error" where
  "io_error IOok = NilErr"
| "io_error (IOfailed e) = e"

text \<open>
  Writing may leave a partial temporary file; the deferred cleanup removes it unless the rename
  committed. The removal's own error is ignored.
\<close>

definition file_StoreMaintenance ::
    "state_codec \<Rightarrow> addr \<Rightarrow> ctx_state \<Rightarrow> io_result \<Rightarrow> string option \<Rightarrow> io_result \<Rightarrow> bool \<Rightarrow>
     maintenance_state \<Rightarrow> file_store \<Rightarrow> file_store \<times> go_error" where
  "file_StoreMaintenance codec a ctx written partial renamed removed s fs =
     (if validateEnabledMaintenanceState a s \<noteq> NilErr then (fs, validateEnabledMaintenanceState a s)
      else if ctx_cause ctx \<noteq> NilErr then (fs, ctx_cause ctx)
      else
        let data = snapshot_bytes codec s;
            cleanup = (\<lambda>fs. if removed then fs\<lparr>fs_temporary := None\<rparr> else fs) in
        case written of
          IOfailed err \<Rightarrow> (cleanup (fs\<lparr>fs_temporary := partial\<rparr>), err)
        | IOok \<Rightarrow> (case renamed of
            IOfailed err \<Rightarrow> (cleanup (fs\<lparr>fs_temporary := Some data\<rparr>), err)
          | IOok \<Rightarrow> (fs\<lparr>fs_file := Some data, fs_temporary := None\<rparr>, NilErr)))"

definition file_ClearMaintenance :: "ctx_state \<Rightarrow> io_result \<Rightarrow> file_store \<Rightarrow> file_store \<times> go_error" where
  "file_ClearMaintenance ctx removed fs =
     (if ctx_cause ctx \<noteq> NilErr then (fs, ctx_cause ctx)
      else if fs_file fs = None then (fs, NilErr)
      else case removed of IOok \<Rightarrow> (fs\<lparr>fs_file := None\<rparr>, NilErr) | IOfailed err \<Rightarrow> (fs, err))"

subsection \<open>The polling runtime\<close>

datatype runtime_result = ResultAvailable | ResultUnavailable | ResultFailed | ResultSucceeded

text \<open>An event: its result, its boundary, and whether it is a transition.\<close>

type_synonym maintenance_event = "runtime_result \<times> string \<times> bool"

text \<open>The published snapshot is the runtime's whole state; a load either fails or replaces it.\<close>

definition newMaintenanceRuntime :: maintenance_state where
  "newMaintenanceRuntime = disabled_state"

definition refresh ::
    "addr \<Rightarrow> go_error + maintenance_state \<Rightarrow> bool \<Rightarrow> maintenance_state \<Rightarrow>
     maintenance_state \<times> maintenance_event list \<times> go_error" where
  "refresh a loaded required snapshot = (case loaded of
     Inl err \<Rightarrow> (snapshot, [(ResultFailed, ''store'', False)], if required then MaintenanceError a ''load'' err else err)
   | Inr s \<Rightarrow> (s,
       if Enabled snapshot \<noteq> Enabled s
       then [(if Enabled s then ResultUnavailable else ResultAvailable, ''state'', True)] else [],
       NilErr))"

text \<open>One component start and then any number of ticks; what the ticks load is up to the store.\<close>

definition maintenance_start :: "addr \<Rightarrow> go_error + maintenance_state \<Rightarrow> maintenance_state \<times> maintenance_event list \<times> go_error" where
  "maintenance_start a loaded = refresh a loaded True newMaintenanceRuntime"

fun maintenance_run :: "addr \<Rightarrow> (go_error + maintenance_state) list \<Rightarrow> maintenance_state \<Rightarrow> maintenance_state \<times> maintenance_event list" where
  "maintenance_run a [] snapshot = (snapshot, [])"
| "maintenance_run a (loaded # ticks) snapshot =
     (let (next, events, err) = refresh a loaded False snapshot;
          (last, more) = maintenance_run a ticks next
      in (last, events @ more))"

definition maintenance_enabled :: "maintenance_state option \<Rightarrow> bool" where
  "maintenance_enabled runtime = (case runtime of None \<Rightarrow> False | Some s \<Rightarrow> Enabled s)"

subsection \<open>Locations\<close>

text \<open>
  \<^verbatim>\<open>http.Redirect\<close> for a target that begins with a slash, as all targets here do: where \<^verbatim>\<open>net/url\<close> parses the
  target, the path before the query is cleaned, keeping a trailing slash; then every byte outside ASCII is
  escaped. Whether the target parses is an argument. \<^verbatim>\<open>path.Clean\<close> of a rooted path drops empty and \<^verbatim>\<open>.\<close> elements and resolves \<^verbatim>\<open>..\<close>
  without leaving the root.
\<close>

fun split_path :: "string \<Rightarrow> string list" where
  "split_path [] = [[]]"
| "split_path (c # cs) =
     (if c = CHR ''/'' then [] # split_path cs
      else case split_path cs of [] \<Rightarrow> [[c]] | p # ps \<Rightarrow> (c # p) # ps)"

fun clean_elements :: "string list \<Rightarrow> string list \<Rightarrow> string list" where
  "clean_elements kept [] = rev kept"
| "clean_elements kept (p # ps) =
     (if p = [] \<or> p = ''.'' then clean_elements kept ps
      else if p = ''..'' then clean_elements (drop 1 kept) ps
      else clean_elements (p # kept) ps)"

definition path_Clean :: "string \<Rightarrow> string" where
  "path_Clean path =
     (let elements = clean_elements [] (split_path path)
      in if elements = [] then ''/'' else concat (map (Cons (CHR ''/'')) elements))"

definition hex_digit_of :: "nat \<Rightarrow> char" where
  "hex_digit_of n = (if n < 10 then char_of (48 + n) else char_of (87 + n))"

definition hexEscapeNonASCII :: "string \<Rightarrow> string" where
  "hexEscapeNonASCII s =
     concat (map (\<lambda>c. let n = (of_char c :: nat)
       in if n < 128 then [c] else [CHR ''%'', hex_digit_of (n div 16), hex_digit_of (n mod 16)]) s)"

definition cleaned_target :: "string \<Rightarrow> string" where
  "cleaned_target url =
     (let path = takeWhile (\<lambda>c. c \<noteq> CHR ''?'') url; query = dropWhile (\<lambda>c. c \<noteq> CHR ''?'') url;
          cleaned = path_Clean path;
          trailing = (path \<noteq> [] \<and> last path = CHR ''/'')
      in (if trailing \<and> last cleaned \<noteq> CHR ''/'' then cleaned @ ''/'' else cleaned) @ query)"

definition redirect_location :: "(string \<Rightarrow> bool) \<Rightarrow> string \<Rightarrow> string" where
  "redirect_location parses url = hexEscapeNonASCII (if parses url then cleaned_target url else url)"

subsection \<open>HTTP admission\<close>

record request =
  rq_method :: string
  rq_path :: string
  rq_cookie :: "string option"

definition maintenanceBypassed :: "(string \<Rightarrow> string) \<Rightarrow> request \<Rightarrow> string \<Rightarrow> bool" where
  "maintenanceBypassed cookieValue rq secret =
     (if secret = [] then False
      else case rq_cookie rq of
        None \<Rightarrow> False
      | Some value \<Rightarrow> length value = length (cookieValue secret) \<and> value = cookieValue secret)"

definition applyMaintenanceHeaders :: "maintenance_state \<Rightarrow> (string \<times> string) list" where
  "applyMaintenanceHeaders s =
     [(''Cache-Control'', ''no-store''), (''Content-Type'', ''text/plain; charset=utf-8''),
      (''X-Content-Type-Options'', ''nosniff'')] @
     (if RetryAfter s > 0 then [(''Retry-After'', itoa (nat (RetryAfter s div second)))] else []) @
     (if Refresh s > 0 then [(''Refresh'', itoa (nat (Refresh s div second)))] else [])"

record maintenance_writer =
  mw_base :: http_writer
  mw_wroteHeader :: bool
  mw_head :: bool

definition mw_WriteHeader :: "nat \<Rightarrow> maintenance_writer \<Rightarrow> maintenance_writer" where
  "mw_WriteHeader code w =
     (if mw_wroteHeader w then w
      else w\<lparr>mw_wroteHeader := True, mw_base := http_WriteHeader 503 (mw_base w)\<rparr>)"

definition mw_Write :: "string \<Rightarrow> maintenance_writer \<Rightarrow> maintenance_writer" where
  "mw_Write body w =
     (let w = (if \<not> mw_wroteHeader w then mw_WriteHeader 503 w else w)
      in if mw_head w then w else w\<lparr>mw_base := http_Write body (mw_base w)\<rparr>)"

text \<open>The wrapper has \<^verbatim>\<open>Unwrap\<close> and no \<^verbatim>\<open>Flush\<close>: a response controller flushes the writer below.\<close>

definition mw_Flush :: "maintenance_writer \<Rightarrow> maintenance_writer" where
  "mw_Flush w = w\<lparr>mw_base := http_Flush (mw_base w)\<rparr>"

record answer =
  an_status :: nat
  an_headers :: "(string \<times> string) list"
  an_location :: "string option"
  an_cookie :: "string option"
  an_body :: string

datatype admission = AdmitNext | Answered answer

definition custom_answer :: "writer_op list \<Rightarrow> bool \<Rightarrow> http_writer" where
  "custom_answer ops is_head =
     (let w = writer_run mw_WriteHeader mw_Write mw_Flush ops
                \<lparr>mw_base = fresh_writer, mw_wroteHeader = False, mw_head = is_head\<rparr>
      in mw_base (if \<not> mw_wroteHeader w then mw_WriteHeader 503 w else w))"

definition admission ::
    "(string \<Rightarrow> string) \<Rightarrow> (string \<Rightarrow> bool) \<Rightarrow> writer_op list option \<Rightarrow> maintenance_state \<Rightarrow> request \<Rightarrow> admission" where
  "admission cookieValue parses response s rq =
     (if \<not> Enabled s \<or> maintenanceBypassed cookieValue rq (Secret s) \<or>
         (Redirect s \<noteq> [] \<and> rq_path rq = Redirect s) then AdmitNext
      else
        let plain = \<lparr>an_status = 503, an_headers = applyMaintenanceHeaders s, an_location = None,
                     an_cookie = None, an_body = []\<rparr> in
        if Secret s \<noteq> [] \<and> rq_path rq = ''/'' @ Secret s \<and> (rq_method rq = ''GET'' \<or> rq_method rq = ''HEAD'') then
          Answered (plain\<lparr>an_status := 302, an_location := Some (redirect_location parses ''/''), an_cookie := Some (cookieValue (Secret s))\<rparr>)
        else if Redirect s \<noteq> [] then
          Answered (plain\<lparr>an_status := 302, an_location := Some (redirect_location parses (Redirect s))\<rparr>)
        else (case response of
          Some ops \<Rightarrow>
            let w = custom_answer ops (rq_method rq = ''HEAD'')
            in Answered (plain\<lparr>an_status := (case hw_status w of None \<Rightarrow> 200 | Some c \<Rightarrow> c), an_body := hw_body w\<rparr>)
        | None \<Rightarrow>
            Answered (plain\<lparr>an_body := if rq_method rq = ''HEAD'' then [] else ''service unavailable'' @ [char_of (10 :: nat)]\<rparr>)))"

subsection \<open>Operator commands\<close>

record down_options =
  opt_retry :: duration
  opt_refresh :: duration
  opt_secret :: string
  opt_with_secret :: bool
  opt_redirect :: string

definition maintenanceStoreState :: "addr \<Rightarrow> (maintenance_state \<Rightarrow> go_error) \<Rightarrow> maintenance_state \<Rightarrow> maintenance_state option \<times> go_error" where
  "maintenanceStoreState a store s =
     (case validateEnabledMaintenanceState a s of
        ErrorString _ reason \<Rightarrow> (None, DefinitionError a ''down options'' reason)
      | _ \<Rightarrow> if store s \<noteq> NilErr then (None, MaintenanceError a ''enable'' (store s)) else (Some s, NilErr))"

text \<open>The snapshot the command stored, if any, and its error.\<close>

definition down_command ::
    "addr \<Rightarrow> go_time \<Rightarrow> string \<Rightarrow> (maintenance_state \<Rightarrow> go_error) \<Rightarrow> down_options \<Rightarrow> maintenance_state option \<times> go_error" where
  "down_command a now generated store opts =
     (let s = \<lparr>Enabled = True, Since = now, RetryAfter = opt_retry opts, Refresh = opt_refresh opts,
               Redirect = opt_redirect opts, Secret = opt_secret opts\<rparr> in
      if opt_with_secret opts \<and> Secret s \<noteq> [] then
        (None, DefinitionError a ''down options'' ''secret and with-secret are mutually exclusive'')
      else maintenanceStoreState a store (if opt_with_secret opts then s\<lparr>Secret := generated\<rparr> else s))"

definition up_command :: "addr \<Rightarrow> go_error \<Rightarrow> go_error \<Rightarrow> string \<times> go_error" where
  "up_command a cleared written =
     (if cleared \<noteq> NilErr then ([], MaintenanceError a ''disable'' cleared)
      else (''maintenance disabled'' @ [char_of (10 :: nat)], written))"

record maintenance_status =
  st_Enabled :: bool
  st_Since :: "go_time option"
  st_RetryAfterSeconds :: int
  st_RefreshSeconds :: int
  st_Redirect :: string
  st_BypassConfigured :: bool

definition status_command :: "addr \<Rightarrow> go_error + maintenance_state \<Rightarrow> go_error + maintenance_status" where
  "status_command a loaded = (case loaded of
     Inl err \<Rightarrow> Inl (MaintenanceError a ''status'' err)
   | Inr s \<Rightarrow> Inr \<lparr>st_Enabled = Enabled s, st_Since = (if Enabled s then Some (Since s) else None),
       st_RetryAfterSeconds = (if Enabled s then RetryAfter s div second else 0),
       st_RefreshSeconds = (if Enabled s then Refresh s div second else 0),
       st_Redirect = (if Enabled s then Redirect s else []), st_BypassConfigured = (Secret s \<noteq> [])\<rparr>)"

text \<open>The event a finished command publishes.\<close>

definition command_event :: "string \<Rightarrow> go_error \<Rightarrow> maintenance_event" where
  "command_event role err =
     (let (result, boundary, transition) =
        (if role = ''down'' then (ResultUnavailable, ''state'', True)
         else if role = ''up'' then (ResultAvailable, ''state'', True)
         else (ResultSucceeded, ''status'', False))
      in (if err \<noteq> NilErr then ResultFailed else result, boundary, transition))"

subsection \<open>The response writer\<close>

definition mw_inv :: "maintenance_writer \<Rightarrow> bool" where
  "mw_inv w \<longleftrightarrow> (mw_wroteHeader w \<longrightarrow> hw_status (mw_base w) \<noteq> None)"

lemmas mw_defs = mw_WriteHeader_def mw_Write_def mw_Flush_def mw_inv_def writer_defs informational_def

interpretation maintenance_writer: response_writer
  "\<lambda>w. hw_status (mw_base w)" mw_WriteHeader mw_Write mw_Flush mw_inv
  by unfold_locales (auto simp: mw_defs split: if_splits)

definition mw_closed :: "maintenance_writer \<Rightarrow> bool" where
  "mw_closed w \<longleftrightarrow> hw_status (mw_base w) = (if mw_wroteHeader w then Some 503 else None)"

lemma mw_run_closed:
  "OpFlush \<notin> set ops \<Longrightarrow> mw_closed w \<Longrightarrow> mw_closed (writer_run mw_WriteHeader mw_Write mw_Flush ops w)"
proof (induction ops arbitrary: w)
  case (Cons op ops)
  then show ?case by (cases op) (auto simp: mw_defs mw_closed_def)
qed simp

lemma mw_head_body:
  "mw_head w \<Longrightarrow> hw_body (mw_base w) = [] \<Longrightarrow>
     hw_body (mw_base (writer_run mw_WriteHeader mw_Write mw_Flush ops w)) = [] \<and>
     mw_head (writer_run mw_WriteHeader mw_Write mw_Flush ops w)"
proof (induction ops arbitrary: w)
  case (Cons op ops)
  then show ?case by (cases op) (auto simp: mw_defs)
qed simp

lemma custom_answer_status:
  assumes "OpFlush \<notin> set ops"
  shows "hw_status (custom_answer ops is_head) = Some 503"
proof -
  let ?start = "\<lparr>mw_base = fresh_writer, mw_wroteHeader = False, mw_head = is_head\<rparr>"
  have "mw_closed (writer_run mw_WriteHeader mw_Write mw_Flush ops ?start)"
    using assms by (rule mw_run_closed) (simp add: mw_closed_def fresh_writer_def)
  then show ?thesis
    by (simp add: custom_answer_def Let_def mw_closed_def mw_WriteHeader_def http_WriteHeader_def informational_def)
qed

lemma custom_answer_head: "hw_body (custom_answer ops True) = []"
  using mw_head_body[of "\<lparr>mw_base = fresh_writer, mw_wroteHeader = False, mw_head = True\<rparr>" ops]
  by (simp add: custom_answer_def Let_def mw_WriteHeader_def http_WriteHeader_def fresh_writer_def)

subsection \<open>Properties\<close>

lemma mul64_exact:
  assumes "0 \<le> x" and "x \<le> maximumSeconds"
  shows "mul64 x second = x * second"
proof -
  have "0 \<le> x * second \<and> x * second < 2 ^ 63"
    using assms by (simp add: maximumSeconds_def maintenance_constants)
  then show ?thesis
    unfolding mul64_def int_word_sint by (simp add: mod_pos_pos_trivial)
qed

lemma validated_bounds:
  "validateMaintenanceState a s = NilErr \<Longrightarrow>
     0 \<le> RetryAfter s \<and> RetryAfter s \<le> maximumMaintenanceDuration \<and>
     0 \<le> Refresh s \<and> Refresh s \<le> maximumMaintenanceDuration"
  by (auto simp: validateMaintenanceState_def split: if_splits)

definition whole_seconds :: "maintenance_state \<Rightarrow> maintenance_state" where
  "whole_seconds s = s\<lparr>RetryAfter := RetryAfter s div second * second, Refresh := Refresh s div second * second\<rparr>"

lemma seconds_bounds:
  assumes "0 \<le> d" and "d \<le> maximumMaintenanceDuration"
  shows "0 \<le> d div second" "d div second \<le> maximumSeconds"
    "0 \<le> d div second * second" "d div second * second \<le> maximumMaintenanceDuration"
  using assms by (auto simp: maximumSeconds_def maintenance_constants zdiv_mono1)

lemma whole_seconds_valid:
  assumes "validateMaintenanceState a s = NilErr"
  shows "validateMaintenanceState a (whole_seconds s) = NilErr"
  using assms seconds_bounds[of "RetryAfter s"] seconds_bounds[of "Refresh s"]
  by (auto simp: validateMaintenanceState_def whole_seconds_def split: if_splits)

text \<open>\<^verbatim>\<open>utf8.ValidString\<close>: the well-formed byte sequences.\<close>

definition continuation :: "nat \<Rightarrow> bool" where
  "continuation b \<longleftrightarrow> 128 \<le> b \<and> b \<le> 191"

fun valid_utf8 :: "nat list \<Rightarrow> bool" where
  "valid_utf8 [] = True"
| "valid_utf8 (b # bs) =
     (if b < 128 then valid_utf8 bs
      else case bs of
        [] \<Rightarrow> False
      | c # cs \<Rightarrow>
          if 194 \<le> b \<and> b \<le> 223 then continuation c \<and> valid_utf8 cs
          else case cs of
            [] \<Rightarrow> False
          | d # ds \<Rightarrow>
              if 224 \<le> b \<and> b \<le> 239 then
                continuation c \<and> (b = 224 \<longrightarrow> 160 \<le> c) \<and> (b = 237 \<longrightarrow> c \<le> 159) \<and> continuation d \<and> valid_utf8 ds
              else case ds of
                [] \<Rightarrow> False
              | e # es \<Rightarrow>
                  240 \<le> b \<and> b \<le> 244 \<and> continuation c \<and> (b = 240 \<longrightarrow> 144 \<le> c) \<and> (b = 244 \<longrightarrow> c \<le> 143) \<and>
                  continuation d \<and> continuation e \<and> valid_utf8 es)"

definition utf8_string :: "string \<Rightarrow> bool" where
  "utf8_string s \<longleftrightarrow> valid_utf8 (map of_char s)"

lemma ascii_utf8: "list_all (\<lambda>c. (of_char c :: nat) < 128) s \<Longrightarrow> utf8_string s"
  unfolding utf8_string_def by (induction s) simp_all

text \<open>
  The laws of the codec. Encoding and decoding agree on values whose strings are UTF-8; what
  follows the value is left. Instants from year 1 to the end of year 9999 (3652059 days) are formatted in ASCII and parsed back.
\<close>

definition json_roundtrips :: "state_codec \<Rightarrow> bool" where
  "json_roundtrips codec \<longleftrightarrow>
     (\<forall>p rest. utf8_string (ps_Since p) \<and> utf8_string (ps_Redirect p) \<and> utf8_string (ps_Secret p) \<longrightarrow>
        cd_Decode codec (cd_Marshal codec p @ rest) = Some (p, rest))"

definition endOfYear9999 :: go_time where "endOfYear9999 = 3652059 * 24 * hour"

definition time_roundtrips :: "state_codec \<Rightarrow> bool" where
  "time_roundtrips codec \<longleftrightarrow>
     (\<forall>t. 0 \<le> t \<and> t < endOfYear9999 \<longrightarrow>
        cd_Parse codec (cd_Format codec t) = Some t \<and> list_all (\<lambda>c. (of_char c :: nat) < 128) (cd_Format codec t))"

lemma readMaintenanceSnapshot_bound:
  "readMaintenanceSnapshot a bytes =
     (if maximumMaintenanceStateBytes < length bytes then Inl (ErrorString a ''maintenance state exceeds size limit'') else Inr bytes)"
  by (auto simp: readMaintenanceSnapshot_def Let_def)

lemma secret_ascii: "validMaintenanceSecret secret \<Longrightarrow> utf8_string secret"
  by (rule ascii_utf8) (auto simp: validMaintenanceSecret_def secret_character_def list_all_iff Let_def)

lemma parse_persist:
  assumes "validateMaintenanceState a s = NilErr" and "Enabled s"
    and "cd_Parse codec (cd_Format codec (Since s)) = Some (Since s)"
  shows "parse_persisted codec b (persist codec s) = Inr (whole_seconds s)"
proof -
  note bounds = validated_bounds[OF assms(1)]
  note retry = seconds_bounds[of "RetryAfter s"] and refresh = seconds_bounds[of "Refresh s"]
  have "\<lparr>Enabled = True, Since = Since s, RetryAfter = mul64 (RetryAfter s div second) second,
      Refresh = mul64 (Refresh s div second) second, Redirect = Redirect s, Secret = Secret s\<rparr> = whole_seconds s"
    using bounds retry refresh assms(2) by (simp add: mul64_exact whole_seconds_def)
  moreover have "validateMaintenanceState b (whole_seconds s) = NilErr"
    using whole_seconds_valid[OF assms(1)] by (auto simp: validateMaintenanceState_def split: if_splits)
  ultimately show ?thesis
    using bounds retry refresh assms(3) by (simp add: parse_persisted_def persist_def)
qed

text \<open>C17. Storing and loading agree, given the laws of the JSON codec and of the RFC 3339 text: an enabled snapshot that the file
  store accepted, written and renamed, is what the next load returns, with its durations cut to
  whole seconds and no 64-bit overflow, provided its redirect is UTF-8, its timestamp lies
  in the years 1 to 9999, and its encoding with the final newline is within the size limit. An
  encoding above the limit is stored as well, and the next load rejects it.\<close>

theorem maintenance_roundtrip:
  assumes "json_roundtrips codec" and "time_roundtrips codec"
    and "validateEnabledMaintenanceState a s = NilErr"
    and "utf8_string (Redirect s)" and "0 \<le> Since s" and "Since s < endOfYear9999"
  shows "file_LoadMaintenance codec b CtxActive CtxActive
      (fst (file_StoreMaintenance codec a CtxActive IOok partial IOok removed s fs)) =
    (if length (cd_Marshal codec (persist codec s)) + 1 \<le> maximumMaintenanceStateBytes then Inr (whole_seconds s)
     else Inl (ErrorString b ''maintenance state exceeds size limit''))"
proof -
  have on: "Enabled s" and valid: "validateMaintenanceState a s = NilErr"
    using assms(3) by (auto simp: validateEnabledMaintenanceState_def split: if_splits)
  have stamp: "cd_Parse codec (cd_Format codec (Since s)) = Some (Since s)" "utf8_string (cd_Format codec (Since s))"
    using assms(2,5,6) ascii_utf8 by (auto simp: time_roundtrips_def)
  have "utf8_string (Secret s)"
    using valid secret_ascii by (cases "Secret s = []") (auto simp: validateMaintenanceState_def utf8_string_def split: if_splits)
  with assms(1,4) stamp(2) have decoded: "cd_Decode codec (cd_Marshal codec (persist codec s) @ rest) = Some (persist codec s, rest)" for rest
    by (simp add: json_roundtrips_def persist_def)
  have "ensureJSONEnd b [char_of (10 :: nat)] = NilErr" by (simp add: ensureJSONEnd_def json_space_def)
  with parse_persist[OF valid on stamp(1)] assms(3) decoded show ?thesis
    by (simp add: file_StoreMaintenance_def file_LoadMaintenance_def file_read_def snapshot_bytes_def
        readMaintenanceSnapshot_bound parseMaintenanceSnapshot_def Let_def)
qed

definition demo_state :: maintenance_state where
  "demo_state = \<lparr>Enabled = True, Since = 5, RetryAfter = 1500 * millisecond, Refresh = 0, Redirect = ''/m'', Secret = []\<rparr>"

lemma demo_state_valid: "validateEnabledMaintenanceState a demo_state = NilErr"
  by (simp add: demo_state_def validateEnabledMaintenanceState_def validateMaintenanceState_def validRedirect_def
      has_prefix_def line_break_def maintenance_constants)

text \<open>A codec with these laws: every field is preceded by its length or sign, in unary.\<close>

definition unary :: "nat \<Rightarrow> string" where
  "unary n = replicate n CHR ''1'' @ ''0''"

definition read_unary :: "string \<Rightarrow> nat \<times> string" where
  "read_unary s = (length (takeWhile (\<lambda>c. c = CHR ''1'') s), drop 1 (dropWhile (\<lambda>c. c = CHR ''1'') s))"

definition put_string :: "string \<Rightarrow> string" where
  "put_string s = unary (length s) @ s"

definition get_string :: "string \<Rightarrow> string \<times> string" where
  "get_string s = (case read_unary s of (n, rest) \<Rightarrow> (take n rest, drop n rest))"

definition put_int :: "int \<Rightarrow> string" where
  "put_int i = (if i < 0 then ''-'' else ''+'') @ unary (nat \<bar>i\<bar>)"

definition get_int :: "string \<Rightarrow> int \<times> string" where
  "get_int s = (case read_unary (drop 1 s) of (n, rest) \<Rightarrow> (if take 1 s = ''-'' then - int n else int n, rest))"

lemma read_unary [simp]: "read_unary (unary n @ rest) = (n, rest)"
  by (induction n) (simp_all add: read_unary_def unary_def)

lemma get_put [simp]: "get_string (put_string s @ rest) = (s, rest)" "get_int (put_int i @ rest) = (i, rest)"
  by (simp_all add: get_string_def put_string_def get_int_def put_int_def)

definition demo_codec :: state_codec where
  "demo_codec =
     \<lparr>cd_Marshal = (\<lambda>p. put_int (if ps_Enabled p then 1 else 0) @ put_string (ps_Since p) @ put_int (ps_RetryAfterSeconds p) @
        put_int (ps_RefreshSeconds p) @ put_string (ps_Redirect p) @ put_string (ps_Secret p)),
      cd_Decode = (\<lambda>s. case get_int s of (enabled, s) \<Rightarrow> case get_string s of (since, s) \<Rightarrow> case get_int s of (retry, s) \<Rightarrow>
        case get_int s of (again, s) \<Rightarrow> case get_string s of (target, s) \<Rightarrow> case get_string s of (secret, s) \<Rightarrow>
          Some (\<lparr>ps_Enabled = (enabled = 1), ps_Since = since, ps_RetryAfterSeconds = retry, ps_RefreshSeconds = again,
                 ps_Redirect = target, ps_Secret = secret\<rparr>, s)),
      cd_Format = (\<lambda>t. put_int t), cd_Parse = (\<lambda>s. Some (fst (get_int s)))\<rparr>"

lemma demo_codec_laws: "json_roundtrips demo_codec" "time_roundtrips demo_codec"
proof -
  show "json_roundtrips demo_codec" by (simp add: json_roundtrips_def demo_codec_def)
  have "fst (get_int (put_int t)) = t" for t using get_put(2)[of t "[]"] by simp
  moreover have "list_all (\<lambda>c. (of_char c :: nat) < 128) (put_int t)" for t
    by (simp add: put_int_def unary_def list_all_iff)
  ultimately show "time_roundtrips demo_codec" by (simp add: time_roundtrips_def demo_codec_def)
qed

theorem maintenance_roundtrip_witness:
  "file_LoadMaintenance demo_codec 0 CtxActive CtxActive
     (fst (file_StoreMaintenance demo_codec 0 CtxActive IOok None IOok True demo_state
        \<lparr>fs_file = None, fs_temporary = None\<rparr>)) = Inr (demo_state\<lparr>RetryAfter := second\<rparr>)"
  using maintenance_roundtrip[OF demo_codec_laws demo_state_valid, of 0 0 None True "\<lparr>fs_file = None, fs_temporary = None\<rparr>"]
  by (simp add: demo_state_def persist_def maintenance_constants whole_seconds_def endOfYear9999_def utf8_string_def
      demo_codec_def put_string_def put_int_def unary_def)

text \<open>C18. Publication is atomic: whatever fails, a failed store leaves the published snapshot as it
  was, and removes its temporary file when it can; a successful one replaces it.\<close>

theorem maintenance_store_atomic:
  assumes "written \<noteq> IOfailed NilErr" and "renamed \<noteq> IOfailed NilErr" and "fs_temporary fs = None"
    and "file_StoreMaintenance codec a ctx written partial renamed removed s fs = (fs', err)"
  shows "(err \<noteq> NilErr \<longrightarrow> fs_file fs' = fs_file fs \<and> (removed \<longrightarrow> fs' = fs)) \<and>
    (err = NilErr \<longrightarrow> fs_temporary fs' = None \<and>
       fs_file fs' = Some (cd_Marshal codec (persist codec s) @ [char_of (10 :: nat)]))"
  using assms by (auto simp: file_StoreMaintenance_def snapshot_bytes_def Let_def split: if_splits io_result.splits)

theorem maintenance_store_atomic_witness:
  "fs_file (fst (file_StoreMaintenance demo_codec 0 CtxActive IOok None (IOfailed (ErrorString 1 ''rename'')) True
     demo_state \<lparr>fs_file = None, fs_temporary = None\<rparr>)) = None"
proof -
  obtain fs' err where r: "file_StoreMaintenance demo_codec 0 CtxActive IOok None (IOfailed (ErrorString 1 ''rename'')) True
     demo_state \<lparr>fs_file = None, fs_temporary = None\<rparr> = (fs', err)" by fastforce
  have "err \<noteq> NilErr" using r by (auto simp: file_StoreMaintenance_def demo_state_valid Let_def)
  with maintenance_store_atomic[OF _ _ _ r] r show ?thesis by simp
qed

lemma split_no_slash: "p \<in> set (split_path s) \<Longrightarrow> CHR ''/'' \<notin> set p"
  by (induction s arbitrary: p) (auto split: if_splits list.splits)

lemma clean_elements_subset: "p \<in> set (clean_elements kept ps) \<Longrightarrow> p \<in> set kept \<or> p \<in> set ps \<and> p \<noteq> []"
proof (induction kept ps rule: clean_elements.induct)
  case (2 kept p' ps)
  then show ?case by (auto split: if_splits dest: in_set_dropD)
qed simp

text \<open>A cleaned path is rooted and does not begin with two slashes.\<close>

lemma path_Clean_local: "\<exists>rest. path_Clean path = CHR ''/'' # rest \<and> (\<forall>c cs. rest = c # cs \<longrightarrow> c \<noteq> CHR ''/'')"
proof (cases "clean_elements [] (split_path path)")
  case Nil
  then show ?thesis by (simp add: path_Clean_def)
next
  case (Cons p ps)
  then have "p \<in> set (split_path path)" "p \<noteq> []" using clean_elements_subset[of p "[]" "split_path path"] by auto
  with split_no_slash[of p path] obtain c cs where "p = c # cs" "c \<noteq> CHR ''/''" by (cases p) auto
  with Cons show ?thesis by (simp add: path_Clean_def)
qed

definition local_target :: "string \<Rightarrow> bool" where
  "local_target s \<longleftrightarrow> (\<exists>rest. s = CHR ''/'' # rest \<and> (\<forall>c cs. rest = c # cs \<longrightarrow> c \<noteq> CHR ''/''))"

lemma escape_local:
  assumes "local_target s"
  shows "local_target (hexEscapeNonASCII s)"
proof -
  obtain rest where s: "s = CHR ''/'' # rest" "\<forall>c cs. rest = c # cs \<longrightarrow> c \<noteq> CHR ''/''" using assms by (auto simp: local_target_def)
  show ?thesis
  proof (cases rest)
    case (Cons c cs)
    then show ?thesis using s by (auto simp: local_target_def hexEscapeNonASCII_def Let_def)
  qed (simp add: s local_target_def hexEscapeNonASCII_def Let_def)
qed

lemma local_append: "local_target s \<Longrightarrow> s \<noteq> ''/'' \<or> q = [] \<or> hd q \<noteq> CHR ''/'' \<Longrightarrow> local_target (s @ q)"
  unfolding local_target_def by (cases q) (auto simp: append_eq_Cons_conv)

lemma cleaned_local: "local_target (cleaned_target url)"
proof -
  let ?clean = "path_Clean (takeWhile (\<lambda>c. c \<noteq> CHR ''?'') url)" and ?query = "dropWhile (\<lambda>c. c \<noteq> CHR ''?'') url"
  have clean: "local_target ?clean" using path_Clean_local by (simp add: local_target_def)
  have "?query = [] \<or> hd ?query \<noteq> CHR ''/''" using hd_dropWhile[of "\<lambda>c. c \<noteq> CHR ''?''" url] by auto
  moreover have "local_target (?clean @ ''/'')" if "last ?clean \<noteq> CHR ''/''"
    by (rule local_append[OF clean]) (use that in auto)
  ultimately show ?thesis
    using local_append[of _ ?query] clean unfolding cleaned_target_def Let_def by auto
qed

lemma valid_target_local: "validRedirect url \<Longrightarrow> local_target url"
proof -
  assume "validRedirect url"
  then obtain rest where "url = CHR ''/'' # rest" "\<not> has_prefix ''//'' url"
    by (cases url) (auto simp: validRedirect_def has_prefix_def)
  then show ?thesis by (auto simp: local_target_def has_prefix_def)
qed

lemma redirect_local: "validRedirect url \<Longrightarrow> local_target (redirect_location parses url)"
  unfolding redirect_location_def by (intro escape_local) (simp add: cleaned_local valid_target_local)

lemma redirect_root: "redirect_location parses ''/'' = ''/''"
  by (simp add: redirect_location_def cleaned_target_def path_Clean_def hexEscapeNonASCII_def Let_def)



fun loads :: "(go_error + maintenance_state) list \<Rightarrow> maintenance_state list" where
  "loads [] = []"
| "loads (Inl _ # ticks) = loads ticks"
| "loads (Inr s # ticks) = s # loads ticks"

text \<open>The results of the transition events flip, starting away from the initial state.\<close>

fun alternating :: "bool \<Rightarrow> runtime_result list \<Rightarrow> bool" where
  "alternating enabled [] = True"
| "alternating enabled (r # rs) \<longleftrightarrow>
     r = (if enabled then ResultAvailable else ResultUnavailable) \<and> alternating (\<not> enabled) rs"

definition transitions :: "maintenance_event list \<Rightarrow> runtime_result list" where
  "transitions events = map fst (filter (\<lambda>(_, _, t). t) events)"

lemma transitions_append [simp]: "transitions (xs @ ys) = transitions xs @ transitions ys"
  by (simp add: transitions_def)

text \<open>Polling keeps the last good snapshot: however many loads fail, the published snapshot is the
  last one loaded successfully, and the transition events strictly alternate between unavailable
  and available. A failed initial load is a startup failure and publishes nothing.\<close>

theorem maintenance_polling:
  "fst (maintenance_run a ticks snapshot) = last (snapshot # loads ticks) \<and>
   alternating (Enabled snapshot) (transitions (snd (maintenance_run a ticks snapshot))) \<and>
   maintenance_start a (Inl err) = (disabled_state, [(ResultFailed, ''store'', False)], MaintenanceError a ''load'' err)"
proof -
  have "fst (maintenance_run a ticks snapshot) = last (snapshot # loads ticks) \<and>
      alternating (Enabled snapshot) (transitions (snd (maintenance_run a ticks snapshot)))"
  proof (induction ticks arbitrary: snapshot)
    case Nil
    then show ?case by (simp add: transitions_def)
  next
    case (Cons loaded ticks)
    show ?case
    proof (cases loaded)
      case (Inl e)
      with Cons[of snapshot] show ?thesis
        by (cases "maintenance_run a ticks snapshot") (simp add: refresh_def transitions_def)
    next
      case (Inr s)
      with Cons[of s] show ?thesis
        by (cases "maintenance_run a ticks s"; cases "loads ticks"; cases "Enabled snapshot"; cases "Enabled s")
          (simp_all add: refresh_def transitions_def)
    qed
  qed
  then show ?thesis
    by (simp add: maintenance_start_def refresh_def newMaintenanceRuntime_def)
qed

text \<open>The generated bypass token is always accepted, the two secret options exclude each other, and
  whatever the down command stores passed validation: an invalid option is a definition error and
  nothing is stored.\<close>

theorem down_stores_only_valid:
  assumes "down_command a now generated store opts = (stored, err)"
    and "\<forall>c\<in>set generated. of_char c \<in> {65..90} \<union> {50..(55 :: nat)}"
    and "26 \<le> length generated" and "length generated \<le> 128"
  shows "(\<forall>s. stored = Some s \<longrightarrow> validateEnabledMaintenanceState a s = NilErr \<and> store s = NilErr \<and> err = NilErr \<and>
      (opt_with_secret opts \<longrightarrow> Secret s = generated)) \<and>
    (opt_with_secret opts \<and> opt_secret opts = [] \<and> 0 < now \<and> validateMaintenanceState a
        \<lparr>Enabled = True, Since = now, RetryAfter = opt_retry opts, Refresh = opt_refresh opts,
         Redirect = opt_redirect opts, Secret = []\<rparr> = NilErr \<and> (\<forall>s. store s = NilErr) \<longrightarrow> stored \<noteq> None)"
proof -
  have "list_all secret_character generated"
    using assms(2) by (fastforce simp: list_all_iff secret_character_def Let_def)
  then have secret: "validMaintenanceSecret generated"
    using assms(3,4) by (simp add: validMaintenanceSecret_def)
  have reason: "\<exists>b reason. validateEnabledMaintenanceState a s = NilErr \<or>
      validateEnabledMaintenanceState a s = ErrorString b reason" for s
    by (simp add: validateEnabledMaintenanceState_def validateMaintenanceState_def)
  have stored: "maintenanceStoreState a store s = (stored, err) \<Longrightarrow>
      stored = Some t \<Longrightarrow> t = s \<and> validateEnabledMaintenanceState a s = NilErr \<and> store s = NilErr \<and> err = NilErr" for s t
    using reason[of s] by (auto simp: maintenanceStoreState_def split: if_splits)
  define s where "s = \<lparr>Enabled = True, Since = now, RetryAfter = opt_retry opts, Refresh = opt_refresh opts,
    Redirect = opt_redirect opts, Secret = if opt_with_secret opts then generated else opt_secret opts\<rparr>"
  show ?thesis
  proof (cases "opt_with_secret opts \<and> opt_secret opts \<noteq> []")
    case True
    with assms(1) show ?thesis by (simp add: down_command_def Let_def)
  next
    case False
    with assms(1) have store_s: "maintenanceStoreState a store s = (stored, err)"
      by (auto simp: down_command_def Let_def s_def split: if_splits)
    have valid: "validateEnabledMaintenanceState a s = NilErr"
      if "opt_with_secret opts" "0 < now" "validateMaintenanceState a (s\<lparr>Secret := []\<rparr>) = NilErr"
      using that secret by (auto simp: validateEnabledMaintenanceState_def validateMaintenanceState_def s_def split: if_splits)
    have enough: "stored \<noteq> None" if "opt_with_secret opts" "0 < now" "\<forall>s. store s = NilErr"
        "validateMaintenanceState a (s\<lparr>Secret := []\<rparr>) = NilErr"
      using that(3) store_s valid[OF that(1,2,4)] by (auto simp: maintenanceStoreState_def)
    show ?thesis
    proof (intro conjI allI impI; (elim conjE)?)
      fix t assume "stored = Some t"
      from stored[OF store_s this] have t: "t = s" "validateEnabledMaintenanceState a s = NilErr"
        "store s = NilErr" "err = NilErr" by blast+
      show "validateEnabledMaintenanceState a t = NilErr" "store t = NilErr" "err = NilErr"
        using t by simp_all
      show "Secret t = generated" if "opt_with_secret opts" using t(1) that by (simp add: s_def)
    next
      assume "opt_with_secret opts" "0 < now" "\<forall>s. store s = NilErr"
        "validateMaintenanceState a \<lparr>Enabled = True, Since = now, RetryAfter = opt_retry opts,
          Refresh = opt_refresh opts, Redirect = opt_redirect opts, Secret = []\<rparr> = NilErr"
      then show "stored \<noteq> None" by (intro enough) (simp_all add: s_def)
    qed
  qed
qed

theorem down_stores_only_valid_witness:
  "\<exists>s. fst (down_command 0 7 (replicate 26 (char_of (65 :: nat))) (\<lambda>_. NilErr)
     \<lparr>opt_retry = 0, opt_refresh = 0, opt_secret = [], opt_with_secret = True, opt_redirect = []\<rparr>) = Some s"
  using down_stores_only_valid[of 0 7 "replicate 26 (char_of (65 :: nat))" "\<lambda>_. NilErr"
    "\<lparr>opt_retry = 0, opt_refresh = 0, opt_secret = [], opt_with_secret = True, opt_redirect = []\<rparr>"
    "fst (down_command 0 7 (replicate 26 (char_of (65 :: nat))) (\<lambda>_. NilErr)
     \<lparr>opt_retry = 0, opt_refresh = 0, opt_secret = [], opt_with_secret = True, opt_redirect = []\<rparr>)"]
  by (cases "down_command 0 7 (replicate 26 (char_of (65 :: nat))) (\<lambda>_. NilErr)
     \<lparr>opt_retry = 0, opt_refresh = 0, opt_secret = [], opt_with_secret = True, opt_redirect = []\<rparr>")
    (simp add: validateMaintenanceState_def maintenance_constants)

text \<open>The path a client requests when it follows a location: up to the query or fragment.\<close>

definition path_of :: "string \<Rightarrow> string" where
  "path_of url = takeWhile (\<lambda>c. c \<noteq> CHR ''?'' \<and> c \<noteq> CHR ''#'') url"

text \<open>A redirect target that is not the path its location leads to passes validation but is never
  admitted: the client that follows the redirect asks for the path of the location, which differs from
  the configured string, and is sent to the same location again, without end. Targets with a query or
  a fragment are of this kind.\<close>

theorem redirect_with_query_loops:
  assumes "Enabled s" and "Secret s = []" and "Redirect s \<noteq> []"
    and "path_of (redirect_location parses (Redirect s)) \<noteq> Redirect s"
    and "rq_path rq = path_of (redirect_location parses (Redirect s))"
  shows "\<exists>an. admission cookieValue parses response s rq = Answered an \<and> an_status an = 302 \<and>
    an_location an = Some (redirect_location parses (Redirect s))"
  using assms by (simp add: admission_def maintenanceBypassed_def)

lemma query_never_admitted:
  assumes "CHR ''?'' \<in> set url \<or> CHR ''#'' \<in> set url"
  shows "path_of location \<noteq> url"
proof
  assume eq: "path_of location = url"
  have "\<forall>c\<in>set (path_of location). c \<noteq> CHR ''?'' \<and> c \<noteq> CHR ''#''"
    by (auto simp: path_of_def dest: set_takeWhileD)
  with assms eq show False by auto
qed

theorem redirect_with_query_loops_witness:
  "validateMaintenanceState 0 (demo_state\<lparr>Redirect := ''/m?x''\<rparr>) = NilErr \<and>
   (\<exists>an. admission (\<lambda>s. s) (\<lambda>_. True) None (demo_state\<lparr>Redirect := ''/m?x''\<rparr>)
      \<lparr>rq_method = ''GET'', rq_path = ''/m'', rq_cookie = None\<rparr> = Answered an \<and> an_location an = Some ''/m?x'')"
proof -
  have l: "redirect_location (\<lambda>_. True) ''/m?x'' = ''/m?x''" by code_simp
  have "path_of ''/m?x'' \<noteq> ''/m?x''" by (rule query_never_admitted) simp
  moreover have "path_of ''/m?x'' = ''/m''" by code_simp
  ultimately show ?thesis
    using redirect_with_query_loops[of "demo_state\<lparr>Redirect := ''/m?x''\<rparr>" "\<lambda>_. True"
      "\<lparr>rq_method = ''GET'', rq_path = ''/m'', rq_cookie = None\<rparr>" "\<lambda>s. s" None] l
    by (auto simp: demo_state_def validateMaintenanceState_def validRedirect_def has_prefix_def
      line_break_def maintenance_constants)
qed

text \<open>The file store accepts snapshots it cannot load back: the redirect has no length bound, so for
  any encoding at least as long as the redirect a valid snapshot over 8 KiB is published, and
  every later load fails with the size error.\<close>

theorem oversized_snapshot_unloadable:
  assumes "\<And>p. length (ps_Redirect p) \<le> length (cd_Marshal codec p)" and "maximumMaintenanceStateBytes \<le> n"
  shows "let s = \<lparr>Enabled = True, Since = 1, RetryAfter = 0, Refresh = 0, Redirect = CHR ''/'' # replicate n CHR ''a'', Secret = []\<rparr>;
      (fs', err) = file_StoreMaintenance codec a CtxActive IOok None IOok True s fs
    in err = NilErr \<and> file_LoadMaintenance codec b CtxActive CtxActive fs' =
         Inl (ErrorString b ''maintenance state exceeds size limit'')"
proof -
  let ?s = "\<lparr>Enabled = True, Since = 1, RetryAfter = 0, Refresh = 0, Redirect = CHR ''/'' # replicate n CHR ''a'', Secret = []\<rparr>"
  have "0 < n" using assms(2) by (simp add: maintenance_constants)
  then have valid: "validateEnabledMaintenanceState a ?s = NilErr"
    by (cases n) (auto simp: validateEnabledMaintenanceState_def validateMaintenanceState_def validRedirect_def
        has_prefix_def line_break_def maintenance_constants list_ex_iff)
  moreover have "\<not> length (cd_Marshal codec (persist codec ?s)) + 1 \<le> maximumMaintenanceStateBytes"
    using assms(1)[of "persist codec ?s"] assms(2) by (simp add: persist_def)
  ultimately show ?thesis
    by (simp add: file_StoreMaintenance_def file_LoadMaintenance_def file_read_def snapshot_bytes_def
        readMaintenanceSnapshot_bound parseMaintenanceSnapshot_def Let_def)
qed

theorem oversized_snapshot_unloadable_witness:
  "let s = \<lparr>Enabled = True, Since = 1, RetryAfter = 0, Refresh = 0, Redirect = CHR ''/'' # replicate 9000 CHR ''a'', Secret = []\<rparr>;
      (fs', err) = file_StoreMaintenance demo_codec 0 CtxActive IOok None IOok True s
        \<lparr>fs_file = None, fs_temporary = None\<rparr>
    in err = NilErr \<and> file_LoadMaintenance demo_codec 0 CtxActive CtxActive fs' =
         Inl (ErrorString 0 ''maintenance state exceeds size limit'')"
  by (rule oversized_snapshot_unloadable) (simp_all add: maintenance_constants demo_codec_def put_string_def)

text \<open>A custom maintenance handler that flushes before it writes answers 200: the flush reaches the
  underlying writer through Unwrap and commits the default status before the wrapper can force
  503, so a maintenance page is served as a success.\<close>

theorem maintenance_flush_answers_200:
  assumes "Enabled s" and "Secret s = []" and "Redirect s = []" and "rq_method rq \<noteq> ''HEAD''"
  shows "\<exists>an. admission cookieValue parses (Some [OpFlush, OpHeader 503, OpWrite page]) s rq = Answered an \<and>
    an_status an = 200 \<and> an_body an = page"
  using assms
  by (simp add: admission_def maintenanceBypassed_def custom_answer_def Let_def mw_defs fresh_writer_def)

theorem maintenance_flush_answers_200_witness:
  "\<exists>an. admission (\<lambda>s. s) (\<lambda>_. True) (Some [OpFlush, OpHeader 503, OpWrite ''down'']) (demo_state\<lparr>Redirect := []\<rparr>)
     \<lparr>rq_method = ''GET'', rq_path = ''/'', rq_cookie = None\<rparr> = Answered an \<and> an_status an = 200"
  using maintenance_flush_answers_200[of "demo_state\<lparr>Redirect := []\<rparr>"
      "\<lparr>rq_method = ''GET'', rq_path = ''/'', rq_cookie = None\<rparr>" "\<lambda>s. s" "\<lambda>_. True" "''down''"]
  by (auto simp: demo_state_def)

end
