(* ===== verification/Commands.thy ===== *)
theory Commands
  imports Identity Exit_Codes Maintenance
begin

section \<open>Definitions and commands\<close>

text \<open>
  Models the part of \<^verbatim>\<open>platform.go\<close> that turns a definition into commands: \<^verbatim>\<open>CommandFor\<close>,
  \<^verbatim>\<open>definitionCommands\<close>, the checks of \<^verbatim>\<open>compileDefinition\<close> and the handler it gives every command.
  The callbacks of a command and the correlation factory are the application's and another
  package's; what they return is an argument.
\<close>

subsection \<open>Registrations\<close>

text \<open>
  An option of a command is a value of the command-line library, known by its address; a declared
  option may be nil.
\<close>

type_synonym option_definition = "addr option"

record registration =
  reg_name :: string
  reg_summary :: string
  reg_kind :: command_kind
  reg_options :: "option_definition list"
  reg_invalid :: string

definition CommandFor :: "string \<Rightarrow> string \<Rightarrow> command_kind \<Rightarrow> option_definition list \<Rightarrow> bool \<Rightarrow> bool \<Rightarrow> registration" where
  "CommandFor name summary kind options load_present build_present =
     \<lparr>reg_name = name, reg_summary = summary, reg_kind = kind, reg_options = options,
      reg_invalid = (if \<not> load_present \<or> \<not> build_present then ''requires load and build callbacks'' else [])\<rparr>"

text \<open>A callback with a result: it returned an error or a value, or panicked.\<close>

datatype 'a call = CallReturned "go_error + 'a" | CallPanicked panic_value

fun contained :: "addr \<Rightarrow> string \<Rightarrow> string \<Rightarrow> 'a call \<Rightarrow> go_error + 'a" where
  "contained a command operation (CallReturned r) = r"
| "contained a command operation (CallPanicked v) = Inl (PanicError a command operation v)"

definition loadCommandConfiguration :: "addr \<Rightarrow> string \<Rightarrow> 'c call \<Rightarrow> go_error + 'c" where
  "loadCommandConfiguration a command load = contained a command ''load configuration'' load"

definition buildCommandPlan :: "addr \<Rightarrow> string \<Rightarrow> ('c \<Rightarrow> 'p call) \<Rightarrow> 'c \<Rightarrow> go_error + 'p" where
  "buildCommandPlan a command build configuration = contained a command ''build plan'' (build configuration)"

definition command_build :: "addr \<Rightarrow> string \<Rightarrow> 'c call \<Rightarrow> ('c \<Rightarrow> 'p call) \<Rightarrow> go_error + 'p" where
  "command_build a name load build =
     (case loadCommandConfiguration a name load of
        Inl err \<Rightarrow> Inl (ConfigurationError a name err)
      | Inr configuration \<Rightarrow>
          (case buildCommandPlan a name build configuration of
             Inl err \<Rightarrow> Inl (ConstructionError a name err)
           | Inr plan \<Rightarrow> Inr plan))"

subsection \<open>The commands of a definition\<close>

record commands =
  cmd_Serve :: "registration option"
  cmd_Worker :: "registration option"
  cmd_Schedule :: "registration option"
  cmd_Migrate :: "registration option"
  cmd_Custom :: "registration option list"

definition standard_commands :: "commands \<Rightarrow> (string \<times> command_kind \<times> registration option) list" where
  "standard_commands commands =
     [(''serve'', CommandKindLongRunning, cmd_Serve commands),
      (''worker'', CommandKindLongRunning, cmd_Worker commands),
      (''schedule'', CommandKindLongRunning, cmd_Schedule commands),
      (''migrate'', CommandKindOneShot, cmd_Migrate commands)]"

definition isStandardCommand :: "string \<Rightarrow> bool" where
  "isStandardCommand name \<longleftrightarrow> name = ''serve'' \<or> name = ''worker'' \<or> name = ''schedule'' \<or> name = ''migrate''"

fun standard_loop ::
    "addr \<Rightarrow> (string \<times> command_kind \<times> registration option) list \<Rightarrow> registration list \<Rightarrow> go_error + registration list" where
  "standard_loop a [] registered = Inr registered"
| "standard_loop a ((name, kind, None) # rest) registered = standard_loop a rest registered"
| "standard_loop a ((name, kind, Some reg) # rest) registered =
     (if reg_name reg \<noteq> name then
        Inl (DefinitionError a (''Commands.'' @ name) (''must register command '' @ name))
      else if reg_kind reg \<noteq> kind then Inl (DefinitionError a (''Commands.'' @ name) ''uses the wrong command kind'')
      else standard_loop a rest (registered @ [reg]))"

fun custom_loop :: "addr \<Rightarrow> nat \<Rightarrow> string list \<Rightarrow> registration option list \<Rightarrow> go_error" where
  "custom_loop a index names [] = NilErr"
| "custom_loop a index names (command # rest) =
     (case command of
        None \<Rightarrow> DefinitionError a (indexed ''Commands.Custom'' index '''') ''is empty''
      | Some reg \<Rightarrow>
          if isStandardCommand (reg_name reg) \<or> reg_name reg = ''help'' \<or> reg_name reg = ''version'' then
            DefinitionError a (indexed ''Commands.Custom'' index '''') ''uses a reserved command name''
          else if reg_name reg \<in> set names then
            DefinitionError a (indexed ''Commands.Custom'' index '''') ''duplicates another command''
          else custom_loop a (Suc index) (reg_name reg # names) rest)"

fun registered_loop :: "addr \<Rightarrow> nat \<Rightarrow> registration list \<Rightarrow> go_error" where
  "registered_loop a index [] = NilErr"
| "registered_loop a index (command # rest) =
     (if \<not> validCommandName (reg_name command) then
        DefinitionError a (indexed ''Commands'' index ''.Name'') ''must be lowercase kebab case''
      else if reg_kind command \<noteq> CommandKindLongRunning \<and> reg_kind command \<noteq> CommandKindOneShot then
        DefinitionError a (indexed ''Commands'' index ''.Kind'') ''is unknown''
      else if reg_invalid command \<noteq> [] then
        DefinitionError a (indexed ''Commands'' index '''') (reg_invalid command)
      else registered_loop a (Suc index) rest)"

definition definitionCommands :: "addr \<Rightarrow> commands \<Rightarrow> go_error + registration list" where
  "definitionCommands a commands =
     (case standard_loop a (standard_commands commands) [] of
        Inl err \<Rightarrow> Inl err
      | Inr standard \<Rightarrow>
          let invalid = custom_loop a 0 (map reg_name standard) (cmd_Custom commands) in
          if invalid \<noteq> NilErr then Inl invalid
          else
            let registered = standard @ map the (cmd_Custom commands);
                invalid = registered_loop a 0 registered
            in if invalid \<noteq> NilErr then Inl invalid else Inr registered)"

subsection \<open>Compiling a definition\<close>

text \<open>The fields of \<^verbatim>\<open>Definition\<close> that compilation decides on.\<close>

record definition_data =
  def_Identity :: identity
  def_Commands :: commands
  def_Maintenance :: maintenance

fun maintenance_reserved :: "addr \<Rightarrow> nat \<Rightarrow> registration list \<Rightarrow> go_error" where
  "maintenance_reserved a index [] = NilErr"
| "maintenance_reserved a index (command # rest) =
     (if reg_name command \<in> {''down'', ''up'', ''status''} then
        DefinitionError a (indexed ''Commands'' index ''.Name'') ''is reserved by maintenance mode''
      else maintenance_reserved a (Suc index) rest)"

text \<open>\<open>disclosed\<close> is whether the correlation package accepts the disclosure policy.\<close>

definition compileDefinition_checks :: "addr \<Rightarrow> bool \<Rightarrow> definition_data \<Rightarrow> go_error + registration list" where
  "compileDefinition_checks a disclosed d =
     (case definitionCommands a (def_Commands d) of
        Inl err \<Rightarrow> Inl err
      | Inr commands \<Rightarrow>
          if validateIdentity a (def_Identity d) \<noteq> NilErr then Inl (validateIdentity a (def_Identity d))
          else if validateMaintenance a (def_Maintenance d) \<noteq> NilErr then Inl (validateMaintenance a (def_Maintenance d))
          else if \<not> disclosed then Inl (DefinitionError a ''CorrelationDisclosure'' ''is invalid'')
          else if commands = [] then Inl (DefinitionError a ''Commands'' ''must contain at least one command'')
          else
            let reserved = (if mt_Store (def_Maintenance d) then maintenance_reserved a 0 commands else NilErr)
            in if reserved \<noteq> NilErr then Inl reserved else Inr commands)"

text \<open>
  The handler of a command: the correlation values, the build and the plan's execution, each a
  result of the world, with the context as it stands when the code reads its cause.
\<close>

definition command_handler ::
    "addr \<Rightarrow> registration \<Rightarrow> go_error \<Rightarrow> go_error + 'p \<Rightarrow> ('p \<Rightarrow> go_error) \<Rightarrow> ctx_state \<Rightarrow> go_error" where
  "command_handler a command startErr built executed ctx =
     (if startErr \<noteq> NilErr then ConstructionError a (reg_name command) startErr
      else case built of
        Inl buildErr \<Rightarrow> preserveCommandSignal a ctx buildErr
      | Inr plan \<Rightarrow> preserveCommandSignal a ctx (executed plan))"

subsection \<open>What is accepted\<close>

definition custom_valid :: "registration option \<Rightarrow> bool" where
  "custom_valid command \<longleftrightarrow>
     (case command of None \<Rightarrow> False
      | Some reg \<Rightarrow> \<not> isStandardCommand (reg_name reg) \<and> reg_name reg \<noteq> ''help'' \<and> reg_name reg \<noteq> ''version'')"

interpretation custom_names: named_validation
  "\<lambda>i names cs. custom_loop a i names cs = NilErr" "\<lambda>c. reg_name (the c)" custom_valid for a
  by unfold_locales (auto simp: custom_valid_def split: option.splits)

definition registered_valid :: "registration \<Rightarrow> bool" where
  "registered_valid c \<longleftrightarrow> validCommandName (reg_name c) \<and>
     reg_kind c \<in> {CommandKindLongRunning, CommandKindOneShot} \<and> reg_invalid c = []"

lemma registered_loop_iff: "registered_loop a i cs = NilErr \<longleftrightarrow> (\<forall>c\<in>set cs. registered_valid c)"
  by (induction cs arbitrary: i) (auto simp: registered_valid_def)

lemma maintenance_reserved_iff:
  "maintenance_reserved a i cs = NilErr \<longleftrightarrow> (\<forall>c\<in>set cs. reg_name c \<notin> {''down'', ''up'', ''status''})"
  by (induction cs arbitrary: i) auto

definition present :: "(string \<times> command_kind \<times> registration option) list \<Rightarrow> registration list" where
  "present items = concat (map (\<lambda>(_, _, c). case c of None \<Rightarrow> [] | Some reg \<Rightarrow> [reg]) items)"

lemma standard_loop_iff:
  "standard_loop a items registered = Inr regs \<longleftrightarrow>
     (\<forall>(name, kind, c)\<in>set items. \<forall>reg. c = Some reg \<longrightarrow> reg_name reg = name \<and> reg_kind reg = kind) \<and>
     regs = registered @ present items"
  by (induction a items registered rule: standard_loop.induct) (auto simp: present_def)

definition items_ok :: "(string \<times> command_kind \<times> registration option) list \<Rightarrow> bool" where
  "items_ok items \<longleftrightarrow> (\<forall>(name, kind, c)\<in>set items. \<forall>reg. c = Some reg \<longrightarrow> reg_name reg = name \<and> reg_kind reg = kind)"

lemma present_simps [simp]:
  "present [] = []" "present ((name, kind, None) # items) = present items"
  "present ((name, kind, Some reg) # items) = reg # present items"
  by (simp_all add: present_def)

lemma items_ok_simps [simp]:
  "items_ok []" "items_ok ((name, kind, c) # items) \<longleftrightarrow>
     (\<forall>reg. c = Some reg \<longrightarrow> reg_name reg = name \<and> reg_kind reg = kind) \<and> items_ok items"
  by (simp_all add: items_ok_def)

lemma present_member: "items_ok items \<Longrightarrow> r \<in> set (present items) \<Longrightarrow> (reg_name r, reg_kind r, Some r) \<in> set items"
proof (induction items)
  case (Cons item items)
  obtain name kind c where "item = (name, kind, c)" by (cases item)
  with Cons show ?case by (cases c) auto
qed simp

lemma present_distinct: "items_ok items \<Longrightarrow> distinct (map fst items) \<Longrightarrow> distinct (map reg_name (present items))"
proof (induction items)
  case (Cons item items)
  obtain name kind c where item: "item = (name, kind, c)" by (cases item)
  have "items_ok items" using Cons.prems(1) item by simp
  then have "reg_name ` set (present items) \<subseteq> fst ` set items"
    using present_member by (metis (no_types, lifting) fst_conv image_eqI image_subsetI)
  then show ?case using Cons item by (cases c) auto
qed simp

lemma standard_names:
  assumes "standard_loop a (standard_commands cs) [] = Inr regs"
  shows "distinct (map reg_name regs)" and "\<forall>r\<in>set regs. isStandardCommand (reg_name r)"
    and "\<forall>r\<in>set regs. reg_kind r = (if reg_name r = ''migrate'' then CommandKindOneShot else CommandKindLongRunning)"
proof -
  have regs: "regs = present (standard_commands cs)"
    and ok: "items_ok (standard_commands cs)"
    using assms by (auto simp: standard_loop_iff items_ok_def)
  show "distinct (map reg_name regs)"
    unfolding regs by (rule present_distinct[OF ok]) (simp add: standard_commands_def)
  have "(reg_name r, reg_kind r, Some r) \<in> set (standard_commands cs)" if "r \<in> set regs" for r
    using present_member[OF ok] that regs by blast
  then show "\<forall>r\<in>set regs. isStandardCommand (reg_name r)"
    and "\<forall>r\<in>set regs. reg_kind r = (if reg_name r = ''migrate'' then CommandKindOneShot else CommandKindLongRunning)"
    by (fastforce simp: standard_commands_def isStandardCommand_def)+
qed

text \<open>Every check rejects with a definition error.\<close>

definition rejection :: "go_error \<Rightarrow> bool" where
  "rejection e \<longleftrightarrow> (\<exists>a f r. e = DefinitionError a f r)"

lemma rejections:
  "standard_loop a items regs = Inl e \<Longrightarrow> rejection e"
  "custom_loop a i names cs \<noteq> NilErr \<Longrightarrow> rejection (custom_loop a i names cs)"
  "registered_loop a i rs \<noteq> NilErr \<Longrightarrow> rejection (registered_loop a i rs)"
  "maintenance_reserved a i rs \<noteq> NilErr \<Longrightarrow> rejection (maintenance_reserved a i rs)"
  "validateIdentity a identity \<noteq> NilErr \<Longrightarrow> rejection (validateIdentity a identity)"
  "validateMaintenance a m \<noteq> NilErr \<Longrightarrow> rejection (validateMaintenance a m)"
proof -
  show "standard_loop a items regs = Inl e \<Longrightarrow> rejection e"
    by (induction a items regs rule: standard_loop.induct) (auto simp: rejection_def split: if_splits)
  show "custom_loop a i names cs \<noteq> NilErr \<Longrightarrow> rejection (custom_loop a i names cs)"
    by (induction a i names cs rule: custom_loop.induct) (auto simp: rejection_def split: option.splits)
  show "registered_loop a i rs \<noteq> NilErr \<Longrightarrow> rejection (registered_loop a i rs)"
    by (induction a i rs rule: registered_loop.induct) (auto simp: rejection_def)
  show "maintenance_reserved a i rs \<noteq> NilErr \<Longrightarrow> rejection (maintenance_reserved a i rs)"
    by (induction a i rs rule: maintenance_reserved.induct) (auto simp: rejection_def)
  show "validateIdentity a identity \<noteq> NilErr \<Longrightarrow> rejection (validateIdentity a identity)"
    by (simp add: validateIdentity_def rejection_def split: if_splits)
  show "validateMaintenance a m \<noteq> NilErr \<Longrightarrow> rejection (validateMaintenance a m)"
    by (auto simp: validateMaintenance_def rejection_def split: if_splits)
qed

lemma rejection_exit: "rejection e \<Longrightarrow> exitCode e = 70"
  by (auto simp: rejection_def exitCode_def exitCodeWithDefault_def classificationAs_def classificationIs_iff
      walk_finds_first preorder_node children_def)

lemma compile_rejection: "compileDefinition_checks a disclosed d = Inl e \<Longrightarrow> rejection e"
  by (auto simp: compileDefinition_checks_def definitionCommands_def Let_def split: sum.splits if_splits
      intro: rejections) (simp_all add: rejection_def)

lemma definitionCommands_Inr:
  "definitionCommands a cs = Inr regs \<longleftrightarrow>
     (\<exists>standard. standard_loop a (standard_commands cs) [] = Inr standard \<and>
        custom_loop a 0 (map reg_name standard) (cmd_Custom cs) = NilErr \<and>
        regs = standard @ map the (cmd_Custom cs) \<and> (\<forall>c\<in>set regs. registered_valid c))"
  by (auto simp: definitionCommands_def Let_def registered_loop_iff split: sum.splits)

definition commands_wf :: "definition_data \<Rightarrow> registration list \<Rightarrow> bool" where
  "commands_wf d regs \<longleftrightarrow>
     regs \<noteq> [] \<and> distinct (map reg_name regs) \<and>
     (\<forall>r\<in>set regs. kebab_case (reg_name r) \<and> reg_name r \<notin> {''help'', ''version''} \<and>
        reg_kind r \<in> {CommandKindLongRunning, CommandKindOneShot} \<and>
        (isStandardCommand (reg_name r) \<longrightarrow>
          reg_kind r = (if reg_name r = ''migrate'' then CommandKindOneShot else CommandKindLongRunning)) \<and>
        (mt_Store (def_Maintenance d) \<longrightarrow> reg_name r \<notin> {''down'', ''up'', ''status''})) \<and>
     (\<exists>n. (\<forall>r\<in>set (take n regs). isStandardCommand (reg_name r)) \<and> drop n regs = map the (cmd_Custom (def_Commands d)))"

lemma compile_accepted:
  assumes "compileDefinition_checks a disclosed d = Inr regs"
  shows "commands_wf d regs"
proof -
  have regs: "definitionCommands a (def_Commands d) = Inr regs" "regs \<noteq> []"
    and reserved: "mt_Store (def_Maintenance d) \<longrightarrow> (\<forall>c\<in>set regs. reg_name c \<notin> {''down'', ''up'', ''status''})"
    using assms by (auto simp: compileDefinition_checks_def Let_def maintenance_reserved_iff split: sum.splits if_splits)
  from regs(1) obtain standard where std: "standard_loop a (standard_commands (def_Commands d)) [] = Inr standard"
    and custom: "custom_loop a 0 (map reg_name standard) (cmd_Custom (def_Commands d)) = NilErr"
    and split: "regs = standard @ map the (cmd_Custom (def_Commands d))"
    and valid: "\<forall>c\<in>set regs. registered_valid c"
    unfolding definitionCommands_Inr by blast
  note names = custom[unfolded custom_names.accepts_iff]
  have customs: "\<forall>r\<in>set (map the (cmd_Custom (def_Commands d))).
      \<not> isStandardCommand (reg_name r) \<and> reg_name r \<notin> {''help'', ''version''}"
    using names by (auto simp: custom_valid_def split: option.splits)
  have "distinct (map reg_name regs)"
    using names standard_names(1)[OF std] split by (auto simp: comp_def)
  moreover have "\<forall>r\<in>set regs. kebab_case (reg_name r) \<and> reg_kind r \<in> {CommandKindLongRunning, CommandKindOneShot}"
    using valid by (auto simp: registered_valid_def validCommandName_iff)
  moreover have "\<forall>r\<in>set regs. reg_name r \<notin> {''help'', ''version''} \<and> (isStandardCommand (reg_name r) \<longrightarrow>
      reg_kind r = (if reg_name r = ''migrate'' then CommandKindOneShot else CommandKindLongRunning))"
    using customs standard_names(2,3)[OF std] split by (auto simp: isStandardCommand_def)
  moreover have "\<exists>n. (\<forall>r\<in>set (take n regs). isStandardCommand (reg_name r)) \<and> drop n regs = map the (cmd_Custom (def_Commands d))"
    using standard_names(2)[OF std] split by (intro exI[of _ "length standard"]) simp
  ultimately show ?thesis unfolding commands_wf_def using regs(2) reserved by blast
qed

text \<open>C33. \<^bold>\<open>The commands of a compiled definition have distinct, valid names and the right kinds.\<close> A
  definition that passes the checks yields at least one command. The standard commands come first,
  in the order serve, worker, schedule, migrate; their kinds are fixed; custom names are never
  standard, reserved or repeated; every name is kebab case; with maintenance mode no command shadows
  \<^verbatim>\<open>down\<close>, \<^verbatim>\<open>up\<close> or \<^verbatim>\<open>status\<close>. Every rejection is inspectable as an invalid definition, so the
  process exits with 70 before any command runs.\<close>

theorem compiled_commands:
  "(compileDefinition_checks a disclosed d = Inr regs \<longrightarrow> commands_wf d regs) \<and>
   (compileDefinition_checks a disclosed d = Inl err \<longrightarrow> exitCode err = 70)"
  using compile_accepted compile_rejection rejection_exit by blast

definition sample_definition :: definition_data where
  "sample_definition =
     \<lparr>def_Identity = \<lparr>id_Name = ''orders'', id_Version = [], id_Commit = [], id_BuildTime = [], id_GoVersion = [],
        id_Environment = [], id_Instance = []\<rparr>,
      def_Commands = \<lparr>cmd_Serve = Some (CommandFor ''serve'' ''Serve'' CommandKindLongRunning [] True True),
        cmd_Worker = None, cmd_Schedule = None, cmd_Migrate = None,
        cmd_Custom = [Some (CommandFor ''import'' ''Import'' CommandKindOneShot [] True True)]\<rparr>,
      def_Maintenance = \<lparr>mt_Store = False, mt_RefreshInterval = 0, mt_OperationTimeout = 0, mt_Response = False\<rparr>\<rparr>"

lemma kebab_letters: "s \<noteq> [] \<Longrightarrow> list_all lower s \<Longrightarrow> kebab_case s"
  unfolding kebab_case_def
  by (intro exI[of _ "[s]"]) (cases s; auto simp: kebab_word_def list_all_iff)

theorem compiled_commands_witness:
  "\<exists>regs. compileDefinition_checks 1 True sample_definition = Inr regs \<and> distinct (map reg_name regs)"
proof -
  have names: "validCommandName ''orders'' \<and> validCommandName ''serve'' \<and> validCommandName ''import''"
    by (simp add: validCommandName_iff kebab_letters lower_def)
  then have "trim_space ''orders'' \<noteq> []" by (auto simp: validCommandName_def validRuntimeIdentity_def split: if_splits)
  with names have accepted: "compileDefinition_checks 1 True sample_definition =
      Inr [CommandFor ''serve'' ''Serve'' CommandKindLongRunning [] True True, CommandFor ''import'' ''Import'' CommandKindOneShot [] True True]"
    by (simp add: compileDefinition_checks_def sample_definition_def definitionCommands_def standard_commands_def
        CommandFor_def isStandardCommand_def validateIdentity_def validateMaintenance_def Let_def)
  from compiled_commands[THEN conjunct1, rule_format, OF accepted] accepted show ?thesis
    unfolding commands_wf_def by blast
qed

end
