(* ===== verification/Run.thy ===== *)
theory Run
  imports Shutdown_Budget
begin

section \<open>Running a service under signals\<close>

text \<open>
  Models \<^verbatim>\<open>run.go\<close> and the \<^verbatim>\<open>defaultSignals\<close> of the two signal files: validation, the wait for the
  first event, and shutdown with escalation. The calls into the service are effects in the order
  they are made; their results, the event that arrives and the moments of time are the world the
  code runs in. What a call does to the service is the subject of the lifecycle theories.
\<close>

subsection \<open>Validation\<close>

definition validateRun :: "addr \<Rightarrow> bool \<Rightarrow> bool \<Rightarrow> duration \<Rightarrow> go_error" where
  "validateRun a ctx_present runtime_present shutdownTimeout =
     (if \<not> ctx_present then ConfigError a ''ctx'' ''must not be nil''
      else if \<not> runtime_present then ConfigError a ''service'' ''must not be nil''
      else if shutdownTimeout < 0 then ConfigError a ''ShutdownTimeout'' ''must not be negative''
      else NilErr)"

fun validateSignals :: "addr \<Rightarrow> nat \<Rightarrow> os_signal option list \<Rightarrow> go_error" where
  "validateSignals a index [] = NilErr"
| "validateSignals a index (None # rest) = ConfigError a (indexed ''Signals'' index '''') ''must not be nil''"
| "validateSignals a index (Some _ # rest) = validateSignals a (Suc index) rest"

text \<open>Unix also listens for SIGTERM.\<close>

definition defaultSignals :: "bool \<Rightarrow> os_signal list" where
  "defaultSignals unix = (if unix then [Interrupt, SIGTERM] else [Interrupt])"

definition configuredSignals :: "bool \<Rightarrow> os_signal list \<Rightarrow> os_signal list" where
  "configuredSignals unix configured = (if configured = [] then defaultSignals unix else configured)"

definition defaultShutdownTimeout :: duration where "defaultShutdownTimeout = 30 * second"

definition effective_timeout :: "duration \<Rightarrow> duration" where
  "effective_timeout t = (if t = 0 then defaultShutdownTimeout else t)"

subsection \<open>Waiting and escalation\<close>

datatype wait_event = ReceivedSignal os_signal | SignalsClosed | ParentDone go_error | ServiceDone

datatype second_event = NoSecondSignal | SecondClosed | SecondSignal

datatype effect =
    CallStartService
  | CallCancel go_error
  | CallShutdown waiter
  | CancelWaiter
  | AwaitShutdown
  | CallShutdownBy go_time

record world =
  w_now :: go_time
  w_start :: go_error
  w_event :: wait_event
  w_second :: second_event
  w_waiter :: waiter
  w_returned :: go_time
  w_shutdown :: go_error
  w_completion :: go_error

fun event_effects :: "addr \<Rightarrow> wait_event \<Rightarrow> effect list" where
  "event_effects a (ReceivedSignal s) = [CallCancel (SignalError a s)]"
| "event_effects a SignalsClosed = [CallCancel (Sentinel ErrSignal)]"
| "event_effects a (ParentDone cause) = [CallCancel cause]"
| "event_effects a ServiceDone = []"

text \<open>
  \<open>w_waiter\<close> is the waiter as it stands when the code reads it again: a later state of the waiter
  that was created, with the deadline the budget then has.
\<close>

definition shutdownWithEscalation :: "addr \<Rightarrow> service \<Rightarrow> duration \<Rightarrow> world \<Rightarrow> effect list \<times> go_error" where
  "shutdownWithEscalation a runtime timeout w =
     (let created = newShutdownContext runtime (w_now w) timeout;
          shutdownResult = budgetedShutdown a (w_waiter w) (w_returned w) (w_shutdown w) in
      case w_second w of
        NoSecondSignal \<Rightarrow>
          ([CallShutdown created, AwaitShutdown, CancelWaiter], classifyShutdownError a shutdownResult)
      | SecondClosed \<Rightarrow>
          ([CallShutdown created, AwaitShutdown, CancelWaiter], classifyShutdownError a shutdownResult)
      | SecondSignal \<Rightarrow>
          ([CallShutdown created, CancelWaiter, AwaitShutdown,
            CallShutdownBy (shutdownDeadline (w_waiter w)), CancelWaiter],
           classifyShutdownError a (w_completion w)))"

definition waitWithSignals :: "addr \<Rightarrow> service \<Rightarrow> duration \<Rightarrow> world \<Rightarrow> effect list \<times> go_error" where
  "waitWithSignals a runtime timeout w =
     (let (effects, result) = shutdownWithEscalation a runtime timeout w
      in (event_effects a (w_event w) @ effects, result))"

definition RunWithSignals ::
    "addr \<Rightarrow> bool \<Rightarrow> service option \<Rightarrow> duration \<Rightarrow> bool \<Rightarrow> world \<Rightarrow> effect list \<times> go_error" where
  "RunWithSignals a ctx_present runtime shutdownTimeout signals_present w =
     (let invalid = validateRun a ctx_present (runtime \<noteq> None) shutdownTimeout in
      if invalid \<noteq> NilErr then ([], invalid)
      else if \<not> signals_present then ([], ConfigError a ''signals'' ''must not be nil'')
      else if w_start w \<noteq> NilErr then ([CallStartService], w_start w)
      else
        let (effects, result) = waitWithSignals a (the runtime) (effective_timeout shutdownTimeout) w
        in (CallStartService # effects, result))"

definition Run ::
    "addr \<Rightarrow> bool \<Rightarrow> service option \<Rightarrow> os_signal option list \<Rightarrow> duration \<Rightarrow> world \<Rightarrow> effect list \<times> go_error" where
  "Run a ctx_present runtime signals shutdownTimeout w =
     (let invalid = validateRun a ctx_present (runtime \<noteq> None) shutdownTimeout in
      if invalid \<noteq> NilErr then ([], invalid)
      else if validateSignals a 0 signals \<noteq> NilErr then ([], validateSignals a 0 signals)
      else RunWithSignals a ctx_present runtime shutdownTimeout True w)"

definition WaitWithSignals ::
    "addr \<Rightarrow> bool \<Rightarrow> service option \<Rightarrow> duration \<Rightarrow> bool \<Rightarrow> world \<Rightarrow> effect list \<times> go_error" where
  "WaitWithSignals a ctx_present runtime shutdownTimeout signals_present w =
     (let invalid = validateRun a ctx_present (runtime \<noteq> None) shutdownTimeout in
      if invalid \<noteq> NilErr then ([], invalid)
      else if \<not> signals_present then ([], ConfigError a ''signals'' ''must not be nil'')
      else if State (the runtime) \<noteq> StateReady \<and> State (the runtime) \<noteq> StateDraining then
        ([], StateError a ''wait'' (State (the runtime)))
      else waitWithSignals a (the runtime) (effective_timeout shutdownTimeout) w)"

definition Wait ::
    "addr \<Rightarrow> bool \<Rightarrow> service option \<Rightarrow> os_signal option list \<Rightarrow> duration \<Rightarrow> world \<Rightarrow> effect list \<times> go_error" where
  "Wait a ctx_present runtime signals shutdownTimeout w =
     (let invalid = validateRun a ctx_present (runtime \<noteq> None) shutdownTimeout in
      if invalid \<noteq> NilErr then ([], invalid)
      else if validateSignals a 0 signals \<noteq> NilErr then ([], validateSignals a 0 signals)
      else WaitWithSignals a ctx_present runtime shutdownTimeout True w)"

definition accepting_state :: "service \<Rightarrow> bool" where
  "accepting_state s \<longleftrightarrow> svc_state s = StateReady \<or> svc_state s = StateDraining"

lemmas run_defs = RunWithSignals_def WaitWithSignals_def waitWithSignals_def shutdownWithEscalation_def
  validateRun_def Let_def

lemma validateSignals_ok: "validateSignals a i signals = NilErr \<longleftrightarrow> None \<notin> set signals"
proof (induction signals arbitrary: i)
  case (Cons x xs)
  then show ?case by (cases x) auto
qed simp

text \<open>The waiter read later is the created one after some steps of its budget; \<open>phase\<close> is the moment its
  component phase began, if it has.\<close>

definition later_waiter :: "go_time \<Rightarrow> waiter \<Rightarrow> go_time option \<Rightarrow> waiter \<Rightarrow> bool" where
  "later_waiter now created phase later \<longleftrightarrow> (case created of
     SingleDeadline d _ \<Rightarrow> phase = None \<and> (\<exists>ctx. later = SingleDeadline d ctx)
   | TwoPhase b \<Rightarrow> (\<exists>x y. budget_init x \<and> bud x = b \<and> born x = now \<and> budget_step\<^sup>*\<^sup>* x y \<and>
       begun y = phase \<and> later = TwoPhase (bud y)))"

lemma budget_steps_born:
  "budget_step\<^sup>*\<^sup>* x y \<Longrightarrow> born y = born x \<and> allowance y = allowance x \<and> bg_component (bud y) = bg_component (bud x)"
proof (induction rule: rtranclp_induct)
  case (step y z)
  from step(2,3) show ?case
  proof (induction rule: budget_step.induct)
    case (stops_begin x' b phase)
    then have "begin_components (clock x') (bud x') = b" by (simp add: Let_def)
    from begin_cases[OF this] stops_begin(2) show ?case by auto
  qed (simp_all add: budget_expire_def budget_release_def)
qed simp

lemma escalation_deadline:
  assumes "later_waiter now (newShutdownContext runtime now timeout) phase later"
  shows "shutdownDeadline later = (case phase of None \<Rightarrow> now + timeout | Some t \<Rightarrow> t + componentStopTimeout runtime) \<and>
    (\<forall>t. phase = Some t \<longrightarrow> 0 < componentStopTimeout runtime \<and> now \<le> t)"
proof (cases "componentStopTimeout runtime \<le> 0")
  case True
  with assms show ?thesis by (auto simp: later_waiter_def newShutdownContext_def)
next
  case False
  define b where "b = \<lparr>bg_ctx = CtxActive, bg_component = componentStopTimeout runtime,
    bg_timer = TimerArmed (now + timeout), bg_deadline = now + timeout, bg_components = False\<rparr>"
  have "newShutdownContext runtime now timeout = TwoPhase b"
    using False by (simp add: newShutdownContext_def b_def)
  with assms obtain x y where xy: "budget_init x" "bud x = b" "born x = now" "budget_step\<^sup>*\<^sup>* x y"
    "begun y = phase" "later = TwoPhase (bud y)"
    by (auto simp: later_waiter_def)
  have "budget_inv x" using xy(1) by (rule budget.inv_init)
  then have inv: "budget_inv y" and "allowance x = timeout"
    using budget.reachable_steps_inv[OF _ xy(4)] xy(1-3)
    by (auto simp: budget_init_def newShutdownContext_def b_def split: if_splits)
  with budget_steps_born[OF xy(4)] xy(2,3,5,6) False show ?thesis
    by (auto simp: budget_inv_def Let_def b_def split: option.splits)
qed

subsection \<open>Properties\<close>

text \<open>C14. A run with valid arguments returns a startup failure directly, with no shutdown, and otherwise
  cancels the service with the cause of the first event (the signal received, \<^verbatim>\<open>ErrSignal\<close> when the
  signal channel was closed, the cause of the parent context; nothing when the service's own context
  ended) and then shuts the service down exactly once, its result classified. A second signal cancels
  that shutdown, joins it, and waits again without a fresh allowance: only until the deadline the
  waiter has at that moment, which is the start of the shutdown plus the total allowance, or, when the component
  phase had begun by then, the moment it began plus the component allowance.\<close>

theorem run_protocol:
  assumes "later_waiter (w_now w) (newShutdownContext runtime (w_now w) (effective_timeout timeout)) phase (w_waiter w)"
    and "0 \<le> timeout" and "None \<notin> set signals"
  shows "let (effects, result) = Run a True (Some runtime) signals timeout w in
     if w_start w \<noteq> NilErr then effects = [CallStartService] \<and> result = w_start w
     else \<exists>cancels tail. effects = CallStartService # cancels @
            CallShutdown (newShutdownContext runtime (w_now w) (effective_timeout timeout)) # tail \<and>
          (case w_event w of
             ReceivedSignal s \<Rightarrow> cancels = [CallCancel (SignalError a s)]
           | SignalsClosed \<Rightarrow> cancels = [CallCancel (Sentinel ErrSignal)]
           | ParentDone cause \<Rightarrow> cancels = [CallCancel cause]
           | ServiceDone \<Rightarrow> cancels = []) \<and>
          (if w_second w = SecondSignal
           then (\<exists>deadline. tail = [CancelWaiter, AwaitShutdown, CallShutdownBy deadline, CancelWaiter] \<and>
                   deadline = (case phase of None \<Rightarrow> w_now w + effective_timeout timeout
                               | Some t \<Rightarrow> t + componentStopTimeout runtime)) \<and>
                (\<forall>t. phase = Some t \<longrightarrow> 0 < componentStopTimeout runtime \<and> w_now w \<le> t) \<and>
                result = classifyShutdownError a (w_completion w)
           else tail = [AwaitShutdown, CancelWaiter] \<and>
                result = classifyShutdownError a (budgetedShutdown a (w_waiter w) (w_returned w) (w_shutdown w)))"
proof -
  have "case w_event w of
      ReceivedSignal s \<Rightarrow> event_effects a (w_event w) = [CallCancel (SignalError a s)]
    | SignalsClosed \<Rightarrow> event_effects a (w_event w) = [CallCancel (Sentinel ErrSignal)]
    | ParentDone cause \<Rightarrow> event_effects a (w_event w) = [CallCancel cause]
    | ServiceDone \<Rightarrow> event_effects a (w_event w) = []" by (simp split: wait_event.split)
  with escalation_deadline[OF assms(1)] assms(2,3) show ?thesis
    by (cases "w_second w") (simp_all add: Run_def run_defs validateSignals_ok)
qed

theorem run_protocol_witness:
  "\<exists>b. let (effects, result) = Run 0 True (Some (zero_service\<lparr>componentStopTimeout := 5\<rparr>)) [Some SIGTERM] 10
        \<lparr>w_now = 0, w_start = NilErr, w_event = ReceivedSignal SIGTERM, w_second = SecondSignal,
         w_waiter = TwoPhase b, w_returned = 6, w_shutdown = NilErr, w_completion = NilErr\<rparr>
   in CallCancel (SignalError 0 SIGTERM) \<in> set effects \<and> CallShutdownBy 9 \<in> set effects"
proof -
  let ?runtime = "zero_service\<lparr>componentStopTimeout := 5\<rparr>"
  let ?b = "\<lparr>bg_ctx = CtxActive, bg_component = 5, bg_timer = TimerArmed 10, bg_deadline = 10, bg_components = False\<rparr>"
  let ?start = "\<lparr>clock = 0, bud = ?b, born = 0, allowance = 10, begun = None\<rparr>"
  let ?e = "?b\<lparr>bg_components := True, bg_deadline := 9, bg_timer := TimerArmed 9\<rparr>"
  let ?w = "\<lparr>w_now = 0, w_start = NilErr, w_event = ReceivedSignal SIGTERM, w_second = SecondSignal,
     w_waiter = TwoPhase ?e, w_returned = 6, w_shutdown = NilErr, w_completion = NilErr\<rparr>"
  have new: "newShutdownContext ?runtime 0 10 = TwoPhase ?b" by (simp add: newShutdownContext_def)
  then have init: "budget_init ?start" by (auto simp: budget_init_def)
  have "budget_step ?start (?start\<lparr>clock := 4\<rparr>)" by (rule time_passes) simp
  moreover have "budget_step (?start\<lparr>clock := 4\<rparr>) (?start\<lparr>clock := 4, bud := ?e, begun := Some 4\<rparr>)"
    using stops_begin[of "?start\<lparr>clock := 4\<rparr>" ?e] by (simp add: begin_components_def)
  ultimately have "budget_step\<^sup>*\<^sup>* ?start (?start\<lparr>clock := 4, bud := ?e, begun := Some 4\<rparr>)" by simp
  with init have "later_waiter 0 (TwoPhase ?b) (Some 4) (TwoPhase ?e)"
    unfolding later_waiter_def waiter.case
    by (intro exI[of _ ?start] exI[of _ "?start\<lparr>clock := 4, bud := ?e, begun := Some 4\<rparr>"]) simp
  then have "later_waiter (w_now ?w) (newShutdownContext ?runtime (w_now ?w) (effective_timeout 10)) (Some 4) (w_waiter ?w)"
    by (simp add: new effective_timeout_def)
  from run_protocol[OF this, of "[Some SIGTERM]" 0] show ?thesis by (intro exI[of _ ?e]) auto
qed

text \<open>Invalid arguments of Run and Wait are rejected with a configuration error before any effect,
  and waiting is accepted only on a ready or draining service.\<close>

theorem run_rejects_invalid:
  "(\<not> ctx \<or> runtime = None \<or> timeout < 0 \<or> None \<in> set signals \<longrightarrow>
      (\<exists>field reason. Run a ctx runtime signals timeout w = ([], ConfigError a field reason) \<and>
         Wait a ctx runtime signals timeout w = ([], ConfigError a field reason))) \<and>
   (ctx \<and> 0 \<le> timeout \<and> None \<notin> set signals \<and> runtime = Some s \<and> \<not> accepting_state s \<longrightarrow>
      Wait a ctx runtime signals timeout w = ([], StateError a ''wait'' (svc_state s)))"
proof -
  have "\<exists>field reason. validateSignals a i signals = ConfigError a field reason" if "None \<in> set signals" for i
    using that
  proof (induction signals arbitrary: i)
    case (Cons x xs)
    then show ?case by (cases x) auto
  qed simp
  then show ?thesis
    using validateSignals_ok[of a 0 signals]
    by (auto simp: Run_def Wait_def WaitWithSignals_def validateRun_def State_def accepting_state_def)
qed

definition idle_world :: world where
  "idle_world = \<lparr>w_now = 0, w_start = NilErr, w_event = ServiceDone, w_second = NoSecondSignal,
     w_waiter = SingleDeadline 0 CtxActive, w_returned = 0, w_shutdown = NilErr, w_completion = NilErr\<rparr>"

theorem run_rejects_invalid_witness:
  "Wait 0 True (Some zero_service) [] 0 idle_world = ([], StateError 0 ''wait'' StateNew)"
  using run_rejects_invalid[of True "Some zero_service" 0 "[]" 0 idle_world zero_service]
  by (simp add: zero_service_def accepting_state_def)

end
