(* ===== verification/Capacity.thy ===== *)
theory Capacity
  imports Prelude
begin

section \<open>Bounded capacity\<close>

text \<open>
  The contract of a counting semaphore, as the clients of a buffered channel rely on it, and the
  buffered channel of empty structs that provides it. The health probes and the HTTP server's
  connection limit both use such a channel.
\<close>

datatype slot_op = Acquire | Release

fun slot_run :: "('s \<Rightarrow> 's option) \<Rightarrow> ('s \<Rightarrow> 's) \<Rightarrow> slot_op list \<Rightarrow> 's \<Rightarrow> 's" where
  "slot_run acquire release [] s = s"
| "slot_run acquire release (Acquire # ops) s =
     (case acquire s of None \<Rightarrow> slot_run acquire release ops s | Some t \<Rightarrow> slot_run acquire release ops t)"
| "slot_run acquire release (Release # ops) s = slot_run acquire release ops (release s)"

locale slots =
  fixes used :: "'s \<Rightarrow> nat"
    and capacity :: "'s \<Rightarrow> nat"
    and acquire :: "'s \<Rightarrow> 's option"
    and release :: "'s \<Rightarrow> 's"
  assumes acquire_some: "acquire s = Some t \<Longrightarrow> used s < capacity s \<and> used t = Suc (used s) \<and> capacity t = capacity s"
    and acquire_none: "acquire s = None \<Longrightarrow> capacity s \<le> used s"
    and release_one: "used (release s) = used s - 1 \<and> capacity (release s) = capacity s"
begin

lemma run_within_capacity:
  "used s \<le> capacity s \<Longrightarrow>
     used (slot_run acquire release ops s) \<le> capacity s \<and> capacity (slot_run acquire release ops s) = capacity s"
proof (induction ops arbitrary: s rule: list.induct)
  case (Cons op ops)
  then show ?case
  proof (cases op)
    case Acquire
    show ?thesis
    proof (cases "acquire s")
      case (Some t)
      with Acquire Cons.prems show ?thesis using acquire_some[OF Some] Cons.IH[of t] by simp
    qed (use Acquire Cons in simp)
  next
    case Release
    then show ?thesis
      using Cons.prems Cons.IH[of "release s"] release_one[of s] by auto
  qed
qed simp

lemma acquire_iff: "acquire s \<noteq> None \<longleftrightarrow> used s < capacity s"
  using acquire_some[of s] acquire_none[of s] by (cases "acquire s") auto

end

subsection \<open>The buffered channel\<close>

record slot_chan =
  chan_len :: nat
  chan_cap :: nat

definition try_send :: "slot_chan \<Rightarrow> slot_chan option" where
  "try_send c = (if chan_len c < chan_cap c then Some (c\<lparr>chan_len := Suc (chan_len c)\<rparr>) else None)"

definition receive :: "slot_chan \<Rightarrow> slot_chan" where
  "receive c = c\<lparr>chan_len := chan_len c - 1\<rparr>"

interpretation chan_slots: slots chan_len chan_cap try_send receive
  by unfold_locales (auto simp: try_send_def receive_def split: if_splits)

end
