(* ===== verification/Health.thy ===== *)
theory Health
  imports Capacity Lifecycle_Correct
begin

section \<open>Health probes\<close>

text \<open>
  Models \<^verbatim>\<open>healthhttp/health.go\<close>: the configuration and its validation, the three handlers, sequential
  and concurrent evaluation of the dependency checks, and the semaphore that bounds running checks
  across requests. A check is an application callback; the model is told what it did.
\<close>

subsection \<open>Configuration\<close>

definition health_defaultCheckTimeout :: duration where "health_defaultCheckTimeout = second"
definition defaultMaxConcurrency :: int where "defaultMaxConcurrency = 4"
definition defaultMaxChecks :: int where "defaultMaxChecks = 64"
definition maximumConcurrency :: int where "maximumConcurrency = 256"
definition maximumChecks :: int where "maximumChecks = 1024"

lemmas health_constants = health_defaultCheckTimeout_def defaultMaxConcurrency_def defaultMaxChecks_def
  maximumConcurrency_def maximumChecks_def

record check =
  check_Name :: string
  check_Run :: bool

definition ModeConcurrent :: nat where "ModeConcurrent = 0"
definition ModeSequential :: nat where "ModeSequential = 1"

record health_config =
  hc_Lifecycle :: bool
  hc_Checks :: "check list"
  hc_Mode :: nat
  hc_CheckTimeout :: duration
  hc_MaxConcurrency :: int
  hc_MaxChecks :: int
  hc_Details :: bool
  hc_Observer :: bool

record probes =
  lifecycle_present :: bool
  checks :: "check list"
  probe_mode :: nat
  probe_timeout :: duration
  details :: bool
  semaphore :: slot_chan
  observer_present :: bool

fun check_checks :: "nat \<Rightarrow> string list \<Rightarrow> check list \<Rightarrow> (string \<times> string) option" where
  "check_checks index names [] = None"
| "check_checks index names (c # cs) =
     (if trim_space (check_Name c) = '''' then Some (indexed ''Checks'' index ''.Name'', ''must not be blank'')
      else if \<not> check_Run c then Some (indexed ''Checks'' index ''.Run'', ''must not be nil'')
      else if check_Name c \<in> set names then Some (indexed ''Checks'' index ''.Name'', ''must be unique'')
      else check_checks (Suc index) (check_Name c # names) cs)"

text \<open>The field and reason of the \<^verbatim>\<open>ConfigError\<close>, or the probes.\<close>

definition health_New :: "health_config \<Rightarrow> (string \<times> string) + probes" where
  "health_New cfg =
     (if hc_Mode cfg \<noteq> ModeConcurrent \<and> hc_Mode cfg \<noteq> ModeSequential then Inl (''Mode'', ''is unknown'')
      else if hc_CheckTimeout cfg < 0 then Inl (''CheckTimeout'', ''must not be negative'')
      else if hc_MaxConcurrency cfg < 0 then Inl (''MaxConcurrency'', ''must not be negative'')
      else if hc_MaxChecks cfg < 0 then Inl (''MaxChecks'', ''must not be negative'')
      else if hc_MaxConcurrency cfg > maximumConcurrency then Inl (''MaxConcurrency'', ''exceeds hard limit'')
      else if hc_MaxChecks cfg > maximumChecks then Inl (''MaxChecks'', ''exceeds hard limit'')
      else
        let timeout = (if hc_CheckTimeout cfg = 0 then health_defaultCheckTimeout else hc_CheckTimeout cfg);
            maxConcurrency = (if hc_MaxConcurrency cfg = 0 then defaultMaxConcurrency else hc_MaxConcurrency cfg);
            maxChecks = (if hc_MaxChecks cfg = 0 then defaultMaxChecks else hc_MaxChecks cfg) in
        if maxConcurrency > maxChecks then Inl (''MaxConcurrency'', ''must not exceed MaxChecks'')
        else if int (length (hc_Checks cfg)) > maxChecks then Inl (''Checks'', ''exceeds MaxChecks'')
        else (case check_checks 0 [] (hc_Checks cfg) of
            Some err \<Rightarrow> Inl err
          | None \<Rightarrow> Inr \<lparr>lifecycle_present = hc_Lifecycle cfg, checks = hc_Checks cfg, probe_mode = hc_Mode cfg,
              probe_timeout = timeout, details = hc_Details cfg,
              semaphore = \<lparr>chan_len = 0, chan_cap = nat maxConcurrency\<rparr>,
              observer_present = hc_Observer cfg\<rparr>))"

subsection \<open>Checks\<close>

text \<open>What happened to one scheduled check: no slot before its deadline, the context ended before the
  callback, or the callback returned or panicked first.\<close>

datatype check_outcome = NoSlot | ContextEnded | CheckRan outcome

fun runCheck :: "outcome \<Rightarrow> bool" where
  "runCheck (Returned err) = (err = NilErr)"
| "runCheck (Panicked _) = False"

type_synonym check_result = "string \<times> string"

definition unavailable :: "check \<Rightarrow> check_result" where
  "unavailable c = (check_Name c, ''unavailable'')"

fun evaluateAcquiredCheck :: "check \<Rightarrow> outcome option \<Rightarrow> check_result" where
  "evaluateAcquiredCheck c (Some out) = (if runCheck out then (check_Name c, ''ok'') else unavailable c)"
| "evaluateAcquiredCheck c None = unavailable c"

fun evaluateCheck :: "check \<Rightarrow> check_outcome \<Rightarrow> check_result" where
  "evaluateCheck c NoSlot = unavailable c"
| "evaluateCheck c ContextEnded = evaluateAcquiredCheck c None"
| "evaluateCheck c (CheckRan out) = evaluateAcquiredCheck c (Some out)"

definition all_ok :: "check_result list \<Rightarrow> bool" where
  "all_ok results = list_all (\<lambda>r. snd r = ''ok'') results"

definition evaluate_sequential :: "check list \<Rightarrow> (nat \<Rightarrow> check_outcome) \<Rightarrow> bool \<times> check_result list" where
  "evaluate_sequential cs outs =
     (let results = map (\<lambda>i. evaluateCheck (cs ! i) (outs i)) [0..<length cs]
      in (all_ok results, results))"

text \<open>
  The concurrent mode fills every slot with unavailable, starts the checks that got a slot, and
  stores their results in the order they complete.
\<close>

definition started_checks :: "check list \<Rightarrow> (nat \<Rightarrow> check_outcome) \<Rightarrow> nat list" where
  "started_checks cs outs = filter (\<lambda>i. outs i \<noteq> NoSlot) [0..<length cs]"

definition evaluate_concurrent ::
    "check list \<Rightarrow> (nat \<Rightarrow> check_outcome) \<Rightarrow> nat list \<Rightarrow> bool \<times> check_result list" where
  "evaluate_concurrent cs outs order =
     (let results = fold (\<lambda>i rs. rs[i := evaluateCheck (cs ! i) (outs i)]) order (map unavailable cs)
      in (all_ok results, results))"

definition evaluate :: "probes \<Rightarrow> (nat \<Rightarrow> check_outcome) \<Rightarrow> nat list \<Rightarrow> bool \<times> check_result list" where
  "evaluate p outs order =
     (if probe_mode p = ModeSequential then evaluate_sequential (checks p) outs
      else evaluate_concurrent (checks p) outs order)"

subsection \<open>Handlers\<close>

record response =
  resp_status :: nat
  resp_headers :: "(string \<times> string) list"
  resp_body :: "(string \<times> string \<times> check_result list) option"

record observation =
  obs_probe :: string
  obs_available :: bool



definition base_headers :: "(string \<times> string) list" where
  "base_headers = [(''Content-Type'', ''application/json''), (''Cache-Control'', ''no-store''),
     (''X-Content-Type-Options'', ''nosniff'')]"

definition handler :: "probes \<Rightarrow> string \<Rightarrow> bool \<times> check_result list \<Rightarrow> string \<Rightarrow> response \<times> observation list" where
  "handler p probe healthy http_method =
     (if http_method \<noteq> ''GET'' \<and> http_method \<noteq> ''HEAD'' then
        (\<lparr>resp_status = 405, resp_headers = base_headers @ [(''Allow'', ''GET, HEAD'')], resp_body = None\<rparr>, [])
      else
        let (available, results) = healthy;
            observed = (if observer_present p then [\<lparr>obs_probe = probe, obs_available = available\<rparr>] else []);
            status = (if available then ''ok'' else ''unavailable'');
            statusCode = (if available then 200 else 503);
            shown = (if details p then results else []) in
        (\<lparr>resp_status = statusCode, resp_headers = base_headers,
          resp_body = (if http_method = ''HEAD'' then None else Some (status, probe, shown))\<rparr>, observed))"

definition Liveness :: "probes \<Rightarrow> string \<Rightarrow> response \<times> observation list" where
  "Liveness p = handler p ''liveness'' (True, [])"

definition Startup :: "probes \<Rightarrow> bool \<Rightarrow> string \<Rightarrow> response \<times> observation list" where
  "Startup p startup_complete =
     handler p ''startup'' (if \<not> lifecycle_present p then True else startup_complete, [])"

definition Readiness ::
    "probes \<Rightarrow> bool \<Rightarrow> (nat \<Rightarrow> check_outcome) \<Rightarrow> nat list \<Rightarrow> string \<Rightarrow> response \<times> observation list" where
  "Readiness p ready outs order =
     handler p ''readiness''
       (if lifecycle_present p \<and> \<not> ready then (False, []) else evaluate p outs order)"

subsection \<open>The semaphore across requests\<close>

datatype check_thread = WaitingForSlot | CheckRunning bool

inductive health_step :: "slot_chan \<times> check_thread multiset \<Rightarrow> slot_chan \<times> check_thread multiset \<Rightarrow> bool" where
  check_scheduled: "health_step (c, P) (c, add_mset WaitingForSlot P)"
| slot_acquired: "try_send c = Some c' \<Longrightarrow>
     health_step (c, add_mset WaitingForSlot P) (c', add_mset (CheckRunning True) P)"
| slot_timeout: "health_step (c, add_mset WaitingForSlot P) (c, P)"
| waiter_leaves: "health_step (c, add_mset (CheckRunning True) P) (c, add_mset (CheckRunning False) P)"
| check_returns: "health_step (c, add_mset (CheckRunning waited) P) (receive c, P)"

definition health_init :: "slot_chan \<times> check_thread multiset \<Rightarrow> bool" where
  "health_init x \<longleftrightarrow> (\<exists>cfg p. health_New cfg = Inr p \<and> x = (semaphore p, {#}))"

fun check_running :: "check_thread \<Rightarrow> bool" where
  "check_running (CheckRunning _) = True"
| "check_running WaitingForSlot = False"

definition slots_held :: "slot_chan \<times> check_thread multiset \<Rightarrow> bool" where
  "slots_held = (\<lambda>(c, P). chan_len c = size (filter_mset check_running P) \<and> chan_len c \<le> chan_cap c \<and>
     0 < chan_cap c \<and> chan_cap c \<le> 256)"

interpretation health: safe_system health_init health_step slots_held
proof
  fix x y
  show "health_init x \<Longrightarrow> slots_held x"
    by (auto simp: health_init_def health_New_def slots_held_def health_constants Let_def
        split: if_splits option.splits)
  assume "slots_held x" "health_step x y"
  then show "slots_held y"
    by (auto elim!: health_step.cases dest!: chan_slots.acquire_some
        simp: slots_held_def chan_slots.release_one receive_def)
qed

subsection \<open>Lifecycle sources\<close>

text \<open>The \<^verbatim>\<open>StateSource\<close> interface: what a probe may rely on is that ready implies started.\<close>

locale state_source =
  fixes startup_complete :: "'s \<Rightarrow> bool"
    and ready :: "'s \<Rightarrow> bool"
    and valid :: "'s \<Rightarrow> bool"
  assumes ready_started: "valid s \<Longrightarrow> ready s \<Longrightarrow> startup_complete s"
begin

lemma ready_probe_started:
  assumes "valid s" and "resp_status (fst (Readiness p (ready s) outs order http_method)) = 200"
  shows "resp_status (fst (Startup p (startup_complete s) http_method)) = 200"
  using assms ready_started[of s]
  by (auto simp: Readiness_def Startup_def handler_def Let_def split: if_splits prod.splits)

end

definition live_service :: "service \<Rightarrow> bool" where
  "live_service s \<longleftrightarrow> (\<exists>g P. lifecycle_reachable (g, P) \<and> svc g = s)"

interpretation service_source: state_source StartupComplete Ready live_service
proof
  fix s assume "live_service s" "Ready s"
  then obtain g P where "lifecycle_reachable (g, P)" "svc g = s" "svc_state s = StateReady"
    by (auto simp: live_service_def Ready_def)
  then show "StartupComplete s"
    using lifecycle.reachable_inv[of "(g, P)"]
    by (simp add: inv_order_def inv_phase_def phase_ok_def StartupComplete_def)
qed

interpretation check_names: named_validation
  "\<lambda>i names cs. check_checks i names cs = None" check_Name
  "\<lambda>c. trim_space (check_Name c) \<noteq> '''' \<and> check_Run c"
  by unfold_locales auto

subsection \<open>Properties\<close>

lemma fold_update_nth:
  assumes "distinct order" and "\<forall>i\<in>set order. i < length rs"
  shows "fold (\<lambda>i rs. rs[i := f i]) order rs = map (\<lambda>i. if i \<in> set order then f i else rs ! i) [0..<length rs]"
  using assms
proof (induction order arbitrary: rs)
  case Nil
  then show ?case by (simp add: map_nth)
next
  case (Cons a order)
  then show ?case by (auto simp: nth_list_update intro!: nth_equalityI)
qed

text \<open>C15. Concurrent evaluation is deterministic and agrees with sequential evaluation: in whatever
  order the started checks complete, the results are those of the checks in registration order,
  a check without a slot counts as unavailable, and the verdict is that every check was ok.\<close>

theorem concurrent_agrees_with_sequential:
  assumes "mset order = mset (started_checks cs outs)"
  shows "evaluate_concurrent cs outs order = evaluate_sequential cs outs"
proof -
  have "distinct order" "set order = {i. i < length cs \<and> outs i \<noteq> NoSlot}"
    using mset_eq_imp_distinct_iff[OF assms] mset_eq_setD[OF assms] by (auto simp: started_checks_def)
  then have "fold (\<lambda>i rs. rs[i := evaluateCheck (cs ! i) (outs i)]) order (map unavailable cs) =
      map (\<lambda>i. evaluateCheck (cs ! i) (outs i)) [0..<length cs]"
    by (subst fold_update_nth) auto
  then show ?thesis by (simp add: evaluate_concurrent_def evaluate_sequential_def)
qed

theorem concurrent_agrees_with_sequential_witness:
  "evaluate_concurrent [\<lparr>check_Name = ''a'', check_Run = True\<rparr>, \<lparr>check_Name = ''b'', check_Run = True\<rparr>]
     (\<lambda>i. CheckRan (Returned NilErr)) [1, 0] =
   evaluate_sequential [\<lparr>check_Name = ''a'', check_Run = True\<rparr>, \<lparr>check_Name = ''b'', check_Run = True\<rparr>]
     (\<lambda>i. CheckRan (Returned NilErr))"
  by (rule concurrent_agrees_with_sequential) (simp add: started_checks_def)

text \<open>C16. However many requests arrive and time out, the checks actually running never exceed the
  configured concurrency, which is between 1 and 256: an abandoned callback keeps its slot.\<close>

theorem running_checks_bounded:
  assumes "reachable health_init health_step (c, P)"
  shows "size (filter_mset check_running P) \<le> chan_cap c \<and> 0 < chan_cap c \<and> chan_cap c \<le> 256 \<and>
    (try_send c \<noteq> None \<longleftrightarrow> size (filter_mset check_running P) < chan_cap c)"
  using health.reachable_inv[OF assms] chan_slots.acquire_iff[of c] by (auto simp: slots_held_def)

definition demo_health :: health_config where
  "demo_health = \<lparr>hc_Lifecycle = True, hc_Checks = [\<lparr>check_Name = ''db'', check_Run = True\<rparr>], hc_Mode = 0,
     hc_CheckTimeout = 0, hc_MaxConcurrency = 1, hc_MaxChecks = 0, hc_Details = True, hc_Observer = False\<rparr>"

lemma demo_health_New:
  "health_New demo_health = Inr \<lparr>lifecycle_present = True, checks = [\<lparr>check_Name = ''db'', check_Run = True\<rparr>],
     probe_mode = 0, probe_timeout = second, details = True, semaphore = \<lparr>chan_len = 0, chan_cap = 1\<rparr>,
     observer_present = False\<rparr>"
  by (simp add: demo_health_def health_New_def health_constants ModeConcurrent_def ModeSequential_def
      trim_space_plain printable_def)

theorem running_checks_bounded_witness:
  "size (filter_mset check_running {#CheckRunning True#}) \<le> chan_cap \<lparr>chan_len = 1, chan_cap = 1\<rparr>"
proof -
  have "reachable health_init health_step (\<lparr>chan_len = 0, chan_cap = 1\<rparr>, {#})"
    by (rule reachable_init) (use demo_health_New in \<open>auto simp: health_init_def intro!: exI[of _ demo_health]\<close>)
  from reachable_step[OF reachable_step[OF this check_scheduled] slot_acquired]
  have "reachable health_init health_step (\<lparr>chan_len = 1, chan_cap = 1\<rparr>, {#CheckRunning True#})"
    by (simp add: try_send_def)
  from running_checks_bounded[OF this] show ?thesis by simp
qed

text \<open>Only a well-formed probe configuration is accepted: a known mode, non-negative bounds within
  the hard limits, concurrency within the number of checks, and checks that have a callback and
  distinct names that are not blank.\<close>

theorem health_New_accepts:
  "(\<exists>p. health_New cfg = Inr p) \<longleftrightarrow>
     (hc_Mode cfg = 0 \<or> hc_Mode cfg = 1) \<and> 0 \<le> hc_CheckTimeout cfg \<and>
     0 \<le> hc_MaxConcurrency cfg \<and> hc_MaxConcurrency cfg \<le> 256 \<and> 0 \<le> hc_MaxChecks cfg \<and> hc_MaxChecks cfg \<le> 1024 \<and>
     (if hc_MaxConcurrency cfg = 0 then 4 else hc_MaxConcurrency cfg) \<le> (if hc_MaxChecks cfg = 0 then 64 else hc_MaxChecks cfg) \<and>
     int (length (hc_Checks cfg)) \<le> (if hc_MaxChecks cfg = 0 then 64 else hc_MaxChecks cfg) \<and>
     (\<forall>c\<in>set (hc_Checks cfg). trim_space (check_Name c) \<noteq> '''' \<and> check_Run c) \<and>
     distinct (map check_Name (hc_Checks cfg))"
  using check_names.accepts_iff[of 0 "[]" "hc_Checks cfg"]
  by (simp add: health_New_def health_constants ModeConcurrent_def ModeSequential_def Let_def
      accepted_simps not_less conj_ac del: One_nat_def)

theorem health_New_accepts_witness:
  "\<exists>p. health_New demo_health = Inr p"
  using health_New_accepts[of demo_health] demo_health_New by simp

text \<open>What the probes answer: only GET and HEAD are served, a HEAD answer has no body, readiness is
  200 exactly when the lifecycle is ready and every check is ok, check names appear only with
  details enabled; and for a service under its lifecycle a ready answer implies a started one.\<close>

theorem probe_answers:
  assumes "live_service s" and "lifecycle_present p" and "http_method = ''GET'' \<or> http_method = ''HEAD''"
  shows "resp_status (fst (Readiness p (Ready s) outs order http_method)) =
      (if Ready s \<and> fst (evaluate p outs order) then 200 else 503) \<and>
    (Ready s \<longrightarrow> resp_status (fst (Startup p (StartupComplete s) http_method)) = 200) \<and>
    resp_status (fst (Liveness p http_method)) = 200 \<and>
    (http_method = ''HEAD'' \<longrightarrow> resp_body (fst (Readiness p (Ready s) outs order http_method)) = None) \<and>
    (\<forall>status probe results. \<not> details p \<and>
       resp_body (fst (Readiness p (Ready s) outs order http_method)) = Some (status, probe, results) \<longrightarrow> results = [])"
  using service_source.ready_started[OF assms(1)] assms(2,3)
  by (auto simp: Readiness_def Startup_def Liveness_def handler_def Let_def split: prod.splits)

theorem probe_answers_witness:
  "resp_status (fst (Startup \<lparr>lifecycle_present = True, checks = [], probe_mode = 0, probe_timeout = second,
     details = False, semaphore = \<lparr>chan_len = 0, chan_cap = 1\<rparr>, observer_present = False\<rparr>
     (StartupComplete (svc race_ready)) ''GET'')) = 200"
proof -
  have "live_service (svc race_ready)" using race_ready_reachable by (auto simp: live_service_def)
  moreover have "Ready (svc race_ready)" by (simp add: Ready_def Context_def race_defs)
  ultimately show ?thesis
    using probe_answers[of "svc race_ready" "\<lparr>lifecycle_present = True, checks = [], probe_mode = 0,
      probe_timeout = second, details = False, semaphore = \<lparr>chan_len = 0, chan_cap = 1\<rparr>, observer_present = False\<rparr>"
      "''GET''" "\<lambda>_. NoSlot" "[]"]
    by simp
qed

end
