(* ===== verification/Plan.thy ===== *)
theory Plan
  imports Commands Run Health
begin

section \<open>Executing a plan\<close>

text \<open>
  Models \<^verbatim>\<open>executePlan\<close> of \<^verbatim>\<open>platform.go\<close> with the validators it calls, the platform state behind
  the probes, and the two ways a command runs, \<^verbatim>\<open>executeOneShot\<close> and \<^verbatim>\<open>executeLongRunning\<close>. The
  service they build and drive is the one of the lifecycle theories; shutdown is that of the
  runner. Observability events do not change what these functions return and are left out.
\<close>

subsection \<open>Plans\<close>

record named_callback =
  nc_Name :: string
  nc_Run :: bool

text \<open>
  The records hold the fields that validation, assembly and execution read. Callbacks and handlers
  are their presence; a listener is its identity and the text of its address. The options and
  correlation settings of the listeners are arguments of the owners that use them.
\<close>

type_synonym listener = "addr \<times> string"

record management_config =
  mg_Address :: string
  mg_Listener :: "listener option"

record http_plan =
  ht_Address :: string
  ht_Listener :: "listener option"
  ht_Handler :: bool
  ht_JoinHandlers :: bool

record plan =
  pl_ShutdownTimeout :: duration
  pl_ComponentStopTimeout :: duration
  pl_StartupTimeout :: duration
  pl_RollbackTimeout :: duration
  pl_Components :: "component list"
  pl_Tasks :: "named_callback list"
  pl_HTTP :: "http_plan option"
  pl_Readiness :: "named_callback list"
  pl_Management :: bool
  pl_ManagementConfig :: "management_config option"

definition defaultManagementAddress :: string where
  "defaultManagementAddress = ''127.0.0.1:8081''"

definition defaultMaxReadinessChecks :: nat where "defaultMaxReadinessChecks = 64"

definition resolvedManagementAddress :: "string \<Rightarrow> string" where
  "resolvedManagementAddress address = (if address = [] then defaultManagementAddress else address)"

subsection \<open>Validation\<close>

definition callback_reason :: string where
  "callback_reason = ''requires a 1 to 128 byte name and run callback''"

fun check_callbacks :: "addr \<Rightarrow> string \<Rightarrow> nat \<Rightarrow> string list \<Rightarrow> named_callback list \<Rightarrow> go_error" where
  "check_callbacks a field index names [] = NilErr"
| "check_callbacks a field index names (c # cs) =
     (if \<not> validRuntimeIdentity (nc_Name c) \<or> \<not> nc_Run c then
        DefinitionError a (indexed field index '''') callback_reason
      else if nc_Name c \<in> set names then DefinitionError a (indexed field index ''.Name'') ''must be unique''
      else check_callbacks a field (Suc index) (nc_Name c # names) cs)"

definition validateReadiness :: "addr \<Rightarrow> named_callback list \<Rightarrow> go_error" where
  "validateReadiness a readiness =
     (if length readiness > defaultMaxReadinessChecks then
        DefinitionError a ''Plan.Readiness'' ''exceeds the maximum check count''
      else check_callbacks a ''Plan.Readiness'' 0 [] readiness)"

definition validateTasks :: "addr \<Rightarrow> named_callback list \<Rightarrow> go_error" where
  "validateTasks a tasks =
     (if int (length tasks) > defaultMaxTasks then
        DefinitionError a ''Plan.Tasks'' ''exceeds the maximum supervised task count''
      else check_callbacks a ''Plan.Tasks'' 0 [] tasks)"

definition validateManagement :: "addr \<Rightarrow> management_config \<Rightarrow> go_error" where
  "validateManagement a config =
     (if mg_Address config \<noteq> [] \<and> mg_Listener config \<noteq> None then
        DefinitionError a ''Management'' ''address and listener are mutually exclusive''
      else NilErr)"

definition listeners_collide :: "listener option \<Rightarrow> listener option \<Rightarrow> bool" where
  "listeners_collide l m =
     (case (l, m) of (Some x, Some y) \<Rightarrow> fst x = fst y \<or> snd x = snd y | _ \<Rightarrow> False)"

definition validateBusinessHTTP :: "addr \<Rightarrow> http_plan option \<Rightarrow> management_config \<Rightarrow> go_error" where
  "validateBusinessHTTP a http management =
     (case http of
        None \<Rightarrow> NilErr
      | Some config \<Rightarrow>
          if (ht_Address config = []) = (ht_Listener config = None) then
            DefinitionError a ''HTTP'' ''requires exactly one address or listener''
          else if \<not> ht_Handler config then DefinitionError a ''HTTP.Handler'' ''must not be nil''
          else if listeners_collide (ht_Listener config) (mg_Listener management) then
            DefinitionError a ''HTTP.Listener'' ''collides with management listener''
          else
            let managementAddress =
                  (if mg_Address management = [] \<and> mg_Listener management = None
                   then defaultManagementAddress else mg_Address management) in
            if ht_Address config \<noteq> [] \<and> ht_Address config = managementAddress then
              DefinitionError a ''HTTP.Address'' ''collides with management address''
            else NilErr)"

subsection \<open>The platform's own components and tasks\<close>

definition management_component :: component where
  "management_component = \<lparr>Name = ''service-management'', CloseAdmission = False, StartHook = True, StopHook = True\<rparr>"

definition maintenance_component :: component where
  "maintenance_component = \<lparr>Name = ''service-maintenance-state'', CloseAdmission = False, StartHook = True, StopHook = False\<rparr>"

definition business_component :: "http_plan \<Rightarrow> component" where
  "business_component http =
     \<lparr>Name = ''service-business-http-owner'', CloseAdmission = ht_JoinHandlers http, StartHook = True, StopHook = True\<rparr>"

definition business_task :: named_callback where
  "business_task = \<lparr>nc_Name = ''service-business-http'', nc_Run = True\<rparr>"

definition maintenance_task :: named_callback where
  "maintenance_task = \<lparr>nc_Name = ''service-maintenance-refresh'', nc_Run = True\<rparr>"

definition plan_components :: "command_kind \<Rightarrow> bool \<Rightarrow> plan \<Rightarrow> component list" where
  "plan_components kind maintained plan =
     (if kind = CommandKindLongRunning \<or> pl_Management plan then [management_component] else []) @
     (if kind = CommandKindLongRunning \<and> maintained then [maintenance_component] else []) @
     pl_Components plan @
     (case pl_HTTP plan of
        Some http \<Rightarrow> if kind = CommandKindLongRunning then [business_component http] else []
      | None \<Rightarrow> [])"

definition plan_tasks :: "command_kind \<Rightarrow> bool \<Rightarrow> plan \<Rightarrow> named_callback list" where
  "plan_tasks kind maintained plan =
     (if kind = CommandKindLongRunning \<and> maintained then [maintenance_task] else []) @
     (if kind = CommandKindLongRunning \<and> pl_HTTP plan \<noteq> None then [business_task] else []) @
     pl_Tasks plan"

definition plan_config :: "command_kind \<Rightarrow> bool \<Rightarrow> plan \<Rightarrow> config" where
  "plan_config kind maintained plan =
     \<lparr>Components = plan_components kind maintained plan,
      StartupTimeout = pl_StartupTimeout plan,
      RollbackTimeout = pl_RollbackTimeout plan,
      MaxTasks = (if pl_HTTP plan \<noteq> None then int (length (plan_tasks kind maintained plan)) else 0)\<rparr>"

text \<open>
  \<open>executePlan\<close> up to the start of the service: the guards in order, then \<^verbatim>\<open>New\<close>. The boolean is
  whether the definition has a maintenance store, \<open>configured\<close> its management listener.
\<close>

definition plan_guards :: "addr \<Rightarrow> management_config \<Rightarrow> registration \<Rightarrow> plan \<Rightarrow> go_error" where
  "plan_guards a configured command plan =
     (if pl_ShutdownTimeout plan < 0 then DefinitionError a ''Plan.ShutdownTimeout'' ''must not be negative''
      else if pl_ComponentStopTimeout plan < 0 then DefinitionError a ''Plan.ComponentStopTimeout'' ''must not be negative''
      else if pl_StartupTimeout plan < 0 then DefinitionError a ''Plan.StartupTimeout'' ''must not be negative''
      else if pl_RollbackTimeout plan < 0 then DefinitionError a ''Plan.RollbackTimeout'' ''must not be negative''
      else if reg_kind command = CommandKindOneShot \<and> pl_HTTP plan \<noteq> None then
        DefinitionError a ''Plan.HTTP'' ''is unavailable for one-shot commands''
      else if validateTasks a (pl_Tasks plan) \<noteq> NilErr then validateTasks a (pl_Tasks plan)
      else if reg_kind command = CommandKindLongRunning \<or> pl_Management plan then
        let managementConfig = (case pl_ManagementConfig plan of None \<Rightarrow> configured | Some m \<Rightarrow> m) in
        if validateReadiness a (pl_Readiness plan) \<noteq> NilErr then validateReadiness a (pl_Readiness plan)
        else if validateManagement a managementConfig \<noteq> NilErr then validateManagement a managementConfig
        else validateBusinessHTTP a (pl_HTTP plan) managementConfig
      else NilErr)"

definition plan_service :: "addr \<Rightarrow> management_config \<Rightarrow> bool \<Rightarrow> registration \<Rightarrow> plan \<Rightarrow> go_error + service" where
  "plan_service a configured maintained command plan =
     (if plan_guards a configured command plan \<noteq> NilErr then Inl (plan_guards a configured command plan)
      else case New a (plan_config (reg_kind command) maintained plan) of
        Inl err \<Rightarrow> Inl (ConstructionError a (reg_name command) err)
      | Inr runtime \<Rightarrow> Inr (runtime\<lparr>componentStopTimeout := pl_ComponentStopTimeout plan\<rparr>))"

subsection \<open>The platform state behind the probes\<close>

record platform_state =
  pst_runtime :: service
  pst_activated :: bool
  pst_maintenance :: "maintenance_state option"

definition newPlatformState :: "service \<Rightarrow> maintenance_state option \<Rightarrow> platform_state" where
  "newPlatformState runtime maintenance =
     \<lparr>pst_runtime = runtime, pst_activated = False, pst_maintenance = maintenance\<rparr>"

definition platform_Activate :: "platform_state \<Rightarrow> platform_state" where
  "platform_Activate st = st\<lparr>pst_activated := True\<rparr>"

definition platform_StartupComplete :: "platform_state \<Rightarrow> bool" where
  "platform_StartupComplete st \<longleftrightarrow> pst_activated st \<and> StartupComplete (pst_runtime st)"

definition platform_Ready :: "platform_state \<Rightarrow> bool" where
  "platform_Ready st \<longleftrightarrow> pst_activated st \<and> \<not> maintenance_enabled (pst_maintenance st) \<and> Ready (pst_runtime st)"

interpretation platform_source: state_source platform_StartupComplete platform_Ready "\<lambda>st. live_service (pst_runtime st)"
  by unfold_locales (auto simp: platform_StartupComplete_def platform_Ready_def intro: service_source.ready_started)

subsection \<open>One-shot commands\<close>

text \<open>The supervised task of a one-shot command: the names that executed and the error it reports.\<close>

fun one_shot_tasks :: "addr \<Rightarrow> (string \<times> outcome) list \<Rightarrow> string list \<times> go_error" where
  "one_shot_tasks a [] = ([], NilErr)"
| "one_shot_tasks a ((name, result) # rest) =
     (let err = invoke a name ''run'' result in
      if err \<noteq> NilErr then ([name], ComponentError a name ''run'' err)
      else let (names, err) = one_shot_tasks a rest in (name # names, err))"

definition shutdownOneShot :: "addr \<Rightarrow> world \<Rightarrow> go_error" where
  "shutdownOneShot a w = classifyShutdownError a (budgetedShutdown a (w_waiter w) (w_returned w) (w_shutdown w))"

definition observedShutdown :: "addr \<Rightarrow> service \<Rightarrow> duration \<Rightarrow> world \<Rightarrow> go_error" where
  "observedShutdown a runtime timeout w = snd (shutdownWithEscalation a runtime timeout w)"

definition shutdownAfterFailure :: "addr \<Rightarrow> go_error \<Rightarrow> world \<Rightarrow> go_error" where
  "shutdownAfterFailure a primary w = errors_join a [primary, shutdownOneShot a w]"

text \<open>\<open>ctx\<close> is the service's context when its cause is read, after the shutdown.\<close>

definition finishCanceledOneShot ::
    "addr \<Rightarrow> service \<Rightarrow> duration \<Rightarrow> bool \<Rightarrow> world \<Rightarrow> ctx_state \<Rightarrow> go_error \<Rightarrow> go_error" where
  "finishCanceledOneShot a runtime timeout escalation w ctx taskErr =
     (let shutdownErr = (if escalation then observedShutdown a runtime timeout w else shutdownOneShot a w) in
      if shutdownErr \<noteq> NilErr then shutdownErr
      else if isCancellationResult ctx taskErr then ctx_cause ctx
      else taskErr)"

definition executeOneShot ::
    "addr \<Rightarrow> service \<Rightarrow> duration \<Rightarrow> bool \<Rightarrow> bool \<Rightarrow> (string \<times> outcome) list \<Rightarrow> world \<Rightarrow> ctx_state \<Rightarrow> go_error" where
  "executeOneShot a runtime timeout escalation taskResult tasks w ctx =
     (let goErr = snd (go_admit a ''one-shot command'' True runtime);
          taskErr = snd (one_shot_tasks a tasks) in
      if goErr \<noteq> NilErr then shutdownAfterFailure a goErr w
      else if taskResult then errors_join a [taskErr, shutdownOneShot a w]
      else finishCanceledOneShot a runtime timeout escalation w ctx taskErr)"

subsection \<open>Long-running commands\<close>

text \<open>
  The admission loop; \<open>between\<close> is what the rest of the process does to the service after the
  task with that index was admitted.
\<close>

fun admit_tasks :: "addr \<Rightarrow> (nat \<Rightarrow> service \<Rightarrow> service) \<Rightarrow> nat \<Rightarrow> named_callback list \<Rightarrow> service \<Rightarrow> service \<times> go_error" where
  "admit_tasks a between index [] runtime = (runtime, NilErr)"
| "admit_tasks a between index (task # rest) runtime =
     (let (runtime, err) = go_admit a (nc_Name task) (nc_Run task) runtime in
      if err \<noteq> NilErr then (runtime, err)
      else admit_tasks a between (Suc index) rest (between index runtime))"

definition long_running_task :: "addr \<Rightarrow> string \<Rightarrow> outcome \<Rightarrow> ctx_state \<Rightarrow> go_error" where
  "long_running_task a name result taskContext =
     (let err = invoke a name ''run'' result in
      if err = NilErr \<and> ctx_err taskContext = NilErr
      then ErrorString a ''long-running task exited without cancellation'' else err)"

definition executeLongRunning ::
    "addr \<Rightarrow> (nat \<Rightarrow> service \<Rightarrow> service) \<Rightarrow> service \<Rightarrow> duration \<Rightarrow> bool \<Rightarrow> named_callback list \<Rightarrow>
     go_error option \<Rightarrow> world \<Rightarrow> ctx_state \<Rightarrow> go_error" where
  "executeLongRunning a between runtime timeout signals tasks businessFailure w ctx =
     (let (runtime, goErr) = admit_tasks a between 0 tasks runtime in
      if goErr \<noteq> NilErr then shutdownAfterFailure a goErr w
      else
        let waitErr = (if signals then observedShutdown a runtime timeout w else shutdownOneShot a w) in
        if waitErr \<noteq> NilErr then
          (case businessFailure of None \<Rightarrow> waitErr | Some failure \<Rightarrow> errors_join a [waitErr, failure])
        else case classificationAs is_SignalError (ctx_cause ctx) of
          Some signalError \<Rightarrow> signalError
        | None \<Rightarrow> NilErr)"

text \<open>
  \<^verbatim>\<open>executePlan\<close>: the service of the plan, its start, and the run of the command's kind.
  \<open>running\<close> is the service when \<^verbatim>\<open>Start\<close> returned, \<open>outcomes\<close> are the results of one-shot tasks in
  the order they run. Every plan is a value here; the snapshot the code takes of it is \<open>Plan_Snapshot\<close>'s.
\<close>

definition executePlan ::
    "addr \<Rightarrow> management_config \<Rightarrow> bool \<Rightarrow> registration \<Rightarrow> plan \<Rightarrow> go_error \<Rightarrow> service \<Rightarrow> (nat \<Rightarrow> service \<Rightarrow> service) \<Rightarrow>
     bool \<Rightarrow> bool \<Rightarrow> (string \<times> outcome) list \<Rightarrow> go_error option \<Rightarrow> world \<Rightarrow> ctx_state \<Rightarrow> go_error" where
  "executePlan a configured maintained command plan startErr running between signals taskResult outcomes failure w ctx =
     (case plan_service a configured maintained command plan of
        Inl err \<Rightarrow> err
      | Inr runtime \<Rightarrow>
          if startErr \<noteq> NilErr then startErr
          else if reg_kind command = CommandKindLongRunning then
            executeLongRunning a between running (effective_timeout (pl_ShutdownTimeout plan)) signals
              (plan_tasks (reg_kind command) maintained plan) failure w ctx
          else
            executeOneShot a running (effective_timeout (pl_ShutdownTimeout plan)) signals taskResult outcomes w ctx)"

subsection \<open>Accepted plans\<close>

interpretation callback_names: named_validation
  "\<lambda>i names cs. check_callbacks a field i names cs = NilErr" nc_Name
  "\<lambda>c. validRuntimeIdentity (nc_Name c) \<and> nc_Run c" for a field
  by unfold_locales auto

lemma validateTasks_iff:
  "validateTasks a tasks = NilErr \<longleftrightarrow>
     length tasks \<le> 64 \<and> (\<forall>t\<in>set tasks. validRuntimeIdentity (nc_Name t) \<and> nc_Run t) \<and> distinct (map nc_Name tasks)"
  using callback_names.accepts_iff[of a "''Plan.Tasks''" 0 "[]" tasks]
  by (auto simp: validateTasks_def defaultMaxTasks_def)

lemma New_Inr:
  "New a cfg = Inr s \<longleftrightarrow>
     0 \<le> StartupTimeout cfg \<and> 0 \<le> RollbackTimeout cfg \<and> 0 \<le> MaxTasks cfg \<and> MaxTasks cfg \<le> 4096 \<and>
     check_components a 0 [] (Components cfg) = NilErr \<and>
     s = zero_service\<lparr>components := Components cfg,
       startup := (if StartupTimeout cfg = 0 then defaultStartupTimeout else StartupTimeout cfg),
       rollback := (if RollbackTimeout cfg = 0 then defaultRollbackTimeout else RollbackTimeout cfg),
       maxTasks := (if MaxTasks cfg = 0 then defaultMaxTasks else MaxTasks cfg)\<rparr>"
proof -
  have "(case e of NilErr \<Rightarrow> Inr v | err \<Rightarrow> Inl err) = Inr s \<longleftrightarrow> e = NilErr \<and> s = v" for e and v :: service
    by (cases e) auto
  then show ?thesis by (auto simp: New_def maximumTasks_def)
qed

lemma plan_service_Inr:
  "plan_service a configured maintained command plan = Inr s \<longleftrightarrow>
     plan_guards a configured command plan = NilErr \<and>
     (\<exists>runtime. New a (plan_config (reg_kind command) maintained plan) = Inr runtime \<and>
        s = runtime\<lparr>componentStopTimeout := pl_ComponentStopTimeout plan\<rparr>)"
  by (auto simp: plan_service_def split: sum.splits)

lemma plan_guards_reject: "plan_guards a configured command plan \<noteq> NilErr \<Longrightarrow> rejection (plan_guards a configured command plan)"
proof -
  have callbacks: "check_callbacks a field i names cs \<noteq> NilErr \<Longrightarrow> rejection (check_callbacks a field i names cs)" for field i names cs
    by (induction a field i names cs rule: check_callbacks.induct) (auto simp: rejection_def)
  have parts: "validateTasks a ts \<noteq> NilErr \<Longrightarrow> rejection (validateTasks a ts)"
    "validateReadiness a ts \<noteq> NilErr \<Longrightarrow> rejection (validateReadiness a ts)"
    "validateManagement a m \<noteq> NilErr \<Longrightarrow> rejection (validateManagement a m)"
    "validateBusinessHTTP a h m \<noteq> NilErr \<Longrightarrow> rejection (validateBusinessHTTP a h m)" for ts m h
    using callbacks
    by (auto simp: validateTasks_def validateReadiness_def validateManagement_def validateBusinessHTTP_def rejection_def Let_def
        split: if_splits option.splits)
  show "plan_guards a configured command plan \<noteq> NilErr \<Longrightarrow> rejection (plan_guards a configured command plan)"
    unfolding plan_guards_def Let_def using parts by (auto simp: rejection_def split: if_splits)
qed

lemma New_rejects: "New a cfg = Inl e \<Longrightarrow> \<exists>f r. e = ConfigError a f r"
proof -
  have "check_components a i names cs \<noteq> NilErr \<Longrightarrow> \<exists>f r. check_components a i names cs = ConfigError a f r" for i names cs
    by (induction a i names cs rule: check_components.induct) auto
  note components = this
  have nil: "(case x of NilErr \<Rightarrow> Inr v | err \<Rightarrow> Inl err) = Inl e \<longleftrightarrow> x \<noteq> NilErr \<and> x = e" for x and v :: service
    by (cases x) auto
  show "New a cfg = Inl e \<Longrightarrow> \<exists>f r. e = ConfigError a f r"
    using components[of 0 "[]" "Components cfg"] by (auto simp: New_def nil split: if_splits)
qed

text \<open>A plan that cannot become a service ends the command with exit code 70 before anything starts.\<close>

lemma rejected_plan_exits_70:
  assumes "plan_service a configured maintained command plan = Inl err"
  shows "executePlan a configured maintained command plan startErr running between signals taskResult outcomes failure w ctx = err"
    and "exitCode err = 70"
proof -
  show "executePlan a configured maintained command plan startErr running between signals taskResult outcomes failure w ctx = err"
    using assms by (simp add: executePlan_def)
  have "exitCode (ConstructionError a c (ConfigError b f r)) = 70" for c b f r
    by (simp add: exitCode_def exitCodeWithDefault_def classificationAs_def classificationIs_iff walk_finds_first
        preorder_node children_def)
  then show "exitCode err = 70"
    using assms plan_guards_reject rejection_exit New_rejects
    by (auto simp: plan_service_def split: if_splits sum.splits) blast+
qed

lemma plan_guards_ok:
  assumes "plan_guards a configured command plan = NilErr"
  shows "validateTasks a (pl_Tasks plan) = NilErr"
    and "0 \<le> pl_ShutdownTimeout plan \<and> 0 \<le> pl_ComponentStopTimeout plan \<and> 0 \<le> pl_StartupTimeout plan \<and> 0 \<le> pl_RollbackTimeout plan"
    and "reg_kind command = CommandKindOneShot \<Longrightarrow> pl_HTTP plan = None"
    and "reg_kind command = CommandKindLongRunning \<Longrightarrow>
      validateBusinessHTTP a (pl_HTTP plan) (case pl_ManagementConfig plan of None \<Rightarrow> configured | Some m \<Rightarrow> m) = NilErr"
  using assms by (auto simp: plan_guards_def Let_def split: if_splits)

lemma business_address:
  assumes "validateBusinessHTTP a (Some http) management = NilErr"
  shows "ht_Handler http \<and> (ht_Address http = [] \<longleftrightarrow> ht_Listener http \<noteq> None)"
    and "ht_Address http \<noteq> [] \<Longrightarrow> mg_Listener management = None \<Longrightarrow>
      ht_Address http \<noteq> resolvedManagementAddress (mg_Address management)"
  using assms by (auto simp: validateBusinessHTTP_def resolvedManagementAddress_def Let_def split: if_splits)

definition worker_plan :: "named_callback list \<Rightarrow> plan" where
  "worker_plan tasks =
     \<lparr>pl_ShutdownTimeout = 0, pl_ComponentStopTimeout = 0, pl_StartupTimeout = 0, pl_RollbackTimeout = 0,
      pl_Components = [], pl_Tasks = tasks, pl_HTTP = None, pl_Readiness = [], pl_Management = False,
      pl_ManagementConfig = None\<rparr>"

definition no_management :: management_config where
  "no_management = \<lparr>mg_Address = [], mg_Listener = None\<rparr>"

definition worker_command :: registration where
  "worker_command = CommandFor ''worker'' ''Work'' CommandKindLongRunning [] True True"

lemma platform_identities:
  "validRuntimeIdentity ''service-management'' \<and> validRuntimeIdentity ''service-maintenance-state'' \<and>
   validRuntimeIdentity ''service-maintenance-refresh''"
  by (simp add: validRuntimeIdentity_def MaxRuntimeIdentityBytes_def trim_space_plain printable_def)

lemma worker_service:
  assumes "validateTasks a tasks = NilErr"
  shows "plan_service a no_management True worker_command (worker_plan tasks) =
    Inr (zero_service\<lparr>components := [management_component, maintenance_component],
      startup := defaultStartupTimeout, rollback := defaultRollbackTimeout, maxTasks := 64\<rparr>)"
  using assms platform_identities
  by (simp add: plan_service_def plan_guards_def worker_plan_def worker_command_def CommandFor_def no_management_def
      validateReadiness_def validateManagement_def validateBusinessHTTP_def plan_config_def plan_components_def
      New_def maximumTasks_def defaultMaxTasks_def management_component_def maintenance_component_def
      zero_service_def Let_def)

subsection \<open>Admitting the tasks of a plan\<close>

lemma admit_tasks_count:
  assumes "Ready s" and "0 < maxTasks s" and "taskCount s \<le> maxTasks s"
    and "\<forall>t\<in>set tasks. validRuntimeIdentity (nc_Name t) \<and> nc_Run t"
  shows "snd (admit_tasks a (\<lambda>_ t. t) i tasks s) =
    (if taskCount s + int (length tasks) \<le> maxTasks s then NilErr else ConfigError a ''task'' ''would exceed MaxTasks'')"
  using assms
proof (induction tasks arbitrary: s i)
  case (Cons t ts)
  have admit: "go_admit a (nc_Name t) (nc_Run t) s =
      (if taskCount s \<ge> maxTasks s then (s, ConfigError a ''task'' ''would exceed MaxTasks'')
       else (s\<lparr>taskCount := taskCount s + 1\<rparr>, NilErr))"
    using Cons.prems by (auto simp: go_admit_def Ready_def Let_def)
  have "Ready (s\<lparr>taskCount := taskCount s + 1\<rparr>)"
    using Cons.prems(1) by (simp add: Ready_def Context_def)
  with admit Cons.prems Cons.IH[of "s\<lparr>taskCount := taskCount s + 1\<rparr>" "Suc i"] show ?case by auto
qed simp

definition started_service :: "service \<Rightarrow> service" where
  "started_service s = s\<lparr>svc_state := StateReady, startedFully := True, svc_ctx := Some CtxActive\<rparr>"

lemma started_ready: "Ready (started_service s)"
  by (simp add: started_service_def Ready_def Context_def)

lemma executeLongRunning_rejected:
  "snd (admit_tasks a between 0 tasks runtime) = e \<Longrightarrow> e \<noteq> NilErr \<Longrightarrow>
     executeLongRunning a between runtime timeout signals tasks failure w ctx = shutdownAfterFailure a e w"
  by (simp add: executeLongRunning_def split_def Let_def)

text \<open>\<^bold>\<open>Maintenance mode makes a full plan unrunnable.\<close> Validation accepts up to 64 tasks, the default
  bound of the service. Maintenance adds its own refresh task, but only a plan with HTTP raises
  the bound: a worker with exactly 64 tasks and a maintenance store passes every check, starts its
  components, and then has its last task refused, which shuts the service down with an error.\<close>

theorem maintenance_task_overflows:
  assumes "validateTasks a tasks = NilErr" and "length tasks = 64"
  shows "\<exists>s. plan_service a no_management True worker_command (worker_plan tasks) = Inr s \<and>
    snd (admit_tasks a (\<lambda>_ t. t) 0 (plan_tasks CommandKindLongRunning True (worker_plan tasks)) (started_service s)) =
      ConfigError a ''task'' ''would exceed MaxTasks'' \<and>
    executeLongRunning a (\<lambda>_ t. t) (started_service s) timeout signals
      (plan_tasks CommandKindLongRunning True (worker_plan tasks)) failure w ctx =
      errors_join a [ConfigError a ''task'' ''would exceed MaxTasks'', shutdownOneShot a w]"
proof -
  let ?s = "zero_service\<lparr>components := [management_component, maintenance_component],
      startup := defaultStartupTimeout, rollback := defaultRollbackTimeout, maxTasks := 64\<rparr>"
  let ?tasks = "plan_tasks CommandKindLongRunning True (worker_plan tasks)"
  have tasks: "?tasks = maintenance_task # tasks" by (simp add: plan_tasks_def worker_plan_def)
  have valid: "\<forall>t\<in>set ?tasks. validRuntimeIdentity (nc_Name t) \<and> nc_Run t"
    using assms(1) platform_identities unfolding tasks by (auto simp: validateTasks_iff maintenance_task_def)
  have rejected: "snd (admit_tasks a (\<lambda>_ t. t) 0 ?tasks (started_service ?s)) = ConfigError a ''task'' ''would exceed MaxTasks''"
    using admit_tasks_count[OF started_ready _ _ valid, of ?s a 0] assms(2)
    by (simp add: started_service_def zero_service_def tasks)
  then have "executeLongRunning a (\<lambda>_ t. t) (started_service ?s) timeout signals ?tasks failure w ctx =
      errors_join a [ConfigError a ''task'' ''would exceed MaxTasks'', shutdownOneShot a w]"
    by (simp add: executeLongRunning_rejected shutdownAfterFailure_def)
  with rejected worker_service[OF assms(1)] show ?thesis by blast
qed

definition full_tasks :: "named_callback list" where
  "full_tasks = map (\<lambda>i. \<lparr>nc_Name = replicate (Suc i) (CHR ''t''), nc_Run = True\<rparr>) [0..<64]"

theorem maintenance_task_overflows_witness:
  "\<exists>s. plan_service 1 no_management True worker_command (worker_plan full_tasks) = Inr s \<and>
    snd (admit_tasks 1 (\<lambda>_ t. t) 0 (plan_tasks CommandKindLongRunning True (worker_plan full_tasks)) (started_service s)) =
      ConfigError 1 ''task'' ''would exceed MaxTasks''"
proof -
  have name: "validRuntimeIdentity (replicate (Suc i) (CHR ''t''))" if "i < 64" for i
    using that by (subst validRuntimeIdentity_def, subst trim_space_plain)
      (auto simp: printable_def MaxRuntimeIdentityBytes_def last_replicate simp del: replicate_Suc)
  have "inj_on (\<lambda>i. replicate (Suc i) (CHR ''t'')) {0..<64}"
    by (rule inj_onI) (metis length_replicate nat.inject)
  then have "validateTasks 1 full_tasks = NilErr"
    using name unfolding validateTasks_iff full_tasks_def
    by (simp add: comp_def distinct_map del: replicate_Suc)
  moreover have "length full_tasks = 64" by (simp add: full_tasks_def)
  ultimately show ?thesis using maintenance_task_overflows[of 1 full_tasks] by blast
qed

subsection \<open>What a command returns\<close>

lemma one_shot_tasks_spec:
  "one_shot_tasks a tasks = (executed, err) \<Longrightarrow>
     executed = map fst (take (length executed) tasks) \<and>
     (err = NilErr \<longleftrightarrow> (\<forall>(name, r)\<in>set tasks. invoke a name ''run'' r = NilErr)) \<and>
     (err = NilErr \<longrightarrow> executed = map fst tasks) \<and>
     (err \<noteq> NilErr \<longrightarrow> (\<exists>k name r. k < length tasks \<and> length executed = Suc k \<and> tasks ! k = (name, r) \<and>
        err = ComponentError a name ''run'' (invoke a name ''run'' r) \<and> invoke a name ''run'' r \<noteq> NilErr \<and>
        (\<forall>(name, r)\<in>set (take k tasks). invoke a name ''run'' r = NilErr)))"
proof (induction tasks arbitrary: executed err)
  case (Cons task tasks)
  obtain name r where task: "task = (name, r)" by (cases task)
  obtain executed' err' where rest: "one_shot_tasks a tasks = (executed', err')" by (cases "one_shot_tasks a tasks")
  show ?case
  proof (cases "invoke a name ''run'' r = NilErr")
    case True
    then have eq: "executed = name # executed'" "err = err'" using Cons.prems task rest by auto
    note IH = Cons.IH[OF rest]
    have "\<exists>k name r. k < length (task # tasks) \<and> length executed = Suc k \<and> (task # tasks) ! k = (name, r) \<and>
        err = ComponentError a name ''run'' (invoke a name ''run'' r) \<and> invoke a name ''run'' r \<noteq> NilErr \<and>
        (\<forall>(name, r)\<in>set (take k (task # tasks)). invoke a name ''run'' r = NilErr)" if failed: "err \<noteq> NilErr"
    proof -
      from IH failed eq obtain k name' r' where k: "k < length tasks" "length executed' = Suc k" "tasks ! k = (name', r')"
        "err' = ComponentError a name' ''run'' (invoke a name' ''run'' r')" "invoke a name' ''run'' r' \<noteq> NilErr"
        "\<forall>(name, r)\<in>set (take k tasks). invoke a name ''run'' r = NilErr" by auto
      then show ?thesis using True task eq by (intro exI[of _ "Suc k"] exI[of _ name'] exI[of _ r']) auto
    qed
    then show ?thesis using IH True task eq by auto
  next
    case False
    then have "executed = [name]" "err = ComponentError a name ''run'' (invoke a name ''run'' r)"
      using Cons.prems task by auto
    with False task show ?thesis by (auto intro!: exI[of _ 0])
  qed
qed simp

text \<open>\<^bold>\<open>A one-shot command runs its tasks in order up to the first failure and succeeds exactly when all
  tasks and the shutdown do.\<close> The tasks that ran are a prefix of the plan; every one but the last
  succeeded; the error names the failing task. When the tasks end before a cancellation the command
  succeeds exactly when every task returned nil and the shutdown succeeded. When it is cancelled
  and the shutdown succeeds, a task error that only acknowledges the cancellation becomes the
  cause, and any other task error is returned.\<close>

theorem one_shot_outcome:
  assumes "Ready runtime" and "taskCount runtime < maxTasks runtime" and "0 < maxTasks runtime"
    and "one_shot_tasks a tasks = (executed, taskErr)"
  shows "(prefix executed (map fst tasks) \<and>
      (taskErr \<noteq> NilErr \<longrightarrow> executed \<noteq> [] \<and>
        (\<exists>r. (last executed, r) \<in> set tasks \<and> taskErr = ComponentError a (last executed) ''run'' (invoke a (last executed) ''run'' r)))) \<and>
    (executeOneShot a runtime timeout escalation True tasks w ctx = NilErr \<longleftrightarrow>
      (\<forall>(name, r)\<in>set tasks. invoke a name ''run'' r = NilErr) \<and> shutdownOneShot a w = NilErr) \<and>
    (shutdownOneShot a w = NilErr \<longrightarrow>
      executeOneShot a runtime timeout False False tasks w ctx =
        (if isCancellationResult ctx taskErr then ctx_cause ctx else taskErr))"
proof -
  have go: "snd (go_admit a ''one-shot command'' True runtime) = NilErr"
    using assms(1-3)
    by (auto simp: go_admit_def Ready_def Let_def validRuntimeIdentity_def trim_space_plain printable_def MaxRuntimeIdentityBytes_def)
  note spec = one_shot_tasks_spec[OF assms(4)]
  have c1: "prefix executed (map fst tasks) \<and>
      (taskErr \<noteq> NilErr \<longrightarrow> executed \<noteq> [] \<and>
        (\<exists>r. (last executed, r) \<in> set tasks \<and> taskErr = ComponentError a (last executed) ''run'' (invoke a (last executed) ''run'' r)))"
  proof (intro conjI impI)
    show "prefix executed (map fst tasks)" using spec by (metis take_is_prefix take_map)
    assume "taskErr \<noteq> NilErr"
    with spec obtain k name r where k: "k < length tasks" "length executed = Suc k" "tasks ! k = (name, r)"
      "taskErr = ComponentError a name ''run'' (invoke a name ''run'' r)" by blast
    then show "executed \<noteq> []" by auto
    have "last executed = executed ! k" using k(2) by (simp add: last_conv_nth[of executed] \<open>executed \<noteq> []\<close>)
    also have "\<dots> = map fst (take (Suc k) tasks) ! k" using spec k(2) by metis
    also have "\<dots> = name" using k(1,3) by simp
    finally have "last executed = name" .
    moreover have "(name, r) \<in> set tasks" using k(1,3) nth_mem by metis
    ultimately show "\<exists>r. (last executed, r) \<in> set tasks \<and> taskErr = ComponentError a (last executed) ''run'' (invoke a (last executed) ''run'' r)"
      using k(4) by blast
  qed
  have c2: "executeOneShot a runtime timeout escalation True tasks w ctx = NilErr \<longleftrightarrow>
      (\<forall>(name, r)\<in>set tasks. invoke a name ''run'' r = NilErr) \<and> shutdownOneShot a w = NilErr"
    using go spec assms(4) by (simp add: executeOneShot_def Let_def)
  have c3: "shutdownOneShot a w = NilErr \<Longrightarrow>
      executeOneShot a runtime timeout False False tasks w ctx =
        (if isCancellationResult ctx taskErr then ctx_cause ctx else taskErr)"
    using go assms(4) by (simp add: executeOneShot_def finishCanceledOneShot_def Let_def)
  show ?thesis using c1 c2 c3 by blast
qed

theorem one_shot_outcome_witness:
  "\<forall>w ctx. executeOneShot 1 (started_service (zero_service\<lparr>maxTasks := 64\<rparr>)) 5 False True
     [(''load'', Returned NilErr), (''save'', Panicked 7)] w ctx \<noteq> NilErr"
proof (intro allI)
  fix w ctx
  let ?s = "started_service (zero_service\<lparr>maxTasks := 64\<rparr>)"
  let ?tasks = "[(''load'', Returned NilErr), (''save'', Panicked 7)]"
  have "taskCount ?s < maxTasks ?s" "0 < maxTasks ?s" by (simp_all add: started_service_def zero_service_def)
  moreover obtain executed err where "one_shot_tasks 1 ?tasks = (executed, err)" by (meson prod.exhaust)
  ultimately have "executeOneShot 1 ?s 5 False True ?tasks w ctx = NilErr \<longleftrightarrow>
      (\<forall>(name, r)\<in>set ?tasks. invoke 1 name ''run'' r = NilErr) \<and> shutdownOneShot 1 w = NilErr"
    using one_shot_outcome[OF started_ready] by blast
  then show "executeOneShot 1 ?s 5 False True ?tasks w ctx \<noteq> NilErr" by simp
qed

text \<open>C30. \<^bold>\<open>A long-running command ends cleanly exactly on a clean shutdown without a signal, and no failure hides
  another.\<close> After its tasks were admitted the command returns nil exactly when the shutdown
  succeeded and no signal had cancelled it. After a clean shutdown that a signal started it returns that signal's error, so it exits
  with 130 or 143. After a failed shutdown it returns the shutdown's failure joined with what the business server
  returned, when there is such a server: both are members of the join, it is at least as urgent as
  either, and a shutdown deadline exits with 124 whatever the server's failure was. A refused task
  is returned, joined with the failure of the shutdown it causes. A task of such a command succeeds only when its callback returned
  nil after a cancellation.\<close>

theorem long_running_outcome:
  assumes "executeLongRunning a between runtime timeout signals tasks failure w ctx = result"
    and "admit_tasks a between 0 tasks runtime = (running, goErr)"
    and "waitErr = (if signals then observedShutdown a running timeout w else shutdownOneShot a w)"
  shows "(goErr = NilErr \<longrightarrow>
      (result = NilErr \<longleftrightarrow> waitErr = NilErr \<and> classificationAs is_SignalError (ctx_cause ctx) = None)) \<and>
    (goErr = NilErr \<longrightarrow> waitErr = NilErr \<longrightarrow> classificationAs is_SignalError (ctx_cause ctx) = Some (SignalError b sig) \<longrightarrow>
      result = SignalError b sig \<and> exitCode result = (if sig = Interrupt then 130 else 143)) \<and>
    (goErr = NilErr \<longrightarrow> waitErr \<noteq> NilErr \<longrightarrow>
      result = (case failure of None \<Rightarrow> waitErr
                | Some f \<Rightarrow> JoinError a (if f = NilErr then [waitErr] else [waitErr, f])) \<and>
      urgency result \<le> urgency waitErr \<and>
      (\<forall>f. failure = Some f \<longrightarrow> f \<noteq> NilErr \<longrightarrow> urgency result \<le> urgency f)) \<and>
    (goErr = NilErr \<longrightarrow> is_ShutdownTimeoutError waitErr \<longrightarrow> exitCode result = 124) \<and>
    (goErr \<noteq> NilErr \<longrightarrow>
      result = JoinError a (if shutdownOneShot a w = NilErr then [goErr] else [goErr, shutdownOneShot a w])) \<and>
    (long_running_task a name outcome taskContext = NilErr \<longleftrightarrow>
      invoke a name ''run'' outcome = NilErr \<and> ctx_err taskContext \<noteq> NilErr)"
proof -
  have ok: "result = (if waitErr \<noteq> NilErr then
          (case failure of None \<Rightarrow> waitErr | Some f \<Rightarrow> errors_join a [waitErr, f])
        else case classificationAs is_SignalError (ctx_cause ctx) of Some e \<Rightarrow> e | None \<Rightarrow> NilErr)" if "goErr = NilErr"
    unfolding assms(1)[symmetric] assms(3) executeLongRunning_def assms(2) by (simp add: that Let_def)
  have found: "e \<noteq> NilErr" if "classificationAs is_SignalError (ctx_cause ctx) = Some e" for e
    using classificationAs_type[OF that] by auto
  have c1: "result = NilErr \<longleftrightarrow> waitErr = NilErr \<and> classificationAs is_SignalError (ctx_cause ctx) = None" if "goErr = NilErr"
    using ok[OF that] found by (auto simp: errors_join_def split: option.splits if_splits)
  have signal: "exitCode (SignalError b sig) = (if sig = Interrupt then 130 else 143)"
    by (simp add: exitCode_def exitCodeWithDefault_def classificationAs_def walk_finds_first preorder_node children_def)
  have c2: "result = SignalError b sig \<and> exitCode result = (if sig = Interrupt then 130 else 143)"
    if "goErr = NilErr" "waitErr = NilErr" "classificationAs is_SignalError (ctx_cause ctx) = Some (SignalError b sig)"
    using ok that signal by simp
  have joined: "result = (case failure of None \<Rightarrow> waitErr
      | Some f \<Rightarrow> JoinError a (if f = NilErr then [waitErr] else [waitErr, f]))" if "goErr = NilErr" "waitErr \<noteq> NilErr"
    using ok[OF that(1)] that(2) by (simp add: errors_join_def split: option.split)
  have urgent: "urgency result \<le> urgency waitErr" if "goErr = NilErr" "waitErr \<noteq> NilErr"
    using ok that urgency_join_le[of waitErr a] by (cases failure) auto
  have urgent': "urgency result \<le> urgency f" if "goErr = NilErr" "waitErr \<noteq> NilErr" "failure = Some f" "f \<noteq> NilErr" for f
    using ok that urgency_join[of waitErr f a] by simp
  have c3: "exitCode result = 124" if "goErr = NilErr" "is_ShutdownTimeoutError waitErr"
  proof -
    have "waitErr \<noteq> NilErr" using that(2) by auto
    moreover have "urgency waitErr = 0"
      using As_direct[of is_ShutdownTimeoutError waitErr] that(2) calculation by (simp add: urgency_def asks_def)
    ultimately show ?thesis
      using urgent that(1) by (simp add: exitCode_def exit_by_urgency class_code_def)
  qed
  have c4: "result = JoinError a (if shutdownOneShot a w = NilErr then [goErr] else [goErr, shutdownOneShot a w])"
    if "goErr \<noteq> NilErr"
    using assms(1,2) that by (auto simp: executeLongRunning_def shutdownAfterFailure_def errors_join_def Let_def)
  have c5: "long_running_task a name outcome taskContext = NilErr \<longleftrightarrow>
      invoke a name ''run'' outcome = NilErr \<and> ctx_err taskContext \<noteq> NilErr"
    by (auto simp: long_running_task_def Let_def)
  show ?thesis using c1 c2 joined urgent urgent' c3 c4 c5 by blast
qed

definition clean_world :: world where
  "clean_world = \<lparr>w_now = 0, w_start = NilErr, w_event = ServiceDone, w_second = NoSecondSignal,
     w_waiter = SingleDeadline 5 CtxActive, w_returned = 1, w_shutdown = NilErr, w_completion = NilErr\<rparr>"

theorem long_running_outcome_witness:
  "exitCode (executeLongRunning 1 (\<lambda>_ s. s) (started_service (zero_service\<lparr>maxTasks := 64\<rparr>)) 5 False []
     None clean_world (CtxDone (Sentinel Canceled) (SignalError 3 SIGTERM))) = 143"
proof -
  let ?s = "started_service (zero_service\<lparr>maxTasks := 64\<rparr>)"
  have admitted: "admit_tasks 1 (\<lambda>_ s. s) 0 [] ?s = (?s, NilErr)" by simp
  have clean: "shutdownOneShot 1 clean_world = NilErr"
    by (simp add: shutdownOneShot_def clean_world_def budgetedShutdown_def classifyShutdownError_def classificationIs_def)
  have "classificationAs is_SignalError (SignalError 3 SIGTERM) = Some (SignalError 3 SIGTERM)"
    by (rule As_direct) simp_all
  with long_running_outcome[OF refl admitted refl, where timeout = 5 and signals = False and failure = None
      and w = clean_world and ctx = "CtxDone (Sentinel Canceled) (SignalError 3 SIGTERM)" and b = 3 and sig = SIGTERM] clean
  show ?thesis by (simp split: if_splits) metis
qed

end
