(* ===== verification/Http_Handlers.thy ===== *)
theory Http_Handlers
  imports Go_Errors Http_Writer
begin

section \<open>HTTP handlers and middleware\<close>

text \<open>
  Models \<^verbatim>\<open>serverhttp/middleware.go\<close>. A handler maps a request to the program it runs on the response
  writer it is given: header edits and reads, \<^verbatim>\<open>WriteHeader\<close>, \<^verbatim>\<open>Write\<close>, a flush through
  \<^verbatim>\<open>http.ResponseController\<close>, and its end, a return or a panic. A program is a tree because what a
  handler does may depend on the headers it reads. A middleware maps handlers to handlers; a nil
  handler or middleware is \<open>None\<close>.
\<close>

subsection \<open>Programs on a response writer\<close>

type_synonym http_headers = "(string \<times> string) list"

datatype response_program =
    Return
  | Panics panic_value
  | EditHeader "http_headers \<Rightarrow> http_headers" response_program
  | ReadHeader "http_headers \<Rightarrow> response_program"
  | SendHeader nat response_program
  | SendBody string response_program
  | FlushResponse response_program

primrec respond :: "response_program \<Rightarrow> http_writer \<Rightarrow> http_writer \<times> panic_value option" where
  "respond Return w = (w, None)"
| "respond (Panics v) w = (w, Some v)"
| "respond (EditHeader f p) w = respond p (w\<lparr>hw_header := f (hw_header w)\<rparr>)"
| "respond (ReadHeader p) w = respond (p (hw_header w)) w"
| "respond (SendHeader code p) w = respond p (http_WriteHeader code w)"
| "respond (SendBody text p) w = respond p (http_Write text w)"
| "respond (FlushResponse p) w = respond p (http_Flush w)"

text \<open>\<^verbatim>\<open>http.Error\<close> as a program.\<close>

definition error_headers :: "http_headers \<Rightarrow> http_headers" where
  "error_headers h =
     header_set ''X-Content-Type-Options'' ''nosniff''
       (header_set ''Content-Type'' ''text/plain; charset=utf-8''
         (filter (\<lambda>(n, _). n \<notin> {''Content-Length'', ''Content-Encoding'', ''Etag'', ''Last-Modified'', ''Cache-Control''}) h))"

definition error_program :: "string \<Rightarrow> nat \<Rightarrow> response_program" where
  "error_program message code =
     EditHeader error_headers (SendHeader code (SendBody (message @ [char_of (10 :: nat)]) Return))"

lemma respond_error [simp]: "respond (error_program message code) w = (http_Error message code w, None)"
  by (simp add: error_program_def http_Error_def error_headers_def Let_def)

subsection \<open>Requests\<close>

text \<open>
  A body is what the client sends, behind the \<^verbatim>\<open>http.MaxBytesReader\<close>s put around it. \<open>read_all\<close> is
  what a handler that reads to the end gets, and whether the limit error was reported.
\<close>

datatype request_body = ClientBody string | MaxBytesReader request_body int

fun read_all :: "request_body \<Rightarrow> string \<times> bool" where
  "read_all (ClientBody bytes) = (bytes, False)"
| "read_all (MaxBytesReader body limit) =
     (let (bytes, failed) = read_all body
      in if int (length bytes) \<le> limit then (bytes, failed) else (take (nat limit) bytes, True))"

record http_request =
  req_Method :: string
  req_path :: string
  req_ContentLength :: int
  req_Body :: request_body

type_synonym handler = "http_request \<Rightarrow> response_program"
type_synonym middleware = "handler option \<Rightarrow> handler option"

definition NotFoundHandler :: handler where
  "NotFoundHandler = (\<lambda>_. error_program ''404 page not found'' 404)"

definition handlerOrNotFound :: "handler option \<Rightarrow> handler" where
  "handlerOrNotFound h = (case h of None \<Rightarrow> NotFoundHandler | Some h \<Rightarrow> h)"

subsection \<open>Chain\<close>

text \<open>The loop runs from the last middleware to the first.\<close>

fun chain_loop :: "addr \<Rightarrow> middleware option list \<Rightarrow> handler \<Rightarrow> go_error + handler" where
  "chain_loop a [] h = Inr h"
| "chain_loop a (None # before) h = Inl (HTTPConfigError a ''middleware'' ''must not contain nil'')"
| "chain_loop a (Some m # before) h =
     (case m (Some h) of
        None \<Rightarrow> Inl (HTTPConfigError a ''middleware'' ''must not return nil'')
      | Some h \<Rightarrow> chain_loop a before h)"

definition Chain :: "addr \<Rightarrow> handler option \<Rightarrow> middleware option list \<Rightarrow> go_error + handler" where
  "Chain a handler ms =
     (let handler = (case handler of None \<Rightarrow> NotFoundHandler | Some h \<Rightarrow> h)
      in chain_loop a (rev ms) handler)"

subsection \<open>Recover\<close>

text \<open>\<^verbatim>\<open>textproto.CanonicalMIMEHeaderKey\<close>: names with a byte that is not a token stay as they are.\<close>

definition token_char :: "char \<Rightarrow> bool" where
  "token_char c \<longleftrightarrow>
     (let n = (of_char c :: nat) in
      (48 \<le> n \<and> n \<le> 57) \<or> (65 \<le> n \<and> n \<le> 90) \<or> (97 \<le> n \<and> n \<le> 122) \<or> c \<in> set ''!#$%&*+-.^_`|~'' \<or> n = 39)"

fun canonical_letters :: "bool \<Rightarrow> string \<Rightarrow> string" where
  "canonical_letters upper [] = []"
| "canonical_letters upper (c # cs) =
     (let n = (of_char c :: nat);
          d = (if upper \<and> 97 \<le> n \<and> n \<le> 122 then char_of (n - 32)
               else if \<not> upper \<and> 65 \<le> n \<and> n \<le> 90 then char_of (n + 32) else c)
      in d # canonical_letters (d = CHR ''-'') cs)"

definition canonical_key :: "string \<Rightarrow> string" where
  "canonical_key name = (if list_all token_char name then canonical_letters True name else name)"

definition header_values :: "string \<Rightarrow> http_headers \<Rightarrow> string list" where
  "header_values name h = map snd (filter (\<lambda>(n, _). n = canonical_key name) h)"

definition header_del :: "string \<Rightarrow> http_headers \<Rightarrow> http_headers" where
  "header_del name h = filter (\<lambda>(n, _). n \<noteq> canonical_key name) h"

definition header_add :: "string \<Rightarrow> string \<Rightarrow> http_headers \<Rightarrow> http_headers" where
  "header_add name value h = h @ [(canonical_key name, value)]"

text \<open>
  The deferred reset: the identity headers are saved, every key of the map is deleted by name, and
  the saved values are added again. The three names are the correlation package's constants.
\<close>

definition identity_headers :: "string list \<Rightarrow> http_headers \<Rightarrow> http_headers" where
  "identity_headers names h = concat (map (\<lambda>name. map (Pair name) (header_values name h)) names)"

definition reset_headers :: "string list \<Rightarrow> http_headers \<Rightarrow> http_headers" where
  "reset_headers names h =
     fold (\<lambda>(name, value). header_add name value) (identity_headers names h)
       (fold (\<lambda>(name, _). header_del name) h h)"

text \<open>
  \<open>recovering\<close> is the run of the next handler on the tracked writer, the boolean its \<^verbatim>\<open>wroteHeader\<close>
  field: \<^verbatim>\<open>WriteHeader\<close> and \<^verbatim>\<open>Write\<close> set it and call the wrapped writer, a flush reaches the wrapped
  writer through \<^verbatim>\<open>Unwrap\<close>.
\<close>

primrec recovering :: "string list \<Rightarrow> bool \<Rightarrow> response_program \<Rightarrow> response_program" where
  "recovering names wrote Return = Return"
| "recovering names wrote (Panics v) =
     (if wrote then Return
      else EditHeader (reset_headers names) (error_program ''internal server error'' 500))"
| "recovering names wrote (EditHeader f p) = EditHeader f (recovering names wrote p)"
| "recovering names wrote (ReadHeader p) = ReadHeader (\<lambda>h. recovering names wrote (p h))"
| "recovering names wrote (SendHeader code p) = SendHeader code (recovering names True p)"
| "recovering names wrote (SendBody text p) = SendBody text (recovering names True p)"
| "recovering names wrote (FlushResponse p) = FlushResponse (recovering names wrote p)"

definition Recover :: "string list \<Rightarrow> middleware" where
  "Recover names next = Some (\<lambda>request. recovering names False (handlerOrNotFound next request))"

subsection \<open>Body limits\<close>

definition limitBody :: "int \<Rightarrow> middleware" where
  "limitBody limit next =
     Some (\<lambda>request.
       let next = handlerOrNotFound next in
       if limit = 0 then next request
       else if limit < req_ContentLength request then error_program ''request body too large'' 413
       else next (request\<lparr>req_Body := MaxBytesReader (req_Body request) limit\<rparr>))"

definition LimitBody :: "addr \<Rightarrow> int \<Rightarrow> go_error + middleware" where
  "LimitBody a limit =
     (if limit < 0 then Inl (HTTPConfigError a ''BodyLimit'' ''must not be negative'')
      else Inr (limitBody limit))"

subsection \<open>Chains compose in listed order\<close>

text \<open>The composition a chain of factories stands for: the first is the outermost.\<close>

fun compose :: "middleware list \<Rightarrow> handler \<Rightarrow> handler option" where
  "compose [] h = Some h"
| "compose (m # ms) h = (case compose ms h of None \<Rightarrow> None | Some g \<Rightarrow> m (Some g))"

lemma compose_append:
  "compose (ms @ ns) h = (case compose ns h of None \<Rightarrow> None | Some g \<Rightarrow> compose ms g)"
  by (induction ms) (auto split: option.splits)

lemma chain_loop_compose:
  "chain_loop a (map Some (rev ms)) h =
     (case compose ms h of None \<Rightarrow> Inl (HTTPConfigError a ''middleware'' ''must not return nil'') | Some g \<Rightarrow> Inr g)"
proof (induction ms arbitrary: h rule: rev_induct)
  case (snoc m ms)
  show ?case
  proof (cases "m (Some h)")
    case (Some g)
    then show ?thesis using snoc.IH[of g] by (simp add: compose_append)
  qed (simp add: compose_append)
qed simp

lemma chain_loop_nil: "None \<in> set ms \<Longrightarrow> \<exists>e. chain_loop a ms h = Inl e"
proof (induction ms arbitrary: h)
  case (Cons m ms)
  then show ?case by (cases m) (auto split: option.splits)
qed simp

subsection \<open>What a recovered handler sends\<close>

text \<open>Whether a run called \<^verbatim>\<open>WriteHeader\<close> or \<^verbatim>\<open>Write\<close> of its writer.\<close>

primrec wrote_header :: "response_program \<Rightarrow> http_writer \<Rightarrow> bool" where
  "wrote_header Return w \<longleftrightarrow> False"
| "wrote_header (Panics v) w \<longleftrightarrow> False"
| "wrote_header (EditHeader f p) w \<longleftrightarrow> wrote_header p (w\<lparr>hw_header := f (hw_header w)\<rparr>)"
| "wrote_header (ReadHeader p) w \<longleftrightarrow> wrote_header (p (hw_header w)) w"
| "wrote_header (SendHeader code p) w \<longleftrightarrow> True"
| "wrote_header (SendBody text p) w \<longleftrightarrow> True"
| "wrote_header (FlushResponse p) w \<longleftrightarrow> wrote_header p (http_Flush w)"

definition recovered_answer :: "string list \<Rightarrow> http_writer \<Rightarrow> http_writer" where
  "recovered_answer names w =
     http_Error ''internal server error'' 500 (w\<lparr>hw_header := reset_headers names (hw_header w)\<rparr>)"

lemma recovering_run:
  "respond (recovering names wrote p) w =
     (case respond p w of
        (w', None) \<Rightarrow> (w', None)
      | (w', Some v) \<Rightarrow> (if wrote \<or> wrote_header p w then w' else recovered_answer names w', None))"
proof (induction p arbitrary: wrote w)
  case (Panics v)
  then show ?case by (simp add: recovered_answer_def)
qed (auto split: prod.splits option.splits)

text \<open>Plain programs neither flush nor send informational statuses.\<close>

primrec plain :: "response_program \<Rightarrow> http_writer \<Rightarrow> bool" where
  "plain Return w \<longleftrightarrow> True"
| "plain (Panics v) w \<longleftrightarrow> True"
| "plain (EditHeader f p) w \<longleftrightarrow> plain p (w\<lparr>hw_header := f (hw_header w)\<rparr>)"
| "plain (ReadHeader p) w \<longleftrightarrow> plain (p (hw_header w)) w"
| "plain (SendHeader code p) w \<longleftrightarrow> \<not> informational code \<and> plain p (http_WriteHeader code w)"
| "plain (SendBody text p) w \<longleftrightarrow> plain p (http_Write text w)"
| "plain (FlushResponse p) w \<longleftrightarrow> False"

lemma committed_stays:
  "hw_status w = Some c \<Longrightarrow> hw_status (fst (respond p w)) = Some c"
  by (induction p arbitrary: w) (auto simp: writer_defs)

lemma plain_tracked:
  assumes "plain p w" and "hw_status w = None"
  shows "wrote_header p w \<longleftrightarrow> hw_status (fst (respond p w)) \<noteq> None"
  using assms
proof (induction p arbitrary: w)
  case (SendHeader code p)
  then show ?case using committed_stays[of "http_WriteHeader code w" code p]
    by (auto simp: http_WriteHeader_def)
next
  case (SendBody bytes p)
  then show ?case using committed_stays[of "http_Write bytes w" 200 p]
    by (auto simp: writer_defs informational_def)
qed auto

subsection \<open>The reset of prepared headers\<close>

definition canonical_headers :: "http_headers \<Rightarrow> bool" where
  "canonical_headers h \<longleftrightarrow> (\<forall>(n, _)\<in>set h. canonical_key n = n)"

lemma fold_header_del:
  "fold (\<lambda>(name, _). header_del name) ks h = filter (\<lambda>(n, _). n \<notin> (canonical_key \<circ> fst) ` set ks) h"
  by (induction ks arbitrary: h) (simp_all add: header_del_def split_def conj_commute)

lemma fold_header_add:
  "fold (\<lambda>(name, value). header_add name value) vs h = h @ map (\<lambda>(n, v). (canonical_key n, v)) vs"
  by (induction vs arbitrary: h) (auto simp: header_add_def)

lemma reset_canonical:
  assumes "canonical_headers h"
  shows "reset_headers names h = map (\<lambda>(n, v). (canonical_key n, v)) (identity_headers names h)"
proof -
  have "n \<in> (canonical_key \<circ> fst) ` set h" if "(n, v) \<in> set h" for n v
    using assms that unfolding canonical_headers_def by (force simp: image_iff)
  then have "filter (\<lambda>(n, _). n \<notin> (canonical_key \<circ> fst) ` set h) h = []"
    by (auto simp: filter_empty_conv)
  then show ?thesis
    by (simp add: reset_headers_def fold_header_del fold_header_add)
qed

lemma reset_only_identity:
  "canonical_headers h \<Longrightarrow> (n, v) \<in> set (reset_headers names h) \<longleftrightarrow>
     (n, v) \<in> set h \<and> n \<in> canonical_key ` set names"
  by (auto simp: reset_canonical identity_headers_def header_values_def canonical_headers_def image_iff)

lemma header_values_append: "header_values name (h @ k) = header_values name h @ header_values name k"
  by (simp add: header_values_def)

lemma identity_values:
  "header_values name (map (\<lambda>(n, v). (canonical_key n, v)) (identity_headers names h)) =
     concat (map (\<lambda>n. if canonical_key n = canonical_key name then header_values n h else []) names)"
proof (induction names)
  case (Cons n names)
  have "header_values name (map (\<lambda>(n, v). (canonical_key n, v)) (map (Pair n) vs)) =
      (if canonical_key n = canonical_key name then vs else [])" for vs
    by (auto simp: header_values_def filter_map comp_def)
  with Cons show ?case by (simp add: identity_headers_def header_values_append)
qed (simp add: identity_headers_def header_values_def)

lemma reset_keeps_identity:
  assumes "canonical_headers h" and "name \<in> set names" and "distinct (map canonical_key names)"
  shows "header_values name (reset_headers names h) = header_values name h"
proof -
  have "concat (map (\<lambda>n. if canonical_key n = canonical_key name then header_values n h else []) names) = header_values name h"
    using assms(2,3)
  proof (induction names)
    case (Cons n names)
    have none: "concat (map (\<lambda>n. if canonical_key n = canonical_key name then header_values n h else []) names) = []"
      if "canonical_key name \<notin> canonical_key ` set names"
      using that by (auto simp: image_iff)
    show ?case
    proof (cases "n = name")
      case True
      then show ?thesis using Cons.prems none by simp
    next
      case False
      then show ?thesis using Cons.prems Cons.IH by auto
    qed
  qed simp
  then show ?thesis by (simp add: reset_canonical[OF assms(1)] identity_values)
qed

text \<open>The names \<^verbatim>\<open>http.Error\<close> removes or sets.\<close>

definition error_names :: "string set" where
  "error_names = {''Content-Length'', ''Content-Encoding'', ''Etag'', ''Last-Modified'', ''Cache-Control'',
     ''Content-Type'', ''X-Content-Type-Options''}"

lemma error_headers_values:
  assumes "canonical_key name \<notin> error_names"
  shows "header_values name (error_headers h) = header_values name h"
proof -
  have "filter (\<lambda>(n, _). n = canonical_key name) (header_set k v xs) = filter (\<lambda>(n, _). n = canonical_key name) xs"
    if "k \<noteq> canonical_key name" for k v xs
    using that by (induction xs) (auto simp: header_set_def)
  moreover have "filter (\<lambda>(n, _). n = canonical_key name) (filter (\<lambda>(n, _). n \<notin> {''Content-Length'', ''Content-Encoding'',
      ''Etag'', ''Last-Modified'', ''Cache-Control''}) h) = filter (\<lambda>(n, _). n = canonical_key name) h"
    using assms by (induction h) (auto simp: error_names_def)
  ultimately show ?thesis using assms by (auto simp: header_values_def error_headers_def error_names_def)
qed

lemma error_headers_set:
  "(n, v) \<in> set (error_headers h) \<Longrightarrow> (n, v) \<in> set h \<or>
     (n, v) \<in> {(''X-Content-Type-Options'', ''nosniff''), (''Content-Type'', ''text/plain; charset=utf-8'')}"
  by (auto simp: error_headers_def header_set_def)

lemma recovered_answer_fields:
  assumes "hw_status w = None"
  shows "hw_status (recovered_answer names w) = Some 500"
    and "hw_body (recovered_answer names w) = hw_body w @ ''internal server error'' @ [char_of (10 :: nat)]"
    and "hw_header (recovered_answer names w) = error_headers (reset_headers names (hw_header w))"
  using assms
  by (auto simp: recovered_answer_def http_Error_def error_headers_def http_WriteHeader_def
      http_Write_def informational_def Let_def)

lemma uncommitted_body:
  "hw_status (fst (respond p w)) = None \<Longrightarrow> hw_status w = None \<and> hw_body (fst (respond p w)) = hw_body w"
proof (induction p arbitrary: w)
  case (SendBody bytes p)
  have "hw_status (http_Write bytes w) \<noteq> None" by (simp add: http_writer.body_settles)
  with SendBody.prems SendBody.IH[of "http_Write bytes w"] show ?case by simp
next
  case (SendHeader code p)
  show ?case using SendHeader.prems SendHeader.IH[of "http_WriteHeader code w"]
    by (simp add: http_WriteHeader_def split: if_splits)
next
  case (FlushResponse p)
  show ?case using FlushResponse.prems FlushResponse.IH[of "http_Flush w"]
    by (simp add: http_Flush_def http_WriteHeader_def split: if_splits)
next
  case (EditHeader f p)
  show ?case using EditHeader.prems EditHeader.IH[of "w\<lparr>hw_header := f (hw_header w)\<rparr>"] by simp
qed auto

text \<open>C21. \<^bold>\<open>A recovered handler never panics, and the answer of a plain handler is either its own or a clean 500.\<close>
  Whatever the wrapped handler does, the recovered one returns; where the handler returns, the
  response is the handler's. Where a plain handler, one that neither flushes nor sends informational statuses,
  panics, a response it had committed is left exactly as it was, and otherwise the answer is the
  generic 500 with the generic text. When the handler's headers are stored under canonical names, its headers
  are correlation headers the handler had prepared and the two headers of the error text, so a prepared header of any other name is gone;
  and every correlation header, whose name is none \<^verbatim>\<open>http.Error\<close> sets or removes, keeps all the values it had, in
  their order. Handlers that are not plain, and headers under names that are not canonical, are the exceptions of
  \<open>recovery_misjudges_commits\<close>.\<close>

theorem recover_contains_panics:
  assumes "respond (recovering names False p) w = (final, outcome)"
    and "respond p w = (reached, panicked)"
    and "hw_status w = None" and "hw_body w = []"
  shows "(outcome = None) \<and>
    (panicked = None \<longrightarrow> final = reached) \<and>
    (panicked \<noteq> None \<longrightarrow> plain p w \<longrightarrow> hw_status reached \<noteq> None \<longrightarrow> final = reached) \<and>
    (panicked \<noteq> None \<longrightarrow> plain p w \<longrightarrow> hw_status reached = None \<longrightarrow>
      hw_status final = Some 500 \<and> hw_body final = ''internal server error'' @ [char_of (10 :: nat)] \<and>
      (canonical_headers (hw_header reached) \<longrightarrow>
        (\<forall>(n, v)\<in>set (hw_header final).
          ((n, v) \<in> set (hw_header reached) \<and> n \<in> canonical_key ` set names) \<or>
          n = ''X-Content-Type-Options'' \<or> n = ''Content-Type'')) \<and>
      (canonical_headers (hw_header reached) \<longrightarrow> distinct (map canonical_key names) \<longrightarrow>
        (\<forall>name\<in>set names. canonical_key name \<notin> error_names \<longrightarrow>
          header_values name (hw_header final) = header_values name (hw_header reached))))"
proof -
  note run = recovering_run[of names False p w, unfolded assms(1,2)]
  have c1: "outcome = None" and returned: "panicked = None \<Longrightarrow> final = reached"
    using run by (auto split: option.splits)
  have tracked: "plain p w \<Longrightarrow> wrote_header p w \<longleftrightarrow> hw_status reached \<noteq> None"
    using plain_tracked[of p w] assms(2,3) by simp
  have c2: "final = reached" if "panicked \<noteq> None" "plain p w" "hw_status reached \<noteq> None"
    using run that tracked by (auto split: option.splits)
  have answer: "final = recovered_answer names reached" "hw_body reached = []"
    if "panicked \<noteq> None" "plain p w" and uncommitted: "hw_status reached = None"
    using that run tracked uncommitted_body[of p w] assms(2,4) by (auto split: option.splits)
  have c3: "hw_status final = Some 500 \<and> hw_body final = ''internal server error'' @ [char_of (10 :: nat)]"
    if "panicked \<noteq> None" "plain p w" "hw_status reached = None"
    using answer[OF that] recovered_answer_fields[OF that(3), of names] by simp
  have c4: "((n, v) \<in> set (hw_header reached) \<and> n \<in> canonical_key ` set names) \<or>
      n = ''X-Content-Type-Options'' \<or> n = ''Content-Type''"
    if "panicked \<noteq> None" "plain p w" "hw_status reached = None" "canonical_headers (hw_header reached)"
      "(n, v) \<in> set (hw_header final)" for n v
    using that(4,5) answer[OF that(1-3)] recovered_answer_fields(3)[OF that(3), of names]
    by (auto dest!: error_headers_set simp: reset_only_identity)
  have c5: "header_values name (hw_header final) = header_values name (hw_header reached)"
    if "panicked \<noteq> None" "plain p w" "hw_status reached = None" "canonical_headers (hw_header reached)"
      "distinct (map canonical_key names)" "name \<in> set names" "canonical_key name \<notin> error_names" for name
    using answer[OF that(1-3)] recovered_answer_fields(3)[OF that(3), of names] error_headers_values[OF that(7)]
      reset_keeps_identity[OF that(4,6,5)] by simp
  show ?thesis using c1 returned c2 c3 c4 c5 by blast
qed

theorem recover_contains_panics_witness:
  "header_values ''X-Request-Id'' (hw_header (fst (respond (recovering [''X-Correlation-Id'', ''X-Request-Id''] False
       (EditHeader (\<lambda>h. h @ [(''X-Request-Id'', ''r1''), (''Set-Cookie'', ''s'')]) (Panics 7))) fresh_writer))) = [''r1''] \<and>
   hw_status (fst (respond (recovering [''X-Correlation-Id'', ''X-Request-Id''] False
       (EditHeader (\<lambda>h. h @ [(''X-Request-Id'', ''r1''), (''Set-Cookie'', ''s'')]) (Panics 7))) fresh_writer)) = Some 500"
proof -
  let ?p = "EditHeader (\<lambda>h. h @ [(''X-Request-Id'', ''r1''), (''Set-Cookie'', ''s'')]) (Panics 7)"
  have keys: "canonical_key ''X-Request-Id'' = ''X-Request-Id''" "canonical_key ''Set-Cookie'' = ''Set-Cookie''"
    "canonical_key ''X-Correlation-Id'' = ''X-Correlation-Id''" by code_simp+
  have reached: "respond ?p fresh_writer = (fresh_writer\<lparr>hw_header := [(''X-Request-Id'', ''r1''), (''Set-Cookie'', ''s'')]\<rparr>, Some 7)"
    by (simp add: fresh_writer_def)
  show ?thesis
    using recover_contains_panics[OF prod.collapse[symmetric] reached,
        where names = "[''X-Correlation-Id'', ''X-Request-Id'']"]
    by (auto simp: fresh_writer_def canonical_headers_def error_names_def keys header_values_def)
qed

subsection \<open>Where the recovery comment does not hold\<close>

text \<open>When a handler returns without a status, \<^verbatim>\<open>net/http\<close> answers 200.\<close>

definition http_finish :: "http_writer \<Rightarrow> http_writer" where
  "http_finish w = http_WriteHeader 200 w"

definition recovered_response :: "string list \<Rightarrow> response_program \<Rightarrow> http_writer" where
  "recovered_response names p = http_finish (fst (respond (recovering names False p) fresh_writer))"

text \<open>\<^bold>\<open>Recovery misjudges what is committed.\<close> A handler that sends an informational status and then
  panics is answered 200 with an empty body, the panic swallowed. A handler that flushes and then
  panics has committed 200, yet the error text is appended to its response. A header the handler
  put into the map under a key that is not canonical survives into the 500 answer.\<close>

theorem recovery_misjudges_commits:
  shows "informational code \<Longrightarrow>
      hw_status (recovered_response names (SendHeader code (Panics v))) = Some 200 \<and>
      hw_body (recovered_response names (SendHeader code (Panics v))) = []"
    and "hw_status (recovered_response names (FlushResponse (Panics v))) = Some 200 \<and>
      hw_body (recovered_response names (FlushResponse (Panics v))) = ''internal server error'' @ [char_of (10 :: nat)]"
    and "canonical_key raw \<noteq> raw \<Longrightarrow>
      raw \<notin> {''Content-Length'', ''Content-Encoding'', ''Etag'', ''Last-Modified'', ''Cache-Control'',
             ''Content-Type'', ''X-Content-Type-Options''} \<Longrightarrow>
      hw_status (recovered_response names (EditHeader (\<lambda>h. h @ [(raw, secret)]) (Panics v))) = Some 500 \<and>
      (raw, secret) \<in> set (hw_header (recovered_response names (EditHeader (\<lambda>h. h @ [(raw, secret)]) (Panics v))))"
  by (auto simp: recovered_response_def http_finish_def fresh_writer_def http_Error_def writer_defs
      informational_def reset_headers_def fold_header_add header_del_def header_set_def)

theorem recovery_misjudges_commits_witness:
  "hw_status (recovered_response [] (SendHeader 103 (Panics 7))) = Some 200 \<and>
   (''x-secret'', ''token'') \<in> set (hw_header (recovered_response [] (EditHeader (\<lambda>h. h @ [(''x-secret'', ''token'')]) (Panics 7))))"
proof -
  have "canonical_key ''x-secret'' \<noteq> ''x-secret''" by code_simp
  then show ?thesis
    using recovery_misjudges_commits(1)[of 103 "[]" 7] recovery_misjudges_commits(3)[of "''x-secret''" "[]" "''token''" 7]
    by (simp add: informational_def)
qed

end
