(* ===== verification/Handler_Join.thy ===== *)
theory Handler_Join
  imports Http_Handlers Shutdown_Budget
begin

section \<open>Joining HTTP handlers\<close>

text \<open>
  Models \<^verbatim>\<open>serverhttp/handler_join.go\<close> and \<^verbatim>\<open>Server.WaitHandlers\<close>. Each method of \<^verbatim>\<open>handlerDrain\<close> is one
  critical section, so it is one step; the calls that are between admission and release are the
  rest of the state. The drain refines rundown protection, a specification with no counter and no
  channel: calls are admitted while it is open, and it is complete when it is closed and empty.
\<close>

record handlerDrain =
  hd_active :: int
  hd_draining :: bool
  hd_done :: chan

definition newHandlerDrain :: handlerDrain where
  "newHandlerDrain = \<lparr>hd_active = 0, hd_draining = False, hd_done = ChanOpen\<rparr>"

text \<open>The admission section of \<^verbatim>\<open>wrap\<close>; \<open>None\<close> is the draining answer.\<close>

definition drain_admit :: "handlerDrain \<Rightarrow> handlerDrain option" where
  "drain_admit d = (if hd_draining d then None else Some (d\<lparr>hd_active := hd_active d + 1\<rparr>))"

definition drain_wrap :: "handlerDrain \<Rightarrow> handler \<Rightarrow> handler" where
  "drain_wrap d next request =
     (case drain_admit d of None \<Rightarrow> error_program ''service draining'' 503 | Some _ \<Rightarrow> next request)"

definition drain_release :: "handlerDrain \<Rightarrow> handlerDrain" where
  "drain_release d =
     (let d = d\<lparr>hd_active := hd_active d - 1\<rparr>
      in if hd_draining d \<and> hd_active d = 0 then d\<lparr>hd_done := close_chan (hd_done d)\<rparr> else d)"

definition drain_closeAdmission :: "handlerDrain \<Rightarrow> handlerDrain" where
  "drain_closeAdmission d =
     (if hd_draining d then d
      else let d = d\<lparr>hd_draining := True\<rparr>
           in if hd_active d = 0 then d\<lparr>hd_done := close_chan (hd_done d)\<rparr> else d)"

text \<open>
  The results \<^verbatim>\<open>WaitHandlers\<close> may return: \<open>later\<close> and \<open>ctx\<close> are the drain and the context when
  the second select looks. No result means the call is still waiting.
\<close>

definition WaitHandlers ::
    "addr \<Rightarrow> bool \<Rightarrow> handlerDrain option \<Rightarrow> handlerDrain \<Rightarrow> ctx_state \<Rightarrow> go_error list" where
  "WaitHandlers a ctx_present handlers later ctx =
     (if \<not> ctx_present then [HTTPConfigError a ''ctx'' ''must not be nil'']
      else case handlers of
        None \<Rightarrow> [HTTPStateError a ''join handlers'' ''handler joining disabled'']
      | Some d \<Rightarrow>
          if hd_done (drain_closeAdmission d) = ChanClosed then [NilErr]
          else (if hd_done later = ChanClosed then [NilErr] else []) @
               (case ctx of
                  CtxActive \<Rightarrow> []
                | CtxDone _ _ \<Rightarrow> [errors_join a [Sentinel ErrHandlersUnjoined, ctx_cause ctx]]))"

subsection \<open>The drain under concurrent calls\<close>

record drain_sys =
  ds_drain :: handlerDrain
  ds_live :: "nat multiset"

definition drain_init :: "drain_sys \<Rightarrow> bool" where
  "drain_init s \<longleftrightarrow> s = \<lparr>ds_drain = newHandlerDrain, ds_live = {#}\<rparr>"

inductive drain_step :: "drain_sys \<Rightarrow> drain_sys \<Rightarrow> bool" where
  admitted: "drain_admit (ds_drain s) = Some d \<Longrightarrow>
    drain_step s (s\<lparr>ds_drain := d, ds_live := add_mset r (ds_live s)\<rparr>)"
| refused: "drain_admit (ds_drain s) = None \<Longrightarrow> drain_step s s"
| returned: "r \<in># ds_live s \<Longrightarrow>
    drain_step s (s\<lparr>ds_drain := drain_release (ds_drain s), ds_live := ds_live s - {#r#}\<rparr>)"
| closing: "drain_step s (s\<lparr>ds_drain := drain_closeAdmission (ds_drain s)\<rparr>)"

lemmas drain_defs [section_defs] =
  drain_admit_def drain_release_def drain_closeAdmission_def newHandlerDrain_def drain_init_def Let_def

definition drain_inv :: "drain_sys \<Rightarrow> bool" where
  "drain_inv s \<longleftrightarrow>
     hd_active (ds_drain s) = int (size (ds_live s)) \<and>
     hd_done (ds_drain s) =
       (if hd_draining (ds_drain s) \<and> ds_live s = {#} then ChanClosed else ChanOpen)"

lemma drain_inv_step: "drain_step s t \<Longrightarrow> drain_inv s \<Longrightarrow> drain_inv t"
proof (induction rule: drain_step.induct)
  case (returned r s)
  then obtain M where "ds_live s = add_mset r M" by (meson multi_member_split)
  with returned show ?case by (auto simp: drain_inv_def section_defs split: if_splits)
qed (auto simp: drain_inv_def section_defs split: if_splits)

interpretation handler_drain: safe_system drain_init drain_step drain_inv
proof unfold_locales
  show "drain_inv s" if "drain_init s" for s
    using that by (simp add: drain_inv_def section_defs)
qed (rule drain_inv_step)

subsection \<open>Rundown protection\<close>

record rundown =
  rd_open :: bool
  rd_live :: "nat multiset"

inductive rundown_step :: "rundown \<Rightarrow> rundown \<Rightarrow> bool" where
  enter: "rd_open r \<Longrightarrow> rundown_step r (r\<lparr>rd_live := add_mset c (rd_live r)\<rparr>)"
| leave: "c \<in># rd_live r \<Longrightarrow> rundown_step r (r\<lparr>rd_live := rd_live r - {#c#}\<rparr>)"
| shut: "rundown_step r (r\<lparr>rd_open := False\<rparr>)"

definition rundown_complete :: "rundown \<Rightarrow> bool" where
  "rundown_complete r \<longleftrightarrow> \<not> rd_open r \<and> rd_live r = {#}"

definition drain_abs :: "drain_sys \<Rightarrow> rundown" where
  "drain_abs s = \<lparr>rd_open = \<not> hd_draining (ds_drain s), rd_live = ds_live s\<rparr>"

lemma drain_refines: "drain_step s t \<Longrightarrow> drain_abs s = drain_abs t \<or> rundown_step (drain_abs s) (drain_abs t)"
proof (induction rule: drain_step.induct)
  case (admitted s d r)
  then show ?case using enter[of "drain_abs s" r]
    by (auto simp: drain_abs_def section_defs split: if_splits)
next
  case (returned r s)
  then show ?case using leave[of r "drain_abs s"]
    by (auto simp add: drain_abs_def section_defs split: if_splits)
next
  case (closing s)
  then show ?case using shut[of "drain_abs s"]
    by (auto simp add: drain_abs_def section_defs split: if_splits)
qed simp

lemma drain_refines_run: "drain_step\<^sup>*\<^sup>* s t \<Longrightarrow> rundown_step\<^sup>*\<^sup>* (drain_abs s) (drain_abs t)"
proof (induction rule: rtranclp_induct)
  case (step t u)
  then show ?case using drain_refines[of t u] by (auto intro: rtranclp.rtrancl_into_rtrancl)
qed simp

lemma complete_stays: "rundown_step\<^sup>*\<^sup>* r r' \<Longrightarrow> rundown_complete r \<Longrightarrow> rundown_complete r'"
  by (induction rule: rtranclp_induct) (auto simp: rundown_complete_def elim: rundown_step.cases)

lemma drain_complete_iff:
  "drain_inv s \<Longrightarrow> hd_done (ds_drain s) = ChanClosed \<longleftrightarrow> rundown_complete (drain_abs s)"
  by (auto simp: drain_inv_def rundown_complete_def drain_abs_def split: if_splits)

lemma drain_closed_stays:
  assumes "drain_inv s" and "hd_done (ds_drain s) = ChanClosed" and "drain_step\<^sup>*\<^sup>* s u"
  shows "hd_done (ds_drain u) = ChanClosed \<and> ds_live u = {#} \<and> drain_admit (ds_drain u) = None"
proof -
  have "rundown_complete (drain_abs u)"
    using assms complete_stays drain_refines_run drain_complete_iff[OF assms(1)] by blast
  moreover have "drain_inv u" using handler_drain.reachable_steps_inv[OF assms(1,3)] .
  ultimately show ?thesis
    by (simp add: drain_complete_iff) (simp add: rundown_complete_def drain_abs_def drain_admit_def)
qed

lemma drain_completes:
  assumes "drain_inv s" and "hd_draining (ds_drain s)"
  shows "\<exists>t. drain_step\<^sup>*\<^sup>* s t \<and> hd_done (ds_drain t) = ChanClosed"
  using assms
proof (induction "ds_live s" arbitrary: s)
  case empty
  then show ?case by (auto simp: drain_inv_def)
next
  case (add r M)
  let ?t = "s\<lparr>ds_drain := drain_release (ds_drain s), ds_live := ds_live s - {#r#}\<rparr>"
  have step: "drain_step s ?t" using add.hyps(2) by (intro returned) (metis union_single_eq_member)
  have "ds_live ?t = M" using add.hyps(2)[symmetric] by simp
  moreover have "hd_draining (ds_drain ?t)" using add.prems(2) by (simp add: drain_release_def Let_def)
  ultimately obtain u where "drain_step\<^sup>*\<^sup>* ?t u" "hd_done (ds_drain u) = ChanClosed"
    using add.hyps(1)[of ?t] drain_inv_step[OF step add.prems(1)] by auto
  with step show ?case by (meson converse_rtranclp_into_rtranclp)
qed

lemma draining_stays: "drain_step\<^sup>*\<^sup>* s t \<Longrightarrow> hd_draining (ds_drain s) \<Longrightarrow> hd_draining (ds_drain t)"
  by (induction rule: rtranclp_induct) (auto simp: section_defs elim!: drain_step.cases split: if_splits)

lemma errors_is_self [simp]: "errors_is (Sentinel e) (Sentinel e)"
  by (simp add: errors_is_def preorder_node children_def)

lemma unjoined_not_nil [simp]: "NilErr \<noteq> errors_join a (Sentinel e # es)"
  by (simp add: errors_join_def)

text \<open>C22. \<^bold>\<open>The handler drain implements rundown protection.\<close> Every step of the drain is a step of the
  specification or leaves it unchanged; in every reachable state the counter is the number of
  handlers that were admitted and have not returned, \<^verbatim>\<open>done\<close> is never closed twice, and it is closed
  exactly when the specification is complete, which it then stays: after \<^verbatim>\<open>done\<close> closed no handler
  runs and none is ever admitted again.\<close>

theorem drain_implements_rundown:
  assumes "reachable drain_init drain_step s"
  shows "(drain_step s t \<longrightarrow> drain_abs s = drain_abs t \<or> rundown_step (drain_abs s) (drain_abs t)) \<and>
    (hd_active (ds_drain s) = int (size (ds_live s)) \<and> hd_done (ds_drain s) \<in> {ChanOpen, ChanClosed}) \<and>
    (hd_done (ds_drain s) = ChanClosed \<longleftrightarrow> rundown_complete (drain_abs s)) \<and>
    (hd_done (ds_drain s) = ChanClosed \<longrightarrow> drain_step\<^sup>*\<^sup>* s u \<longrightarrow>
      hd_done (ds_drain u) = ChanClosed \<and> ds_live u = {#} \<and> drain_admit (ds_drain u) = None)"
proof -
  have inv: "drain_inv s" using assms by (rule handler_drain.reachable_inv)
  have c1: "drain_step s t \<Longrightarrow> drain_abs s = drain_abs t \<or> rundown_step (drain_abs s) (drain_abs t)"
    by (rule drain_refines)
  have c2: "hd_active (ds_drain s) = int (size (ds_live s)) \<and> hd_done (ds_drain s) \<in> {ChanOpen, ChanClosed}"
    using inv by (simp add: drain_inv_def)
  have c3: "hd_done (ds_drain s) = ChanClosed \<longleftrightarrow> rundown_complete (drain_abs s)"
    using inv by (rule drain_complete_iff)
  have c4: "hd_done (ds_drain s) = ChanClosed \<Longrightarrow> drain_step\<^sup>*\<^sup>* s u \<Longrightarrow>
      hd_done (ds_drain u) = ChanClosed \<and> ds_live u = {#} \<and> drain_admit (ds_drain u) = None"
    using inv by (rule drain_closed_stays)
  show ?thesis using c1 c2 c3 c4 by blast
qed

theorem drain_implements_rundown_witness:
  "hd_done (drain_release (drain_closeAdmission (newHandlerDrain\<lparr>hd_active := 1\<rparr>))) = ChanClosed"
proof -
  let ?s0 = "\<lparr>ds_drain = newHandlerDrain, ds_live = {#}\<rparr>"
  let ?s1 = "\<lparr>ds_drain = newHandlerDrain\<lparr>hd_active := 1\<rparr>, ds_live = {#5#}\<rparr>"
  let ?s2 = "\<lparr>ds_drain = drain_closeAdmission (newHandlerDrain\<lparr>hd_active := 1\<rparr>), ds_live = {#5#}\<rparr>"
  let ?s3 = "\<lparr>ds_drain = drain_release (drain_closeAdmission (newHandlerDrain\<lparr>hd_active := 1\<rparr>)), ds_live = {#}\<rparr>"
  have "reachable drain_init drain_step ?s0" by (rule reachable_init) (simp add: drain_init_def)
  moreover have "drain_step ?s0 ?s1"
    using admitted[of ?s0 "newHandlerDrain\<lparr>hd_active := 1\<rparr>" 5] by (simp add: drain_admit_def newHandlerDrain_def)
  moreover have "drain_step ?s1 ?s2" using closing[of ?s1] by simp
  moreover have "drain_step ?s2 ?s3" using returned[of 5 ?s2] by simp
  ultimately have "reachable drain_init drain_step ?s3" by (meson reachable_step)
  from drain_implements_rundown[OF this] show ?thesis
    by (simp add: rundown_complete_def drain_abs_def drain_release_def drain_closeAdmission_def newHandlerDrain_def)
qed

text \<open>C23. \<^bold>\<open>A successful join means no handler is running.\<close> In every reachable state, when
  \<^verbatim>\<open>WaitHandlers\<close> returns nil after its admission closed and other steps ran, all admitted handlers
  have returned; any other result is inspectable as \<^verbatim>\<open>ErrHandlersUnjoined\<close> together with the cause
  of the context; a join that is already complete wins over a cancelled context; and whatever ran
  meanwhile, the returns of the handlers that are left complete the join.\<close>

theorem join_means_returned:
  assumes "reachable drain_init drain_step s"
    and "drain_step\<^sup>*\<^sup>* (s\<lparr>ds_drain := drain_closeAdmission (ds_drain s)\<rparr>) t"
    and "result \<in> set (WaitHandlers a True (Some (ds_drain s)) (ds_drain t) ctx)"
  shows "(result = NilErr \<longrightarrow> ds_live t = {#}) \<and>
    (result \<noteq> NilErr \<longrightarrow> result = errors_join a [Sentinel ErrHandlersUnjoined, ctx_cause ctx] \<and>
      errors_is result (Sentinel ErrHandlersUnjoined)) \<and>
    (ds_live s = {#} \<longrightarrow> result = NilErr) \<and>
    (\<exists>u. drain_step\<^sup>*\<^sup>* t u \<and> hd_done (ds_drain u) = ChanClosed)"
proof -
  let ?s = "s\<lparr>ds_drain := drain_closeAdmission (ds_drain s)\<rparr>"
  have reach: "reachable drain_init drain_step ?s" using assms(1) closing by (rule reachable_step)
  then have invs: "drain_inv ?s" "drain_inv s"
    using assms(1) by (auto intro: handler_drain.reachable_inv)
  then have invt: "drain_inv t" using handler_drain.reachable_steps_inv assms(2) by blast
  have c1: "ds_live t = {#}" if "result = NilErr"
  proof (cases "hd_done (ds_drain ?s) = ChanClosed")
    case True
    then show ?thesis using drain_closed_stays[OF invs(1) _ assms(2)] by simp
  next
    case False
    with that assms(3) have "hd_done (ds_drain t) = ChanClosed"
      by (auto simp: WaitHandlers_def split: if_splits ctx_state.splits)
    then show ?thesis using invt by (auto simp: drain_inv_def split: if_splits)
  qed
  have c2: "result = errors_join a [Sentinel ErrHandlersUnjoined, ctx_cause ctx] \<and>
      errors_is result (Sentinel ErrHandlersUnjoined)" if "result \<noteq> NilErr"
    using that assms(3)
    by (auto simp: WaitHandlers_def errors_is_join split: if_splits ctx_state.splits)
  have draining: "hd_draining (ds_drain ?s)" by (simp add: drain_closeAdmission_def Let_def)
  then have c3: "\<exists>u. drain_step\<^sup>*\<^sup>* t u \<and> hd_done (ds_drain u) = ChanClosed"
    using drain_completes[OF invt] draining_stays[OF assms(2)] by blast
  have c4: "result = NilErr" if "ds_live s = {#}"
  proof -
    from draining invs(1) that have "hd_done (drain_closeAdmission (ds_drain s)) = ChanClosed"
      by (simp add: drain_inv_def)
    with assms(3) show ?thesis by (simp add: WaitHandlers_def)
  qed
  show ?thesis using c1 c2 c3 c4 by blast
qed

theorem join_means_returned_witness:
  "hd (WaitHandlers 1 True (Some newHandlerDrain) (drain_closeAdmission newHandlerDrain)
     (CtxDone (Sentinel Canceled) (Sentinel Canceled))) = NilErr"
proof -
  let ?s = "\<lparr>ds_drain = newHandlerDrain, ds_live = {#}\<rparr>"
  let ?results = "WaitHandlers 1 True (Some newHandlerDrain) (drain_closeAdmission newHandlerDrain)
     (CtxDone (Sentinel Canceled) (Sentinel Canceled))"
  have "reachable drain_init drain_step ?s" by (rule reachable_init) (simp add: drain_init_def)
  moreover have "hd ?results \<in> set ?results"
    by (simp add: WaitHandlers_def drain_closeAdmission_def newHandlerDrain_def)
  ultimately show ?thesis
    using join_means_returned[OF _ rtranclp.rtrancl_refl, of ?s] by simp
qed

end
