(* ===== verification/Connection_Limit.thy ===== *)
theory Connection_Limit
  imports Go_Errors Capacity
begin

section \<open>The connection limit\<close>

text \<open>
  Models \<^verbatim>\<open>serverhttp/connection_limit.go\<close> and the \<^verbatim>\<open>ConnState\<close> hook that \<^verbatim>\<open>Server.Run\<close> installs. A
  reservation is a slot of the buffered channel: \<^verbatim>\<open>Accept\<close> takes it before it calls the wrapped
  listener, and gives it back when that fails; the hook gives it back when \<^verbatim>\<open>net/http\<close> reports the
  connection's terminal state, closed or hijacked, which it does once for each connection. A receive
  from an empty channel would block the hook forever; the invariant shows that it never meets one.
\<close>

record connectionLimitListener =
  cl_capacity :: slot_chan
  cl_closed :: chan
  cl_once :: bool

definition limitConnections :: "nat \<Rightarrow> connectionLimitListener" where
  "limitConnections maximum = \<lparr>cl_capacity = \<lparr>chan_len = 0, chan_cap = maximum\<rparr>, cl_closed = ChanOpen, cl_once = False\<rparr>"

text \<open>The first select of \<^verbatim>\<open>Accept\<close>: the branches that are ready.\<close>

definition accept_reserve :: "connectionLimitListener \<Rightarrow> connectionLimitListener option" where
  "accept_reserve l = map_option (\<lambda>c. l\<lparr>cl_capacity := c\<rparr>) (try_send (cl_capacity l))"

definition accept_refuses :: "connectionLimitListener \<Rightarrow> bool" where
  "accept_refuses l \<longleftrightarrow> cl_closed l = ChanClosed"

definition release_blocks :: "connectionLimitListener \<Rightarrow> bool" where
  "release_blocks l \<longleftrightarrow> chan_len (cl_capacity l) = 0"

definition conn_release :: "connectionLimitListener \<Rightarrow> connectionLimitListener" where
  "conn_release l = l\<lparr>cl_capacity := receive (cl_capacity l)\<rparr>"

text \<open>\<^verbatim>\<open>Accept\<close> after its reservation, by the result of the wrapped listener.\<close>

definition accept_result :: "go_error \<Rightarrow> connectionLimitListener \<Rightarrow> connectionLimitListener \<times> go_error" where
  "accept_result err l = (if err \<noteq> NilErr then (conn_release l, err) else (l, NilErr))"

definition conn_Close :: "connectionLimitListener \<Rightarrow> connectionLimitListener" where
  "conn_Close l = (if cl_once l then l else l\<lparr>cl_once := True, cl_closed := close_chan (cl_closed l)\<rparr>)"

datatype conn_state = ConnNew | ConnActive | ConnIdle | ConnHijacked | ConnClosed

definition conn_state_hook :: "conn_state \<Rightarrow> connectionLimitListener \<Rightarrow> connectionLimitListener" where
  "conn_state_hook st l = (if st = ConnClosed \<or> st = ConnHijacked then conn_release l else l)"

subsection \<open>The listener under concurrent calls\<close>

text \<open>\<open>cs_accepting\<close> calls hold a reservation and wait for a connection; \<open>cs_owned\<close> are the server's.\<close>

record conn_sys =
  cs_listener :: connectionLimitListener
  cs_accepting :: nat
  cs_owned :: "nat multiset"

definition conn_init :: "nat \<Rightarrow> conn_sys \<Rightarrow> bool" where
  "conn_init maximum s \<longleftrightarrow> s = \<lparr>cs_listener = limitConnections maximum, cs_accepting = 0, cs_owned = {#}\<rparr>"

inductive conn_step :: "conn_sys \<Rightarrow> conn_sys \<Rightarrow> bool" where
  reserve: "accept_reserve (cs_listener s) = Some l \<Longrightarrow>
    conn_step s (s\<lparr>cs_listener := l, cs_accepting := Suc (cs_accepting s)\<rparr>)"
| refuse: "accept_refuses (cs_listener s) \<Longrightarrow> conn_step s s"
| accepted: "0 < cs_accepting s \<Longrightarrow> accept_result NilErr (cs_listener s) = (l, e) \<Longrightarrow>
    conn_step s (s\<lparr>cs_listener := l, cs_accepting := cs_accepting s - 1, cs_owned := add_mset c (cs_owned s)\<rparr>)"
| accept_failed: "0 < cs_accepting s \<Longrightarrow> err \<noteq> NilErr \<Longrightarrow> accept_result err (cs_listener s) = (l, e) \<Longrightarrow>
    conn_step s (s\<lparr>cs_listener := l, cs_accepting := cs_accepting s - 1\<rparr>)"
| moved: "c \<in># cs_owned s \<Longrightarrow> st \<notin> {ConnClosed, ConnHijacked} \<Longrightarrow>
    conn_step s (s\<lparr>cs_listener := conn_state_hook st (cs_listener s)\<rparr>)"
| ended: "c \<in># cs_owned s \<Longrightarrow> st \<in> {ConnClosed, ConnHijacked} \<Longrightarrow>
    conn_step s (s\<lparr>cs_listener := conn_state_hook st (cs_listener s), cs_owned := cs_owned s - {#c#}\<rparr>)"
| closes: "conn_step s (s\<lparr>cs_listener := conn_Close (cs_listener s)\<rparr>)"

definition conn_inv :: "nat \<Rightarrow> conn_sys \<Rightarrow> bool" where
  "conn_inv maximum s \<longleftrightarrow>
     chan_cap (cl_capacity (cs_listener s)) = maximum \<and>
     chan_len (cl_capacity (cs_listener s)) = cs_accepting s + size (cs_owned s) \<and>
     chan_len (cl_capacity (cs_listener s)) \<le> maximum \<and>
     cl_closed (cs_listener s) = (if cl_once (cs_listener s) then ChanClosed else ChanOpen)"

lemmas conn_defs [section_defs] =
  limitConnections_def accept_reserve_def accept_refuses_def conn_release_def accept_result_def
  conn_Close_def conn_state_hook_def receive_def

lemma conn_inv_step: "conn_step s t \<Longrightarrow> conn_inv maximum s \<Longrightarrow> conn_inv maximum t"
proof (induction rule: conn_step.induct)
  case (reserve s l)
  then show ?case by (auto simp: conn_inv_def accept_reserve_def dest: chan_slots.acquire_some)
next
  case (ended c s st)
  then obtain M where "cs_owned s = add_mset c M" by (meson multi_member_split)
  with ended show ?case by (auto simp: conn_inv_def section_defs)
qed (auto simp: conn_inv_def section_defs split: if_splits)

interpretation connections: safe_system "conn_init maximum" conn_step "conn_inv maximum" for maximum
proof unfold_locales
  show "conn_inv maximum s" if "conn_init maximum s" for s
    using that by (simp add: conn_inv_def conn_init_def section_defs)
qed (rule conn_inv_step)

text \<open>C24. \<^bold>\<open>The server never owns more connections than configured.\<close> In every interleaving of accepting,
  failing, closing and hijacking, the connections the server owns and the accepts that hold a
  reservation together are the slots in use and at most the maximum; a reservation is refused only
  when they are all in use; every release of an accept or of the connection hook finds its slot, so
  it never blocks; and the listener's channel is closed at most once.\<close>

theorem connections_bounded:
  assumes "reachable (conn_init maximum) conn_step s"
  shows "(size (cs_owned s) + cs_accepting s \<le> maximum) \<and>
    (accept_reserve (cs_listener s) = None \<longleftrightarrow> size (cs_owned s) + cs_accepting s = maximum) \<and>
    (cs_owned s \<noteq> {#} \<or> 0 < cs_accepting s \<longrightarrow> \<not> release_blocks (cs_listener s)) \<and>
    (cl_closed (cs_listener s) \<noteq> ChanPanic \<and> cl_closed (cs_listener s) \<noteq> ChanNil)"
proof -
  have inv: "conn_inv maximum s" using assms by (rule connections.reachable_inv)
  have c1: "size (cs_owned s) + cs_accepting s \<le> maximum" using inv by (simp add: conn_inv_def)
  have c2: "accept_reserve (cs_listener s) = None \<longleftrightarrow> size (cs_owned s) + cs_accepting s = maximum"
    using inv chan_slots.acquire_iff[of "cl_capacity (cs_listener s)"]
    by (auto simp: accept_reserve_def conn_inv_def)
  have c3: "cs_owned s \<noteq> {#} \<or> 0 < cs_accepting s \<Longrightarrow> \<not> release_blocks (cs_listener s)"
    using inv by (auto simp: release_blocks_def conn_inv_def)
  have c4: "cl_closed (cs_listener s) \<noteq> ChanPanic \<and> cl_closed (cs_listener s) \<noteq> ChanNil"
    using inv by (simp add: conn_inv_def)
  show ?thesis using c1 c2 c3 c4 by blast
qed

theorem connections_bounded_witness:
  "accept_reserve \<lparr>cl_capacity = \<lparr>chan_len = 1, chan_cap = 1\<rparr>, cl_closed = ChanOpen, cl_once = False\<rparr> = None"
proof -
  let ?full = "\<lparr>cl_capacity = \<lparr>chan_len = 1, chan_cap = 1\<rparr>, cl_closed = ChanOpen, cl_once = False\<rparr>"
  let ?s0 = "\<lparr>cs_listener = limitConnections 1, cs_accepting = 0, cs_owned = {#}\<rparr>"
  let ?s1 = "\<lparr>cs_listener = ?full, cs_accepting = 1, cs_owned = {#}\<rparr>"
  let ?s2 = "\<lparr>cs_listener = ?full, cs_accepting = 0, cs_owned = {#7#}\<rparr>"
  have "reachable (conn_init 1) conn_step ?s0" by (rule reachable_init) (simp add: conn_init_def)
  moreover have "conn_step ?s0 ?s1"
    using reserve[of ?s0 ?full] by (simp add: accept_reserve_def limitConnections_def try_send_def)
  moreover have "conn_step ?s1 ?s2" using accepted[of ?s1 ?full NilErr 7] by (simp add: accept_result_def)
  ultimately have "reachable (conn_init 1) conn_step ?s2" by (meson reachable_step)
  from connections_bounded[OF this] show ?thesis by simp
qed

end
