(* ===== verification/Server_HTTP.thy ===== *)
theory Server_HTTP
  imports Handler_Join Connection_Limit
begin

section \<open>The owned HTTP server\<close>

text \<open>
  Models \<^verbatim>\<open>serverhttp/server.go\<close>: the configuration and its options, the construction of the handler
  stack in \<^verbatim>\<open>New\<close>, and \<^verbatim>\<open>Close\<close>, \<^verbatim>\<open>CloseAdmission\<close> and \<^verbatim>\<open>Run\<close>. The listener, \<^verbatim>\<open>http.Server\<close>'s own
  \<^verbatim>\<open>Serve\<close>, \<^verbatim>\<open>Shutdown\<close> and \<^verbatim>\<open>Close\<close> and the correlation package are the world: their results are
  arguments, the calls to them effects in the order they are made.
\<close>

subsection \<open>Configuration\<close>

record http_config =
  readTimeout :: duration
  readHeaderTimeout :: duration
  writeTimeout :: duration
  idleTimeout :: duration
  shutdownTimeout :: duration
  bodyLimit :: int
  maxHeaderBytes :: int
  maxConnections :: int
  panicRecovery :: bool
  joinHandlers :: bool
  baseContext :: "addr option"
  connContext :: "addr option"
  correlation :: "middleware option"
  ingress :: "middleware list"
  middlewares :: "middleware list"

definition defaultConfig :: http_config where
  "defaultConfig =
     \<lparr>readTimeout = 30 * second, readHeaderTimeout = 5 * second, writeTimeout = 30 * second,
      idleTimeout = 2 * minute, shutdownTimeout = 30 * second, bodyLimit = 1048576,
      maxHeaderBytes = 1048576, maxConnections = 0, panicRecovery = True, joinHandlers = False,
      baseContext = None, connContext = None, correlation = None, ingress = [], middlewares = []\<rparr>"

text \<open>
  One constructor for each option function, with its arguments; a callback is the address of its
  function value, the correlation middleware what its package's constructor returned.
\<close>

datatype server_option =
    WithHandlerJoin bool
  | WithPanicRecovery bool
  | WithMaxConnections int
  | WithReadTimeout duration
  | WithReadHeaderTimeout duration
  | WithWriteTimeout duration
  | WithIdleTimeout duration
  | WithShutdownTimeout duration
  | WithBodyLimit int
  | WithMaxHeaderBytes int
  | WithBaseContext "addr option"
  | WithConnContext "addr option"
  | WithCorrelation "go_error + middleware"
  | WithIngressMiddleware "middleware option list"
  | WithMiddleware "middleware option list"

definition durationOption ::
    "addr \<Rightarrow> string \<Rightarrow> duration \<Rightarrow> (http_config \<Rightarrow> http_config) \<Rightarrow> http_config \<Rightarrow> go_error + http_config" where
  "durationOption a field timeout apply config =
     (if timeout < 0 then Inl (HTTPConfigError a field ''must not be negative'') else Inr (apply config))"

fun apply_option :: "addr \<Rightarrow> server_option \<Rightarrow> http_config \<Rightarrow> go_error + http_config" where
  "apply_option a (WithHandlerJoin enabled) config = Inr (config\<lparr>joinHandlers := enabled\<rparr>)"
| "apply_option a (WithPanicRecovery enabled) config = Inr (config\<lparr>panicRecovery := enabled\<rparr>)"
| "apply_option a (WithMaxConnections maximum) config =
     (if maximum < 0 then Inl (HTTPConfigError a ''MaxConnections'' ''must not be negative'')
      else Inr (config\<lparr>maxConnections := maximum\<rparr>))"
| "apply_option a (WithReadTimeout t) config =
     durationOption a ''ReadTimeout'' t (readTimeout_update (\<lambda>_. t)) config"
| "apply_option a (WithReadHeaderTimeout t) config =
     durationOption a ''ReadHeaderTimeout'' t (readHeaderTimeout_update (\<lambda>_. t)) config"
| "apply_option a (WithWriteTimeout t) config =
     durationOption a ''WriteTimeout'' t (writeTimeout_update (\<lambda>_. t)) config"
| "apply_option a (WithIdleTimeout t) config =
     durationOption a ''IdleTimeout'' t (idleTimeout_update (\<lambda>_. t)) config"
| "apply_option a (WithShutdownTimeout t) config =
     (if t \<le> 0 then Inl (HTTPConfigError a ''ShutdownTimeout'' ''must be positive'')
      else Inr (config\<lparr>shutdownTimeout := t\<rparr>))"
| "apply_option a (WithBodyLimit limit) config =
     (if limit < 0 then Inl (HTTPConfigError a ''BodyLimit'' ''must not be negative'')
      else Inr (config\<lparr>bodyLimit := limit\<rparr>))"
| "apply_option a (WithMaxHeaderBytes limit) config =
     (if limit \<le> 0 then Inl (HTTPConfigError a ''MaxHeaderBytes'' ''must be positive'')
      else Inr (config\<lparr>maxHeaderBytes := limit\<rparr>))"
| "apply_option a (WithBaseContext base) config =
     (if base = None then Inl (HTTPConfigError a ''BaseContext'' ''must not be nil'')
      else Inr (config\<lparr>baseContext := base\<rparr>))"
| "apply_option a (WithConnContext connection) config =
     (if connection = None then Inl (HTTPConfigError a ''ConnContext'' ''must not be nil'')
      else Inr (config\<lparr>connContext := connection\<rparr>))"
| "apply_option a (WithCorrelation constructed) config =
     (case correlation config of
        Some _ \<Rightarrow> Inl (HTTPConfigError a ''Correlation'' ''duplicates request identity ownership'')
      | None \<Rightarrow> (case constructed of Inl err \<Rightarrow> Inl err | Inr m \<Rightarrow> Inr (config\<lparr>correlation := Some m\<rparr>)))"
| "apply_option a (WithIngressMiddleware ms) config =
     (if list_ex Option.is_none ms then Inl (HTTPConfigError a ''ingress middleware'' ''must not contain nil'')
      else Inr (config\<lparr>ingress := ingress config @ map the ms\<rparr>))"
| "apply_option a (WithMiddleware ms) config =
     (if list_ex Option.is_none ms then Inl (HTTPConfigError a ''middleware'' ''must not contain nil'')
      else Inr (config\<lparr>middlewares := middlewares config @ map the ms\<rparr>))"

fun apply_options :: "addr \<Rightarrow> nat \<Rightarrow> server_option option list \<Rightarrow> http_config \<Rightarrow> go_error + http_config" where
  "apply_options a index [] config = Inr config"
| "apply_options a index (None # rest) config = Inl (HTTPConfigError a (indexed ''options'' index '''') ''must not be nil'')"
| "apply_options a index (Some opt # rest) config =
     (case apply_option a opt config of Inl err \<Rightarrow> Inl err | Inr config \<Rightarrow> apply_options a (Suc index) rest config)"

subsection \<open>Construction\<close>

definition server_stack :: "string list \<Rightarrow> http_config \<Rightarrow> middleware list" where
  "server_stack names configured =
     (if panicRecovery configured then [Recover names] else []) @
     (case correlation configured of None \<Rightarrow> [] | Some wrap \<Rightarrow> [wrap]) @
     ingress configured @ [limitBody (bodyLimit configured)] @ middlewares configured"

fun stack_loop :: "addr \<Rightarrow> middleware list \<Rightarrow> handler \<Rightarrow> go_error + handler" where
  "stack_loop a [] h = Inr h"
| "stack_loop a (m # before) h =
     (case m (Some h) of
        None \<Rightarrow> Inl (HTTPConfigError a ''middleware'' ''must not return nil'')
      | Some h \<Rightarrow> stack_loop a before h)"

record http_server =
  sv_ran :: bool
  sv_handler :: handler
  sv_config :: http_config
  sv_closeOnce :: bool
  sv_closeErr :: go_error
  sv_connections :: "connectionLimitListener option"
  sv_handlers :: "handlerDrain option"

definition built_server :: "http_config \<Rightarrow> handler \<Rightarrow> http_server" where
  "built_server configured composed =
     \<lparr>sv_ran = False, sv_handler = composed, sv_config = configured,
      sv_closeOnce = False, sv_closeErr = NilErr,
      sv_connections = (if 0 < maxConnections configured
        then Some (limitConnections (nat (maxConnections configured))) else None),
      sv_handlers = (if joinHandlers configured then Some newHandlerDrain else None)\<rparr>"

definition server_New ::
    "addr \<Rightarrow> string list \<Rightarrow> bool \<Rightarrow> handler option \<Rightarrow> server_option option list \<Rightarrow> go_error + http_server" where
  "server_New a names listener_present handler options =
     (if \<not> listener_present then Inl (HTTPConfigError a ''listener'' ''must not be nil'')
      else case apply_options a 0 options defaultConfig of
        Inl err \<Rightarrow> Inl err
      | Inr configured \<Rightarrow>
          (case stack_loop a (rev (server_stack names configured)) (handlerOrNotFound handler) of
             Inl err \<Rightarrow> Inl err
           | Inr composed \<Rightarrow> Inr (built_server configured composed)))"

text \<open>The handler \<^verbatim>\<open>net/http\<close> calls: the composed one, inside the drain when handlers are joined.\<close>

definition ServeHTTP :: "http_server \<Rightarrow> handler" where
  "ServeHTTP server =
     (case sv_handlers server of None \<Rightarrow> sv_handler server | Some d \<Rightarrow> drain_wrap d (sv_handler server))"

subsection \<open>Close and Run\<close>

datatype server_effect =
    HTTPServe
  | HTTPShutdown duration
  | HTTPClose
  | ListenerClose
  | JoinServe

definition server_CloseAdmission :: "http_server \<Rightarrow> http_server" where
  "server_CloseAdmission server = server\<lparr>sv_handlers := map_option drain_closeAdmission (sv_handlers server)\<rparr>"

definition close_failures :: "bool \<Rightarrow> go_error \<Rightarrow> go_error \<Rightarrow> go_error list" where
  "close_failures used closed listenerClosed =
     (if used \<and> \<not> errors_is closed (Sentinel NetErrClosed) then [closed] else []) @
     (if \<not> errors_is listenerClosed (Sentinel NetErrClosed) then [listenerClosed] else [])"

definition server_Close ::
    "addr \<Rightarrow> go_error \<Rightarrow> go_error \<Rightarrow> http_server \<Rightarrow> http_server \<times> server_effect list \<times> go_error" where
  "server_Close a closed listenerClosed server =
     (if sv_closeOnce server then (server, [], sv_closeErr server)
      else
        let used = sv_ran server;
            result = errors_join a (close_failures used closed listenerClosed);
            server = (server_CloseAdmission server)\<lparr>sv_ran := True, sv_closeOnce := True, sv_closeErr := result\<rparr>
        in (server, (if used then [HTTPClose] else []) @ [ListenerClose], result))"

text \<open>
  What the world answers to a run: whether serving ended before the context, and the results of
  \<^verbatim>\<open>Serve\<close>, \<^verbatim>\<open>Shutdown\<close>, \<^verbatim>\<open>http.Server.Close\<close> and the listener's close.
\<close>

record run_world =
  rw_served_first :: bool
  rw_serve :: go_error
  rw_shutdown :: go_error
  rw_closed :: go_error
  rw_listener :: go_error

definition run_failures :: "addr \<Rightarrow> run_world \<Rightarrow> go_error \<Rightarrow> go_error list" where
  "run_failures a w closeErr =
     (if rw_shutdown w \<noteq> NilErr then rw_shutdown w # (if closeErr \<noteq> NilErr then [closeErr] else []) else []) @
     (if rw_serve w \<noteq> NilErr \<and> \<not> errors_is (rw_serve w) (Sentinel ErrServerClosed)
      then [ServeError a (rw_serve w)] else [])"

definition server_Run ::
    "addr \<Rightarrow> bool \<Rightarrow> run_world \<Rightarrow> http_server \<Rightarrow> http_server \<times> server_effect list \<times> go_error" where
  "server_Run a ctx_present w server =
     (if \<not> ctx_present then (server, [], HTTPConfigError a ''ctx'' ''must not be nil'')
      else if sv_ran server then (server, [], HTTPStateError a ''run'' ''used'')
      else
        let server = server\<lparr>sv_ran := True\<rparr> in
        if rw_served_first w then
          (server_CloseAdmission server, [HTTPServe],
           if errors_is (rw_serve w) (Sentinel ErrServerClosed) then NilErr else ServeError a (rw_serve w))
        else
          let (server, effects, closeErr) =
                (if rw_shutdown w \<noteq> NilErr then server_Close a (rw_closed w) (rw_listener w) server
                 else (server, [], NilErr));
              failures = run_failures a w closeErr
          in (server_CloseAdmission server, [HTTPServe, HTTPShutdown (shutdownTimeout (sv_config server))] @ effects @ [JoinServe],
              if failures \<noteq> [] then RunError a failures else NilErr))"

subsection \<open>The composed handler\<close>

lemma stack_loop_chain: "stack_loop a ms h = chain_loop a (map Some ms) h"
  by (induction ms arbitrary: h) (auto split: option.splits)

lemma server_New_Inr:
  "server_New a names present h options = Inr server \<longleftrightarrow>
     present \<and> apply_options a 0 options defaultConfig = Inr (sv_config server) \<and>
     compose (server_stack names (sv_config server)) (handlerOrNotFound h) = Some (sv_handler server) \<and>
     server = built_server (sv_config server) (sv_handler server)"
  by (auto simp: server_New_def stack_loop_chain chain_loop_compose built_server_def rev_map
      split: sum.splits option.splits)

lemma compose_recover:
  "compose (Recover names # ms) h = Some g \<Longrightarrow> \<exists>inner. g = (\<lambda>request. recovering names False (inner request))"
  by (auto simp: Recover_def split: option.splits)

lemma recovering_returns: "snd (respond (recovering names wrote p) w) = None"
  unfolding recovering_run by (auto split: prod.splits option.splits)

lemma read_limited: "0 \<le> limit \<Longrightarrow> int (length (fst (read_all (MaxBytesReader body limit)))) \<le> limit"
  by (auto simp: Let_def split: prod.splits)

lemma compose_limit:
  assumes "compose (outer @ limitBody limit # inner) h = Some g"
  shows "\<exists>rest. compose inner h = Some rest \<and> compose outer (the (limitBody limit (Some rest))) = Some g"
  using assms by (auto simp: compose_append limitBody_def split: option.splits)

lemma limitBody_answers:
  "the (limitBody limit (Some rest)) request =
     (if limit \<noteq> 0 \<and> limit < req_ContentLength request then error_program ''request body too large'' 413
      else if limit = 0 then rest request
      else rest (request\<lparr>req_Body := MaxBytesReader (req_Body request) limit\<rparr>))"
  by (simp add: limitBody_def handlerOrNotFound_def)

text \<open>Options never leave a negative body limit.\<close>

lemma apply_option_limit: "apply_option a opt config = Inr config' \<Longrightarrow> 0 \<le> bodyLimit config \<Longrightarrow> 0 \<le> bodyLimit config'"
  by (cases opt) (auto simp: durationOption_def split: if_splits option.splits sum.splits)

lemma apply_options_limit: "apply_options a i opts config = Inr config' \<Longrightarrow> 0 \<le> bodyLimit config \<Longrightarrow> 0 \<le> bodyLimit config'"
proof (induction a i opts config rule: apply_options.induct)
  case (3 a index opt rest config)
  then show ?case using apply_option_limit by (fastforce split: sum.splits)
qed auto

lemma compose_layers:
  assumes "compose (server_stack names config) h = Some g"
  shows "\<exists>rest gated identified. compose (middlewares config) h = Some rest \<and>
    compose (ingress config) (the (limitBody (bodyLimit config) (Some rest))) = Some gated \<and>
    (case correlation config of None \<Rightarrow> Some gated | Some wrap \<Rightarrow> wrap (Some gated)) = Some identified \<and>
    g = (if panicRecovery config then (\<lambda>request. recovering names False (identified request)) else identified)"
proof -
  obtain rest where rest: "compose (middlewares config) h = Some rest"
    and outer: "compose ((if panicRecovery config then [Recover names] else []) @
      (case correlation config of None \<Rightarrow> [] | Some wrap \<Rightarrow> [wrap]) @ ingress config)
        (the (limitBody (bodyLimit config) (Some rest))) = Some g"
    using compose_limit[of "(if panicRecovery config then [Recover names] else []) @
      (case correlation config of None \<Rightarrow> [] | Some wrap \<Rightarrow> [wrap]) @ ingress config"] assms
    unfolding server_stack_def by fastforce
  from outer obtain gated where "compose (ingress config) (the (limitBody (bodyLimit config) (Some rest))) = Some gated"
    "compose ((if panicRecovery config then [Recover names] else []) @
      (case correlation config of None \<Rightarrow> [] | Some wrap \<Rightarrow> [wrap])) gated = Some g"
    unfolding append_assoc[symmetric] compose_append by (auto split: option.splits)
  with rest show ?thesis
    by (auto simp: compose_append Recover_def handlerOrNotFound_def split: option.splits if_splits)
qed



subsection \<open>One run, one close\<close>

lemma closes_admission:
  "sv_handlers (server_CloseAdmission server) = Some d \<Longrightarrow> hd_draining d"
  by (auto simp: server_CloseAdmission_def drain_closeAdmission_def Let_def)

lemma server_CloseAdmission_fields [simp]:
  "sv_ran (server_CloseAdmission s) = sv_ran s" "sv_closeOnce (server_CloseAdmission s) = sv_closeOnce s"
  "sv_closeErr (server_CloseAdmission s) = sv_closeErr s"
  by (simp_all add: server_CloseAdmission_def)

lemma Close_used: "server_Close a c l s = (closed, effs, r) \<Longrightarrow>
    sv_closeOnce closed \<and> sv_closeErr closed = r \<and> (sv_ran closed \<or> sv_closeOnce s \<and> \<not> sv_ran s) \<and> HTTPServe \<notin> set effs"
  by (auto simp: server_Close_def Let_def split: if_splits)

lemma Close_repeated: "sv_closeOnce s \<Longrightarrow> server_Close a c l s = (s, [], sv_closeErr s)"
  by (simp add: server_Close_def)

lemma Run_used: "sv_ran s \<Longrightarrow> server_Run a True w s = (s, [], HTTPStateError a ''run'' ''used'')"
  by (simp add: server_Run_def)

lemma Run_served:
  "\<not> sv_ran s \<Longrightarrow> rw_served_first w \<Longrightarrow> server_Run a True w s =
     (server_CloseAdmission (s\<lparr>sv_ran := True\<rparr>), [HTTPServe],
      if errors_is (rw_serve w) (Sentinel ErrServerClosed) then NilErr else ServeError a (rw_serve w))"
  by (simp add: server_Run_def Let_def)

lemma Run_cancelled:
  "\<not> sv_ran s \<Longrightarrow> \<not> rw_served_first w \<Longrightarrow>
   (if rw_shutdown w \<noteq> NilErr then server_Close a (rw_closed w) (rw_listener w) (s\<lparr>sv_ran := True\<rparr>)
    else (s\<lparr>sv_ran := True\<rparr>, [], NilErr)) = (t, effs, closeErr) \<Longrightarrow>
   server_Run a True w s =
     (server_CloseAdmission t, [HTTPServe, HTTPShutdown (shutdownTimeout (sv_config t))] @ effs @ [JoinServe],
      if run_failures a w closeErr \<noteq> [] then RunError a (run_failures a w closeErr) else NilErr)"
  by (simp add: server_Run_def Let_def)

lemma run_failures_empty:
  "run_failures a w closeErr = [] \<longleftrightarrow>
     rw_shutdown w = NilErr \<and> (rw_serve w = NilErr \<or> errors_is (rw_serve w) (Sentinel ErrServerClosed))"
  by (auto simp: run_failures_def)

lemma Close_forced:
  assumes "\<not> sv_closeOnce s" and "sv_ran s"
  shows "\<exists>t. server_Close a c l s = (t, [HTTPClose, ListenerClose], errors_join a (close_failures True c l))"
  using assms by (simp add: server_Close_def Let_def)

lemma close_reported:
  "\<not> errors_is c (Sentinel NetErrClosed) \<Longrightarrow> c \<noteq> NilErr \<Longrightarrow>
     \<exists>es. errors_join a (close_failures True c l) = JoinError a es \<and> c \<in> set es"
  by (auto simp: close_failures_def errors_join_def Let_def)

text \<open>C26. \<^bold>\<open>A server runs at most once, always leaves admission closed, and reports every failure.\<close>
  After \<^verbatim>\<open>Run\<close> or \<^verbatim>\<open>Close\<close> another \<^verbatim>\<open>Run\<close> has no effect and is a typed state error; a repeated
  \<^verbatim>\<open>Close\<close> has no effect and returns the first result. A run that started closed the drain when it
  returns. It returns nil exactly when serving ended with \<^verbatim>\<open>ErrServerClosed\<close>, or, after cancellation,
  the graceful shutdown succeeded and serving ended without an independent failure; a failed graceful
  shutdown forces the close, and both failures are in the report.\<close>

theorem server_runs_once:
  assumes "\<not> sv_ran server" and "server_Run a True w server = (final, effects, result)"
  shows "(server_Run b True v final = (final, [], HTTPStateError b ''run'' ''used'')) \<and>
    (sv_handlers final = Some d \<longrightarrow> hd_draining d) \<and>
    (count_list effects HTTPServe = 1) \<and>
    (rw_served_first w \<longrightarrow> result = NilErr \<longleftrightarrow> errors_is (rw_serve w) (Sentinel ErrServerClosed)) \<and>
    (\<not> rw_served_first w \<longrightarrow> result = NilErr \<longleftrightarrow>
      rw_shutdown w = NilErr \<and> (rw_serve w = NilErr \<or> errors_is (rw_serve w) (Sentinel ErrServerClosed))) \<and>
    (\<not> rw_served_first w \<longrightarrow> rw_shutdown w \<noteq> NilErr \<longrightarrow> \<not> sv_closeOnce server \<longrightarrow>
      HTTPClose \<in> set effects \<and> ListenerClose \<in> set effects \<and>
      (\<exists>fs. result = RunError a fs \<and> rw_shutdown w \<in> set fs \<and>
        (\<not> errors_is (rw_closed w) (Sentinel NetErrClosed) \<and> rw_closed w \<noteq> NilErr \<longrightarrow>
          (\<exists>es. JoinError a es \<in> set fs \<and> rw_closed w \<in> set es)))) \<and>
    (server_Close a c l server' = (closed, effects', result') \<longrightarrow>
      server_Close b c' l' closed = (closed, [], result') \<and>
      (\<not> sv_closeOnce server' \<longrightarrow> server_Run b True v closed = (closed, [], HTTPStateError b ''run'' ''used'')))"
proof -
  obtain t effs closeErr where cancelled:
    "(if rw_shutdown w \<noteq> NilErr then server_Close a (rw_closed w) (rw_listener w) (server\<lparr>sv_ran := True\<rparr>)
      else (server\<lparr>sv_ran := True\<rparr>, [], NilErr)) = (t, effs, closeErr)"
    by (meson prod_cases3)
  have t: "sv_ran t \<and> HTTPServe \<notin> set effs"
    using cancelled by (auto dest!: Close_used split: if_splits)
  have final: "sv_ran final \<and> (sv_handlers final = Some d \<longrightarrow> hd_draining d)"
    using assms Run_served[OF assms(1)] Run_cancelled[OF assms(1) _ cancelled] t closes_admission
    by (cases "rw_served_first w") auto
  then have c1: "server_Run b True v final = (final, [], HTTPStateError b ''run'' ''used'')"
    and c2: "sv_handlers final = Some d \<Longrightarrow> hd_draining d"
    by (auto simp: Run_used)
  have c3: "count_list effects HTTPServe = 1"
    using assms Run_served[OF assms(1)] Run_cancelled[OF assms(1) _ cancelled] t
    by (cases "rw_served_first w") (auto simp: count_list_0_iff)
  have c4: "result = NilErr \<longleftrightarrow> errors_is (rw_serve w) (Sentinel ErrServerClosed)" if "rw_served_first w"
    using assms(2) Run_served[OF assms(1) that, of a] by (auto split: if_splits)
  have c5: "result = NilErr \<longleftrightarrow>
      rw_shutdown w = NilErr \<and> (rw_serve w = NilErr \<or> errors_is (rw_serve w) (Sentinel ErrServerClosed))"
    if "\<not> rw_served_first w"
    using assms(2) Run_cancelled[OF assms(1) that cancelled]
    by (auto simp: run_failures_empty split: if_splits)
  have c6: "server_Close b c' l' closed = (closed, [], result') \<and>
      (\<not> sv_closeOnce server' \<longrightarrow> server_Run b True v closed = (closed, [], HTTPStateError b ''run'' ''used''))"
    if "server_Close a c l server' = (closed, effects', result')"
    using Close_used[OF that] by (auto simp: Close_repeated Run_used)
  have c7: "HTTPClose \<in> set effects \<and> ListenerClose \<in> set effects \<and>
      (\<exists>fs. result = RunError a fs \<and> rw_shutdown w \<in> set fs \<and>
        (\<not> errors_is (rw_closed w) (Sentinel NetErrClosed) \<and> rw_closed w \<noteq> NilErr \<longrightarrow>
          (\<exists>es. JoinError a es \<in> set fs \<and> rw_closed w \<in> set es)))"
    if forced: "\<not> rw_served_first w" "rw_shutdown w \<noteq> NilErr" "\<not> sv_closeOnce server"
  proof -
    have close: "effs = [HTTPClose, ListenerClose]"
      "closeErr = errors_join a (close_failures True (rw_closed w) (rw_listener w))"
      using forced Close_forced[of "server\<lparr>sv_ran := True\<rparr>" a "rw_closed w" "rw_listener w"] cancelled by auto
    have "result = RunError a (run_failures a w closeErr)" and "effects = [HTTPServe, HTTPShutdown (shutdownTimeout (sv_config t))] @ effs @ [JoinServe]"
      using assms(2) Run_cancelled[OF assms(1) forced(1) cancelled] forced(2) by (auto simp: run_failures_empty)
    moreover have "rw_shutdown w \<in> set (run_failures a w closeErr)"
      and "closeErr \<noteq> NilErr \<Longrightarrow> closeErr \<in> set (run_failures a w closeErr)"
      using forced(2) by (simp_all add: run_failures_def)
    ultimately show ?thesis
      using close close_reported[of "rw_closed w" a "rw_listener w"] by fastforce
  qed
  show ?thesis using c1 c2 c3 c4 c5 c6 c7 by blast
qed

theorem server_runs_once_witness:
  "snd (snd (server_Run 1 True \<lparr>rw_served_first = False, rw_serve = Sentinel ErrServerClosed, rw_shutdown = NilErr,
       rw_closed = NilErr, rw_listener = NilErr\<rparr> (built_server defaultConfig NotFoundHandler))) = NilErr"
proof -
  let ?w = "\<lparr>rw_served_first = False, rw_serve = Sentinel ErrServerClosed, rw_shutdown = NilErr,
       rw_closed = NilErr, rw_listener = NilErr\<rparr>"
  have "\<not> sv_ran (built_server defaultConfig NotFoundHandler)" by (simp add: built_server_def)
  moreover obtain final effects result where
    run: "server_Run 1 True ?w (built_server defaultConfig NotFoundHandler) = (final, effects, result)"
    by (meson prod_cases3)
  ultimately have "result = NilErr"
    using server_runs_once[of "built_server defaultConfig NotFoundHandler" 1 ?w final effects result] by simp
  with run show ?thesis by simp
qed

end
