(* ===== verification/Http_Owners.thy ===== *)
theory Http_Owners
  imports Plan Server_HTTP
begin

section \<open>The platform's HTTP owners\<close>

text \<open>
  Models \<^verbatim>\<open>managementOwner\<close>, \<^verbatim>\<open>businessOwner\<close>, \<^verbatim>\<open>stopHTTPServer\<close> and \<^verbatim>\<open>securityHeaders\<close> of
  \<^verbatim>\<open>platform.go\<close>: the options each owner gives the server of \<^verbatim>\<open>serverhttp\<close>, its start, run and stop.
  Listening, the correlation middleware, the trace and request middleware of other parts and the
  results of the server's own methods are arguments.
\<close>

subsection \<open>Options\<close>

definition management_options :: "go_error + middleware \<Rightarrow> middleware option \<Rightarrow> server_option list" where
  "management_options correlated trace =
     [WithCorrelation correlated, WithReadHeaderTimeout (2 * second), WithReadTimeout (5 * second),
      WithWriteTimeout (5 * second), WithIdleTimeout (30 * second), WithShutdownTimeout (5 * second),
      WithMaxHeaderBytes 16384, WithMaxConnections 256, WithBodyLimit 0] @
     (case trace of None \<Rightarrow> [] | Some m \<Rightarrow> [WithIngressMiddleware [Some m]])"

definition securityHeaders :: middleware where
  "securityHeaders next =
     Some (\<lambda>request. EditHeader (header_set ''X-Content-Type-Options'' ''nosniff'') (the next request))"

definition ingress_option :: "middleware option \<Rightarrow> server_option list" where
  "ingress_option m = (case m of None \<Rightarrow> [] | Some m \<Rightarrow> [WithIngressMiddleware [Some m]])"

definition business_options ::
    "go_error + middleware \<Rightarrow> middleware option \<Rightarrow> middleware option \<Rightarrow> middleware option \<Rightarrow>
     server_option option list \<Rightarrow> bool \<Rightarrow> server_option option list" where
  "business_options correlated trace observed maintained configured join =
     map Some ([WithCorrelation correlated] @ ingress_option trace @ ingress_option observed @ ingress_option maintained) @
     configured @ [Some (WithMiddleware [Some securityHeaders]), Some (WithHandlerJoin join)]"

subsection \<open>Starting and stopping\<close>

text \<open>
  The start of an owner: a listener given or opened, the server, and whether the listener was
  closed again. The management owner builds its probes first.
\<close>

record owner_start =
  os_server :: "go_error + http_server"
  os_listener_closed :: bool

definition owner_listen ::
    "addr \<Rightarrow> string \<Rightarrow> bool \<Rightarrow> go_error \<Rightarrow> go_error + http_server \<Rightarrow> owner_start" where
  "owner_listen a name listener_given listenErr constructed =
     (if \<not> listener_given \<and> listenErr \<noteq> NilErr then
        \<lparr>os_server = Inl (ConstructionError a name listenErr), os_listener_closed = False\<rparr>
      else case constructed of
        Inl err \<Rightarrow> \<lparr>os_server = Inl (ConstructionError a name err), os_listener_closed = True\<rparr>
      | Inr server \<Rightarrow> \<lparr>os_server = Inr server, os_listener_closed = False\<rparr>)"

definition management_start ::
    "addr \<Rightarrow> string list \<Rightarrow> go_error \<Rightarrow> handler \<Rightarrow> go_error + middleware \<Rightarrow> middleware option \<Rightarrow> bool \<Rightarrow> go_error \<Rightarrow> owner_start" where
  "management_start a names probesErr router correlated trace listener_given listenErr =
     (if probesErr \<noteq> NilErr then
        \<lparr>os_server = Inl (ConstructionError a ''management probes'' probesErr), os_listener_closed = False\<rparr>
      else owner_listen a ''management'' listener_given listenErr
        (server_New a names True (Some router) (map Some (management_options correlated trace))))"

definition business_start ::
    "addr \<Rightarrow> string list \<Rightarrow> handler option \<Rightarrow> server_option option list \<Rightarrow> bool \<Rightarrow> go_error \<Rightarrow> owner_start" where
  "business_start a names application options listener_given listenErr =
     owner_listen a ''business HTTP'' listener_given listenErr (server_New a names True application options)"

text \<open>
  The supervised business task with joined handlers: run, close, close admission, publish the
  error by closing \<^verbatim>\<open>stopped\<close>, wait for the handlers. Without joining it is the run alone, whose panic
  the supervisor contains under the same task name.
\<close>

datatype business_effect = RunServer | CloseServer | CloseServerAdmission | PublishStopped | AwaitHandlers

definition business_run ::
    "addr \<Rightarrow> bool \<Rightarrow> outcome \<Rightarrow> outcome \<Rightarrow> ctx_state \<Rightarrow> business_effect list \<times> go_error" where
  "business_run a join run closed ctx =
     (if \<not> join then ([RunServer], invoke a ''service-business-http'' ''run'' run)
      else
        let runErr = invoke a ''service-business-http'' ''run'' run;
            closeErr = invoke a ''service-business-http'' ''close'' closed;
            runErr = (if runErr = NilErr \<and> ctx_err ctx = NilErr
                      then ErrorString a ''business HTTP stopped before cancellation'' else runErr)
        in ([RunServer, CloseServer, CloseServerAdmission, PublishStopped, AwaitHandlers],
            errors_join a [runErr, closeErr]))"

definition business_failure :: "chan \<Rightarrow> go_error \<Rightarrow> go_error" where
  "business_failure stopped runErr = (if stopped = ChanClosed then runErr else NilErr)"

text \<open>\<^verbatim>\<open>stopHTTPServer\<close>: the results it may return, by the context at its two selects and whether the run ended.\<close>

definition stopHTTPServer :: "addr \<Rightarrow> ctx_state \<Rightarrow> ctx_state \<Rightarrow> bool \<Rightarrow> go_error \<Rightarrow> go_error \<Rightarrow> go_error list" where
  "stopHTTPServer a before later ended closeErr runErr =
     (if before \<noteq> CtxActive then [errors_join a [ctx_cause before, closeErr, runErr]]
      else (if ended then [runErr] else []) @
           (if later \<noteq> CtxActive then [errors_join a [ctx_cause later, closeErr, runErr]] else []))"

subsection \<open>What the owners configure\<close>

lemma apply_options_append:
  "apply_options a i (xs @ ys) cfg =
     (case apply_options a i xs cfg of Inl e \<Rightarrow> Inl e | Inr cfg \<Rightarrow> apply_options a (i + length xs) ys cfg)"
proof (induction xs arbitrary: i cfg)
  case (Cons x xs)
  then show ?case by (cases x) (auto split: sum.splits)
qed simp

lemma option_keeps_correlation:
  "apply_option a opt cfg = Inr cfg' \<Longrightarrow> correlation cfg = Some m \<Longrightarrow>
     correlation cfg' = Some m \<and> (\<forall>c. opt \<noteq> WithCorrelation c) \<and>
     prefix (ingress cfg) (ingress cfg') \<and> prefix (middlewares cfg) (middlewares cfg')"
  by (cases opt) (auto simp: durationOption_def split: if_splits)

lemma options_keep_correlation:
  "apply_options a i opts cfg = Inr cfg' \<Longrightarrow> correlation cfg = Some m \<Longrightarrow>
     correlation cfg' = Some m \<and> (\<forall>c. Some (WithCorrelation c) \<notin> set opts) \<and>
     prefix (ingress cfg) (ingress cfg') \<and> prefix (middlewares cfg) (middlewares cfg')"
proof (induction opts arbitrary: i cfg)
  case (Cons opt opts)
  then obtain o' cfg1 where opt: "opt = Some o'" "apply_option a o' cfg = Inr cfg1"
    "apply_options a (Suc i) opts cfg1 = Inr cfg'" by (cases opt) (auto split: sum.splits)
  note one = option_keeps_correlation[OF opt(2) Cons.prems(2)]
  then have "correlation cfg1 = Some m" by blast
  from one Cons.IH[OF opt(3) this] opt(1) show ?case by (auto dest: prefix_order.trans)
qed simp

lemma ingress_options_apply:
  "apply_options a i (map Some (ingress_option m)) cfg = Inr (cfg\<lparr>ingress := ingress cfg @ (case m of None \<Rightarrow> [] | Some m \<Rightarrow> [m])\<rparr>)"
  by (cases m) (simp_all add: ingress_option_def)

definition layers :: "middleware option list \<Rightarrow> middleware list" where
  "layers ms = concat (map (\<lambda>m. case m of None \<Rightarrow> [] | Some m \<Rightarrow> [m]) ms)"

text \<open>C31. \<^bold>\<open>The platform, not the application, owns identity and handler joining of the business server.\<close>
  Whatever options the application passes, an accepted business server has the platform's
  correlation layer, runs trace, request observation and the maintenance gate before any ingress of
  the application, sets the security header innermost, and joins handlers exactly when the plan
  says so; an option that installs another correlation layer makes the start fail. A failed start
  closes the listener exactly when a listener had been acquired.\<close>

theorem business_server_owned:
  assumes "server_New a names True h (business_options (Inr corr) trace observed maintained configured join) = Inr server"
    and "sv_config server = config"
  shows "(correlation config = Some corr) \<and>
    (joinHandlers config = join \<and> (sv_handlers server \<noteq> None \<longleftrightarrow> join)) \<and>
    (prefix (layers [trace, observed, maintained]) (ingress config)) \<and>
    (\<exists>ms. middlewares config = ms @ [securityHeaders]) \<and>
    (Some (WithCorrelation c) \<notin> set configured) \<and>
    (os_listener_closed (business_start a names h options given listenErr) \<longleftrightarrow>
      (given \<or> listenErr = NilErr) \<and> (\<exists>e. server_New a names True h options = Inl e))"
proof -
  let ?ours = "[WithCorrelation (Inr corr)] @ ingress_option trace @ ingress_option observed @ ingress_option maintained"
  have accepted: "apply_options a 0 (business_options (Inr corr) trace observed maintained configured join) defaultConfig = Inr config"
    and built: "sv_handlers server = (if joinHandlers config then Some newHandlerDrain else None)"
    using assms by (auto simp: server_New_Inr built_server_def) (metis http_server.select_convs(7))+
  let ?base = "defaultConfig\<lparr>correlation := Some corr, ingress := layers [trace, observed, maintained]\<rparr>"
  have ours: "apply_options a 0 (map Some ?ours) defaultConfig = Inr ?base"
    by (simp add: apply_options_append ingress_options_apply layers_def defaultConfig_def)
  from accepted obtain mid where mid: "apply_options a (length ?ours) configured ?base = Inr mid"
    and last: "config = mid\<lparr>middlewares := middlewares mid @ [securityHeaders], joinHandlers := join\<rparr>"
    unfolding business_options_def apply_options_append[of a 0 "map Some ?ours"] ours
    by (auto simp: apply_options_append split: sum.splits)
  note kept = options_keep_correlation[OF mid, of corr, simplified]
  have c1: "correlation config = Some corr" "joinHandlers config = join \<and> (sv_handlers server \<noteq> None \<longleftrightarrow> join)"
    "prefix (layers [trace, observed, maintained]) (ingress config)"
    "\<exists>ms. middlewares config = ms @ [securityHeaders]" "Some (WithCorrelation c) \<notin> set configured"
    using kept built by (auto simp: last)
  have c2: "os_listener_closed (business_start a names h options given listenErr) \<longleftrightarrow>
      (given \<or> listenErr = NilErr) \<and> (\<exists>e. server_New a names True h options = Inl e)"
    by (auto simp: business_start_def owner_listen_def split: sum.splits)
  show ?thesis using c1 c2 by blast
qed

theorem business_server_owned_witness:
  "\<exists>server. server_New 1 [] True None (business_options (Inr (\<lambda>h. h)) None None None [Some (WithHandlerJoin False)] True) = Inr server \<and>
     joinHandlers (sv_config server) \<and> sv_handlers server \<noteq> None"
proof -
  have "\<exists>server. server_New 1 [] True None (business_options (Inr (\<lambda>h. h)) None None None [Some (WithHandlerJoin False)] True) = Inr server"
    by (simp add: server_New_def business_options_def ingress_option_def defaultConfig_def server_stack_def
        securityHeaders_def limitBody_def Recover_def)
  then obtain server where
    "server_New 1 [] True None (business_options (Inr (\<lambda>h. h)) None None None [Some (WithHandlerJoin False)] True) = Inr server"
    by blast
  with business_server_owned[OF this refl] show ?thesis by blast
qed

lemma management_server_bounded:
  assumes "server_New a names True h (map Some (management_options (Inr corr) trace)) = Inr server"
  shows "sv_connections server = Some (limitConnections 256) \<and> sv_handlers server = None \<and>
    panicRecovery (sv_config server) \<and> maxHeaderBytes (sv_config server) = 16384 \<and>
    readTimeout (sv_config server) = 5 * second \<and> shutdownTimeout (sv_config server) = 5 * second"
  using assms
  by (cases trace) (auto simp: server_New_def management_options_def durationOption_def defaultConfig_def built_server_def
      split: sum.splits)

lemma joined_run_publishes_before_waiting:
  "fst (business_run a True run closed ctx) = [RunServer, CloseServer, CloseServerAdmission, PublishStopped, AwaitHandlers] \<and>
   (snd (business_run a True run closed ctx) = NilErr \<longrightarrow> ctx_err ctx \<noteq> NilErr)"
  by (auto simp: business_run_def Let_def errors_join_def split: if_splits)

lemma stop_reports_run_failure:
  assumes "r \<in> set (stopHTTPServer a before later ended closeErr runErr)" and "runErr \<noteq> NilErr"
  shows "r = runErr \<or> (\<exists>es. r = JoinError a es \<and> runErr \<in> set es)"
  using assms by (auto simp: stopHTTPServer_def errors_join_def Let_def split: if_splits)

end
