(* ===== verification/Command_Signals.thy ===== *)
theory Command_Signals
  imports Go_Errors
begin

section \<open>Signals of a command\<close>

text \<open>
  Models \<^verbatim>\<open>coordinateCommandSignals\<close> of \<^verbatim>\<open>platform.go\<close> with a signal channel: the goroutine that turns
  the first signal into a cancellation and forwards a later one as the escalation, the callback
  that runs before the cancellation (it drains the service), and \<^verbatim>\<open>stop\<close>. The goroutine's stretches
  between blocking operations are steps; signals, the parent context and the callers of
  \<^verbatim>\<open>beforeSignalCancel\<close> and \<^verbatim>\<open>stop\<close> interleave freely. \<open>sg_first\<close> and \<open>sg_second\<close> record the signal
  each select took, \<open>sg_called\<close> the callbacks that ran, \<open>sg_escalated\<close> what was forwarded.
\<close>

datatype signal_pc =
    WaitFirst
  | RunBefore go_error bool
  | Callback "nat option" go_error bool
  | Cancelling go_error bool
  | WaitSecond
  | CloseEscalation
  | CloseDone
  | Ended

record command_signals =
  sg_parent :: ctx_state
  sg_ctx :: ctx_state
  sg_escalation :: chan
  sg_stop :: chan
  sg_stopOnce :: bool
  sg_done :: chan
  sg_before :: "nat option"
  sg_signalReceived :: bool
  sg_released :: bool
  sg_pc :: signal_pc
  sg_first :: "os_signal option"
  sg_second :: "os_signal option"
  sg_called :: "nat list"
  sg_escalated :: "os_signal list"

definition coordinateCommandSignals :: command_signals where
  "coordinateCommandSignals =
     \<lparr>sg_parent = CtxActive, sg_ctx = CtxActive, sg_escalation = ChanOpen, sg_stop = ChanOpen,
      sg_stopOnce = False, sg_done = ChanOpen, sg_before = None, sg_signalReceived = False,
      sg_released = False, sg_pc = WaitFirst, sg_first = None, sg_second = None,
      sg_called = [], sg_escalated = []\<rparr>"

text \<open>The callers: registering the callback, the two halves of \<^verbatim>\<open>stop\<close>.\<close>

definition signals_beforeCancel :: "nat option \<Rightarrow> command_signals \<Rightarrow> command_signals" where
  "signals_beforeCancel callback s = (if sg_signalReceived s then s else s\<lparr>sg_before := callback\<rparr>)"

definition signals_stop :: "command_signals \<Rightarrow> command_signals" where
  "signals_stop s = (if sg_stopOnce s then s else s\<lparr>sg_stopOnce := True, sg_stop := close_chan (sg_stop s)\<rparr>)"

definition signals_stopped :: "command_signals \<Rightarrow> command_signals" where
  "signals_stopped s = s\<lparr>sg_released := True, sg_ctx := cancel_cause (Sentinel Canceled) (sg_ctx s)\<rparr>"

text \<open>The goroutine. \<open>signals_run\<close> are its steps that wait for nothing.\<close>

definition first_signal :: "addr \<Rightarrow> os_signal option \<Rightarrow> command_signals \<Rightarrow> command_signals" where
  "first_signal a received s =
     (case received of
        None \<Rightarrow> s\<lparr>sg_pc := RunBefore (Sentinel ErrSignal) True\<rparr>
      | Some sig \<Rightarrow> s\<lparr>sg_pc := RunBefore (SignalError a sig) False, sg_first := Some sig\<rparr>)"

definition second_signal :: "os_signal option \<Rightarrow> command_signals \<Rightarrow> command_signals" where
  "second_signal received s =
     (case received of
        None \<Rightarrow> s\<lparr>sg_pc := CloseEscalation\<rparr>
      | Some sig \<Rightarrow> s\<lparr>sg_pc := CloseEscalation, sg_second := Some sig,
                      sg_escalated := sg_escalated s @ [sig]\<rparr>)"

definition signals_run :: "command_signals \<Rightarrow> command_signals option" where
  "signals_run s =
     (case sg_pc s of
        RunBefore cause ends \<Rightarrow> Some (s\<lparr>sg_signalReceived := True, sg_pc := Callback (sg_before s) cause ends\<rparr>)
      | Callback callback cause ends \<Rightarrow>
          Some (s\<lparr>sg_called := sg_called s @ (case callback of None \<Rightarrow> [] | Some c \<Rightarrow> [c]), sg_pc := Cancelling cause ends\<rparr>)
      | Cancelling cause ends \<Rightarrow>
          Some (s\<lparr>sg_ctx := cancel_cause cause (sg_ctx s), sg_pc := (if ends then CloseEscalation else WaitSecond)\<rparr>)
      | CloseEscalation \<Rightarrow> Some (s\<lparr>sg_escalation := close_chan (sg_escalation s), sg_pc := CloseDone\<rparr>)
      | CloseDone \<Rightarrow> Some (s\<lparr>sg_done := close_chan (sg_done s), sg_pc := Ended\<rparr>)
      | _ \<Rightarrow> None)"

text \<open>\<open>signal_move\<close> are the moves the goroutine makes without a signal: it runs on, sees the end of the
  parent or sees that \<^verbatim>\<open>stop\<close> was called. \<open>signal_step\<close> adds the receptions of its two selects (a signal
  or the closed channel) and the steps of its callers.\<close>

inductive signal_move :: "command_signals \<Rightarrow> command_signals \<Rightarrow> bool" where
  parent_first: "sg_pc s = WaitFirst \<Longrightarrow> sg_parent s = CtxDone e c \<Longrightarrow>
    signal_move s (s\<lparr>sg_pc := Cancelling c False\<rparr>)"
| stop_first: "sg_pc s = WaitFirst \<Longrightarrow> sg_stop s = ChanClosed \<Longrightarrow> signal_move s (s\<lparr>sg_pc := CloseEscalation\<rparr>)"
| stop_second: "sg_pc s = WaitSecond \<Longrightarrow> sg_stop s = ChanClosed \<Longrightarrow> signal_move s (s\<lparr>sg_pc := CloseEscalation\<rparr>)"
| runs: "signals_run s = Some t \<Longrightarrow> signal_move s t"

inductive signal_step :: "command_signals \<Rightarrow> command_signals \<Rightarrow> bool" where
  parent_ends: "sg_parent s = CtxActive \<Longrightarrow> e \<noteq> NilErr \<Longrightarrow> c \<noteq> NilErr \<Longrightarrow>
    signal_step s (s\<lparr>sg_parent := CtxDone e c\<rparr>)"
| propagates: "sg_parent s = CtxDone e c \<Longrightarrow> signal_step s (s\<lparr>sg_ctx := end_ctx e c (sg_ctx s)\<rparr>)"
| takes_first: "sg_pc s = WaitFirst \<Longrightarrow> signal_step s (first_signal a received s)"
| takes_second: "sg_pc s = WaitSecond \<Longrightarrow> signal_step s (second_signal received s)"
| moves: "signal_move s t \<Longrightarrow> signal_step s t"
| registers: "signal_step s (signals_beforeCancel callback s)"
| stop_called: "signal_step s (signals_stop s)"
| stop_returns: "sg_stopOnce s \<Longrightarrow> sg_done s = ChanClosed \<Longrightarrow> signal_step s (signals_stopped s)"

definition signal_init :: "command_signals \<Rightarrow> bool" where
  "signal_init s \<longleftrightarrow> s = coordinateCommandSignals"

subsection \<open>Invariant\<close>

definition closed_when :: "chan \<Rightarrow> bool \<Rightarrow> bool" where
  "closed_when c b \<longleftrightarrow> c = (if b then ChanClosed else ChanOpen)"

text \<open>The cause the goroutine carries, and what it has done when it carries it.\<close>

definition carries :: "command_signals \<Rightarrow> go_error \<Rightarrow> bool" where
  "carries s cause \<longleftrightarrow>
     (case sg_first s of None \<Rightarrow> cause = Sentinel ErrSignal | Some sig \<Rightarrow> \<exists>a. cause = SignalError a sig)"

definition called_back :: "command_signals \<Rightarrow> bool" where
  "called_back s \<longleftrightarrow> sg_signalReceived s \<and> (\<forall>c. sg_before s = Some c \<longrightarrow> c \<in> set (sg_called s))"

definition pc_inv :: "command_signals \<Rightarrow> bool" where
  "pc_inv s \<longleftrightarrow>
     (case sg_pc s of
        WaitFirst \<Rightarrow> \<not> sg_signalReceived s \<and> sg_first s = None \<and> sg_second s = None
      | RunBefore cause ends \<Rightarrow> \<not> sg_signalReceived s \<and> carries s cause \<and> sg_second s = None
      | Callback callback cause ends \<Rightarrow> sg_signalReceived s \<and> callback = sg_before s \<and> carries s cause \<and> sg_second s = None
      | Cancelling cause ends \<Rightarrow> sg_second s = None \<and>
          (if sg_signalReceived s then carries s cause \<and> called_back s else sg_parent s \<noteq> CtxActive)
      | WaitSecond \<Rightarrow> sg_second s = None
      | _ \<Rightarrow> True)"

definition ctx_inv :: "command_signals \<Rightarrow> bool" where
  "ctx_inv s \<longleftrightarrow>
     (sg_ctx s \<noteq> CtxActive \<and> sg_parent s = CtxActive \<and> \<not> sg_released s \<longrightarrow>
        called_back s \<and> (\<exists>cause. sg_ctx s = CtxDone (Sentinel Canceled) cause \<and> carries s cause))"

definition escalation_inv :: "command_signals \<Rightarrow> bool" where
  "escalation_inv s \<longleftrightarrow> sg_escalated s = (case sg_second s of None \<Rightarrow> [] | Some sig \<Rightarrow> [sig])"

definition signal_inv :: "command_signals \<Rightarrow> bool" where
  "signal_inv s \<longleftrightarrow>
     closed_when (sg_escalation s) (sg_pc s \<in> {CloseDone, Ended}) \<and> closed_when (sg_done s) (sg_pc s = Ended) \<and>
     closed_when (sg_stop s) (sg_stopOnce s) \<and> (sg_released s \<longrightarrow> sg_done s = ChanClosed) \<and>
     pc_inv s \<and> ctx_inv s \<and> escalation_inv s"

lemmas signal_defs [section_defs] =
  signals_beforeCancel_def signals_stop_def signals_stopped_def first_signal_def second_signal_def
  cancel_cause_def closed_when_def

lemma end_ctx_active: "end_ctx e c x = (case x of CtxActive \<Rightarrow> CtxDone e c | CtxDone e' c' \<Rightarrow> CtxDone e' c')"
  by (cases x) auto

lemmas signal_invs = signal_inv_def pc_inv_def ctx_inv_def escalation_inv_def called_back_def carries_def

lemma same_history:
  "ctx_inv (s\<lparr>sg_escalation := e, sg_pc := p\<rparr>) = ctx_inv s" "ctx_inv (s\<lparr>sg_done := d, sg_pc := p\<rparr>) = ctx_inv s"
  by (simp_all add: ctx_inv_def called_back_def carries_def)

lemma signal_inv_run:
  assumes "signal_inv s" and "signals_run s = Some t"
  shows "signal_inv t"
proof (cases "sg_pc s")
  case (RunBefore cause ends)
  then have t: "t = s\<lparr>sg_signalReceived := True, sg_pc := Callback (sg_before s) cause ends\<rparr>"
    using assms(2) by (simp add: signals_run_def)
  have pc: "\<not> sg_signalReceived s" "carries s cause" "sg_second s = None"
    using assms(1) RunBefore by (simp_all add: signal_inv_def pc_inv_def)
  have "\<not> (sg_ctx s \<noteq> CtxActive \<and> sg_parent s = CtxActive \<and> \<not> sg_released s)"
    using assms(1) pc(1) by (auto simp: signal_inv_def ctx_inv_def called_back_def)
  moreover have "carries t = carries s" unfolding t by (simp add: carries_def fun_eq_iff)
  ultimately show ?thesis
    using assms(1) pc RunBefore unfolding t by (auto simp: signal_inv_def pc_inv_def ctx_inv_def escalation_inv_def)
next
  case (Callback callback cause ends)
  then have t: "t = s\<lparr>sg_called := sg_called s @ (case callback of None \<Rightarrow> [] | Some c \<Rightarrow> [c]), sg_pc := Cancelling cause ends\<rparr>"
    using assms(2) by (simp add: signals_run_def)
  have pc: "sg_signalReceived s" "sg_before s = callback" "carries s cause" "sg_second s = None"
    using assms(1) Callback by (simp_all add: signal_inv_def pc_inv_def)
  have "called_back t" using pc unfolding t by (simp add: called_back_def split: option.splits)
  moreover have "carries t = carries s" unfolding t by (simp add: carries_def fun_eq_iff)
  ultimately show ?thesis
    using assms(1) pc Callback unfolding t by (simp add: signal_inv_def pc_inv_def ctx_inv_def escalation_inv_def)
next
  case (Cancelling cause ends)
  then have t: "t = s\<lparr>sg_ctx := cancel_cause cause (sg_ctx s), sg_pc := (if ends then CloseEscalation else WaitSecond)\<rparr>"
    using assms(2) by (simp add: signals_run_def)
  have same: "carries t = carries s" "called_back t = called_back s"
    unfolding t by (simp_all add: carries_def called_back_def fun_eq_iff)
  have pc: "sg_second s = None" "sg_signalReceived s \<Longrightarrow> carries s cause \<and> called_back s"
    "\<not> sg_signalReceived s \<Longrightarrow> sg_parent s \<noteq> CtxActive"
    using assms(1) Cancelling by (simp_all add: signal_inv_def pc_inv_def)
  have "carries s cause \<Longrightarrow> cause \<noteq> NilErr" by (auto simp: carries_def split: option.splits)
  then have "ctx_inv t"
    using assms(1) pc same unfolding t ctx_inv_def
    by (cases "sg_ctx s") (auto simp: signal_inv_def ctx_inv_def cancel_cause_def)
  then show ?thesis
    using assms(1) pc Cancelling unfolding t
    by (auto simp: signal_inv_def pc_inv_def escalation_inv_def closed_when_def)
next
  case CloseEscalation
  with assms show ?thesis by (auto simp: signals_run_def signal_inv_def pc_inv_def same_history escalation_inv_def closed_when_def)
next
  case CloseDone
  with assms show ?thesis by (auto simp: signals_run_def signal_inv_def pc_inv_def same_history escalation_inv_def closed_when_def)
qed (use assms in \<open>auto simp: signals_run_def\<close>)

lemma signal_inv_move: "signal_move s t \<Longrightarrow> signal_inv s \<Longrightarrow> signal_inv t"
proof (induction rule: signal_move.induct)
  case (runs s t)
  then show ?case using signal_inv_run by blast
qed (auto simp: signal_invs section_defs)

lemma signal_inv_step: "signal_step s t \<Longrightarrow> signal_inv s \<Longrightarrow> signal_inv t"
proof (induction rule: signal_step.induct)
  case (moves s t)
  then show ?case by (rule signal_inv_move)
next
  case (parent_ends s e c)
  then show ?case by (cases "sg_pc s") (auto simp: signal_invs section_defs)
next
  case (propagates s e c)
  then show ?case by (cases "sg_pc s") (auto simp: signal_invs section_defs)
next
  case (registers s callback)
  then show ?case by (cases "sg_pc s") (auto simp: signal_invs section_defs)
next
  case (stop_called s)
  then show ?case by (cases "sg_pc s") (auto simp: signal_invs section_defs)
next
  case (stop_returns s)
  then show ?case by (cases "sg_pc s") (auto simp: signal_invs section_defs)
qed (auto simp: signal_invs section_defs split: option.splits)

interpretation command_signals: safe_system signal_init signal_step signal_inv
proof unfold_locales
  show "signal_inv s" if "signal_init s" for s
    using that by (simp add: signal_init_def coordinateCommandSignals_def signal_inv_def pc_inv_def ctx_inv_def
        escalation_inv_def closed_when_def)
qed (rule signal_inv_step)

subsection \<open>The goroutine ends once it is stopped\<close>

fun pc_left :: "signal_pc \<Rightarrow> nat" where
  "pc_left WaitFirst = 7"
| "pc_left (RunBefore _ _) = 6"
| "pc_left (Callback _ _ _) = 5"
| "pc_left (Cancelling _ _) = 4"
| "pc_left WaitSecond = 3"
| "pc_left CloseEscalation = 2"
| "pc_left CloseDone = 1"
| "pc_left Ended = 0"

lemma goroutine_moves:
  assumes "sg_stop s = ChanClosed" and "sg_pc s \<noteq> Ended"
  shows "\<exists>t. signal_move s t"
proof (cases "sg_pc s")
  case WaitFirst
  then show ?thesis using stop_first assms(1) by blast
next
  case WaitSecond
  then show ?thesis using stop_second assms(1) by blast
next
  case Ended
  then show ?thesis using assms(2) by simp
qed (auto simp: signals_run_def intro!: exI runs)

lemma signals_run_left:
  "signals_run s = Some t \<Longrightarrow> pc_left (sg_pc t) < pc_left (sg_pc s) \<and> sg_stop t = sg_stop s \<and> sg_stopOnce t = sg_stopOnce s"
  by (auto simp: signals_run_def split: signal_pc.splits)

lemma move_left:
  "signal_move s t \<Longrightarrow> pc_left (sg_pc t) < pc_left (sg_pc s) \<and> sg_stop t = sg_stop s \<and> sg_stopOnce t = sg_stopOnce s"
  by (induction rule: signal_move.induct) (auto dest: signals_run_left)

lemma step_left: "signal_step s t \<Longrightarrow> pc_left (sg_pc t) \<le> pc_left (sg_pc s)"
  by (induction rule: signal_step.induct) (auto simp: section_defs split: option.splits dest: move_left)

lemma moves_are_steps: "signal_move\<^sup>*\<^sup>* s t \<Longrightarrow> signal_step\<^sup>*\<^sup>* s t"
  by (induction rule: rtranclp_induct) (auto dest: moves intro: rtranclp.rtrancl_into_rtrancl)

lemma goroutine_ends:
  assumes "sg_stop s = ChanClosed"
  shows "\<exists>t. signal_move\<^sup>*\<^sup>* s t \<and> sg_pc t = Ended \<and> sg_stopOnce t = sg_stopOnce s"
  using assms
proof (induction "pc_left (sg_pc s)" arbitrary: s rule: less_induct)
  case less
  show ?case
  proof (cases "sg_pc s = Ended")
    case False
    then obtain t where t: "signal_move s t" using goroutine_moves[OF less.prems] by blast
    then obtain u where "signal_move\<^sup>*\<^sup>* t u" "sg_pc u = Ended" "sg_stopOnce u = sg_stopOnce t"
      using less.hyps[of t] less.prems move_left[OF t] by auto
    with t show ?thesis by (metis converse_rtranclp_into_rtranclp move_left)
  qed blast
qed

text \<open>C29. \<^bold>\<open>The first signal cancels the command after the drain callback ran, a later one escalates, and
  \<^verbatim>\<open>stop\<close> ends the goroutine without any further signal.\<close> In every interleaving: when the command's context has ended,
  the parent has not and \<^verbatim>\<open>stop\<close> has not returned, the registered callback ran before, and the cause
  is the first signal taken (or \<^verbatim>\<open>ErrSignal\<close> when the channel was closed); what is escalated is at most
  one signal, the one taken after the cancellation; no channel is closed twice. Once \<^verbatim>\<open>stop\<close> is called
  the goroutine, as long as it has not ended, has a move of its own that needs no signal
  (\<open>signal_move\<close> has no reception), each such move brings it closer to its end by the measure
  \<open>pc_left\<close> of at most 7, no step of anybody ever takes it away from its end, and its moves alone lead to the
  state in which \<^verbatim>\<open>stop\<close> returns.\<close>

theorem signals_drain_then_cancel:
  assumes "reachable signal_init signal_step s"
  shows "(sg_ctx s \<noteq> CtxActive \<longrightarrow> sg_parent s = CtxActive \<longrightarrow> \<not> sg_released s \<longrightarrow>
      (\<forall>c. sg_before s = Some c \<longrightarrow> c \<in> set (sg_called s)) \<and> ctx_err (sg_ctx s) = Sentinel Canceled \<and>
      (case sg_first s of None \<Rightarrow> ctx_cause (sg_ctx s) = Sentinel ErrSignal
       | Some sig \<Rightarrow> \<exists>a. ctx_cause (sg_ctx s) = SignalError a sig)) \<and>
    (sg_escalated s = (case sg_second s of None \<Rightarrow> [] | Some sig \<Rightarrow> [sig])) \<and>
    (sg_escalation s \<noteq> ChanPanic \<and> sg_stop s \<noteq> ChanPanic \<and> sg_done s \<noteq> ChanPanic) \<and>
    (sg_stopOnce s \<longrightarrow> sg_pc s \<noteq> Ended \<longrightarrow> (\<exists>t. signal_move s t)) \<and>
    (\<forall>t. signal_move s t \<longrightarrow> pc_left (sg_pc t) < pc_left (sg_pc s) \<and> signal_step s t) \<and>
    (\<forall>t. signal_step s t \<longrightarrow> pc_left (sg_pc t) \<le> pc_left (sg_pc s)) \<and>
    (sg_stopOnce s \<longrightarrow> (\<exists>t. signal_move\<^sup>*\<^sup>* s t \<and> sg_done t = ChanClosed \<and> signal_step t (signals_stopped t)))"
proof -
  have inv: "signal_inv s" using assms by (rule command_signals.reachable_inv)
  have c1: "(\<forall>c. sg_before s = Some c \<longrightarrow> c \<in> set (sg_called s)) \<and> ctx_err (sg_ctx s) = Sentinel Canceled \<and>
      (case sg_first s of None \<Rightarrow> ctx_cause (sg_ctx s) = Sentinel ErrSignal
       | Some sig \<Rightarrow> \<exists>a. ctx_cause (sg_ctx s) = SignalError a sig)"
    if ended: "sg_ctx s \<noteq> CtxActive" "sg_parent s = CtxActive" "\<not> sg_released s"
  proof -
    obtain cause where "called_back s" "sg_ctx s = CtxDone (Sentinel Canceled) cause" "carries s cause"
      using inv ended by (auto simp: signal_inv_def ctx_inv_def)
    then show ?thesis by (auto simp: called_back_def carries_def split: option.splits)
  qed
  have c2: "sg_escalated s = (case sg_second s of None \<Rightarrow> [] | Some sig \<Rightarrow> [sig])"
    using inv by (simp add: signal_inv_def escalation_inv_def)
  have c3: "sg_escalation s \<noteq> ChanPanic \<and> sg_stop s \<noteq> ChanPanic \<and> sg_done s \<noteq> ChanPanic"
    using inv by (simp add: signal_inv_def closed_when_def)
  have c4: "\<exists>t. signal_move\<^sup>*\<^sup>* s t \<and> sg_done t = ChanClosed \<and> signal_step t (signals_stopped t)"
    and c5: "sg_pc s \<noteq> Ended \<longrightarrow> (\<exists>t. signal_move s t)" if stopped: "sg_stopOnce s"
  proof -
    have closed: "sg_stop s = ChanClosed" using inv stopped by (simp add: signal_inv_def closed_when_def)
    then obtain t where t: "signal_move\<^sup>*\<^sup>* s t" "sg_pc t = Ended" "sg_stopOnce t" using goroutine_ends stopped by blast
    then have "sg_done t = ChanClosed"
      using command_signals.reachable_steps_inv[OF inv moves_are_steps] by (simp add: signal_inv_def closed_when_def)
    with t show "\<exists>t. signal_move\<^sup>*\<^sup>* s t \<and> sg_done t = ChanClosed \<and> signal_step t (signals_stopped t)"
      using stop_returns by blast
    show "sg_pc s \<noteq> Ended \<longrightarrow> (\<exists>t. signal_move s t)" using goroutine_moves[OF closed] by blast
  qed
  show ?thesis using c1 c2 c3 c4 c5 move_left moves step_left by meson
qed

theorem signals_drain_then_cancel_witness:
  "\<exists>s. reachable signal_init signal_step s \<and> sg_ctx s = CtxDone (Sentinel Canceled) (SignalError 1 Interrupt) \<and>
     sg_before s = Some 9 \<and> 9 \<in> set (sg_called s)"
proof -
  let ?s0 = coordinateCommandSignals
  let ?s1 = "signals_beforeCancel (Some 9) ?s0"
  let ?s2 = "first_signal 1 (Some Interrupt) ?s1"
  let ?s3 = "the (signals_run ?s2)"
  let ?s4 = "the (signals_run ?s3)"
  let ?s5 = "the (signals_run ?s4)"
  note evals = coordinateCommandSignals_def signals_beforeCancel_def first_signal_def signals_run_def cancel_cause_def
  have "reachable signal_init signal_step ?s0" by (rule reachable_init) (simp add: signal_init_def)
  moreover have "signal_step ?s0 ?s1" by (rule registers)
  moreover have "signal_step ?s1 ?s2" by (rule takes_first) (simp add: evals)
  moreover have "signal_step ?s2 ?s3" by (rule moves, rule runs) (simp add: evals)
  moreover have "signal_step ?s3 ?s4" by (rule moves, rule runs) (simp add: evals)
  moreover have "signal_step ?s4 ?s5" by (rule moves, rule runs) (simp add: evals)
  ultimately have reach: "reachable signal_init signal_step ?s5" by (meson reachable_step)
  have "sg_ctx ?s5 = CtxDone (Sentinel Canceled) (SignalError 1 Interrupt)" "sg_parent ?s5 = CtxActive" "\<not> sg_released ?s5"
    "sg_before ?s5 = Some 9" by (simp_all add: evals)
  with signals_drain_then_cancel[OF reach] reach show ?thesis by (intro exI[of _ ?s5]) simp
qed

end
