(* ===== verification/Observability.thy ===== *)
theory Observability
  imports Plan Http_Handlers
begin

section \<open>Runtime observability\<close>

text \<open>
  Models \<^verbatim>\<open>observability.go\<close>. A logger is the list of attributes bound to it, nil is \<open>None\<close>; an observer
  is the reaction of its callback to an event, which may be a panic. Operations return what they
  emit: log records and the events handed to the observer. The correlation package is an argument:
  the values a context carries and the attributes its log adapter makes of them, or its error.
  Contexts are identities; clock readings are arguments.
\<close>

subsection \<open>Events\<close>

datatype runtime_event_kind =
    RuntimeEventStartup | RuntimeEventConstruction | RuntimeEventReadiness | RuntimeEventDrain
  | RuntimeEventShutdown | RuntimeEventTask | RuntimeEventComponentStart | RuntimeEventComponentStop
  | RuntimeEventProbe | RuntimeEventMaintenance | RuntimeEventRequest

fun kind_string :: "runtime_event_kind \<Rightarrow> string" where
  "kind_string RuntimeEventStartup = ''startup''"
| "kind_string RuntimeEventConstruction = ''construction''"
| "kind_string RuntimeEventReadiness = ''readiness''"
| "kind_string RuntimeEventDrain = ''drain''"
| "kind_string RuntimeEventShutdown = ''shutdown''"
| "kind_string RuntimeEventTask = ''task''"
| "kind_string RuntimeEventComponentStart = ''component-start''"
| "kind_string RuntimeEventComponentStop = ''component-stop''"
| "kind_string RuntimeEventProbe = ''probe''"
| "kind_string RuntimeEventMaintenance = ''maintenance''"
| "kind_string RuntimeEventRequest = ''request''"

datatype runtime_event_result =
    RuntimeResultStarted | RuntimeResultSucceeded | RuntimeResultFailed
  | RuntimeResultAvailable | RuntimeResultUnavailable

fun result_string :: "runtime_event_result \<Rightarrow> string" where
  "result_string RuntimeResultStarted = ''started''"
| "result_string RuntimeResultSucceeded = ''succeeded''"
| "result_string RuntimeResultFailed = ''failed''"
| "result_string RuntimeResultAvailable = ''available''"
| "result_string RuntimeResultUnavailable = ''unavailable''"

record process_identity = identity +
  id_Role :: string

record runtime_event =
  ev_Kind :: runtime_event_kind
  ev_Result :: runtime_event_result
  ev_Identity :: process_identity
  ev_Boundary :: string
  ev_Duration :: duration
  ev_Transition :: bool
  ev_Method :: string
  ev_Status :: nat
  ev_At :: go_time

datatype log_value = LogString string | LogDuration duration | LogBool bool | LogInt nat

type_synonym log_attrs = "(string \<times> log_value) list"

datatype log_level = LevelInfo | LevelError

datatype emission = Logged log_level string log_attrs | Observed runtime_event

subsection \<open>State and construction\<close>

record correlation_package =
  FromContext :: "nat \<Rightarrow> nat option"
  Attrs :: "nat \<Rightarrow> nat \<Rightarrow> log_attrs option"

record runtime_observability =
  ob_identity :: process_identity
  ob_identityLogger :: "log_attrs option"
  ob_logger :: "log_attrs option"
  ob_observer :: "(runtime_event \<Rightarrow> panic_value option) option"
  ob_disclosure :: nat
  ob_ready :: bool
  ob_draining :: bool
  ob_probes :: "string \<Rightarrow> bool option"

definition appendValue :: "string \<Rightarrow> string \<Rightarrow> log_attrs \<Rightarrow> log_attrs" where
  "appendValue key value attributes = (if value \<noteq> [] then attributes @ [(key, LogString value)] else attributes)"

definition identityLogAttributes :: "process_identity \<Rightarrow> log_attrs" where
  "identityLogAttributes identity =
     (appendValue ''process.role'' (id_Role identity) \<circ>
      appendValue ''service.instance.id'' (id_Instance identity) \<circ>
      appendValue ''deployment.environment'' (id_Environment identity) \<circ>
      appendValue ''service.go_version'' (id_GoVersion identity) \<circ>
      appendValue ''service.build_time'' (id_BuildTime identity) \<circ>
      appendValue ''service.commit'' (id_Commit identity) \<circ>
      appendValue ''service.version'' (id_Version identity) \<circ>
      appendValue ''service.name'' (id_Name identity)) []"

definition correlated_attrs :: "correlation_package \<Rightarrow> nat \<Rightarrow> nat \<Rightarrow> log_attrs" where
  "correlated_attrs pkg disclosure ctx =
     (case FromContext pkg ctx of
        None \<Rightarrow> []
      | Some values \<Rightarrow> (case Attrs pkg values disclosure of None \<Rightarrow> [] | Some attributes \<Rightarrow> attributes))"

definition newRuntimeObservability ::
    "correlation_package \<Rightarrow> nat \<Rightarrow> process_identity \<Rightarrow> log_attrs option \<Rightarrow>
     (runtime_event \<Rightarrow> panic_value option) option \<Rightarrow> nat \<Rightarrow> runtime_observability option" where
  "newRuntimeObservability pkg ctx identity logger observer disclosure =
     (if logger = None \<and> observer = None then None
      else
        let identityLogger = map_option (\<lambda>bound. bound @ identityLogAttributes identity) logger;
            logger = map_option (\<lambda>bound. bound @ correlated_attrs pkg disclosure ctx) identityLogger
        in Some \<lparr>ob_identity = identity, ob_identityLogger = identityLogger, ob_logger = logger,
             ob_observer = observer, ob_disclosure = disclosure, ob_ready = False, ob_draining = False,
             ob_probes = Map.empty\<rparr>)"

definition firstObservability :: "runtime_observability option list \<Rightarrow> runtime_observability option" where
  "firstObservability values = (case values of [] \<Rightarrow> None | v # _ \<Rightarrow> v)"

subsection \<open>Publishing\<close>

text \<open>
  The logger of a context: a nil logger stays nil, and an identity logger gets the correlation
  attributes when the context carries values the adapter accepts.
\<close>

definition loggerForContext :: "correlation_package \<Rightarrow> runtime_observability \<Rightarrow> nat \<Rightarrow> log_attrs option" where
  "loggerForContext pkg ob ctx =
     (case ob_identityLogger ob of
        None \<Rightarrow> None
      | Some bound \<Rightarrow> Some (bound @ correlated_attrs pkg (ob_disclosure ob) ctx))"

text \<open>The observer call; its panic is recovered and reported when there is a logger.\<close>

definition observe :: "runtime_observability \<Rightarrow> (runtime_event \<Rightarrow> panic_value option) \<Rightarrow> runtime_event \<Rightarrow> emission list" where
  "observe ob observer event =
     Observed event #
     (case observer event of
        None \<Rightarrow> []
      | Some _ \<Rightarrow>
          (case ob_logger ob of
             None \<Rightarrow> []
           | Some bound \<Rightarrow> [Logged LevelError ''service runtime observer failed''
               (bound @ [(''event.kind'', LogString (kind_string (ev_Kind event))),
                         (''error.kind'', LogString ''observer-panic'')])]))"

definition observed_by :: "runtime_observability \<Rightarrow> runtime_event \<Rightarrow> emission list" where
  "observed_by ob event = (case ob_observer ob of None \<Rightarrow> [] | Some observer \<Rightarrow> observe ob observer event)"

definition event_level :: "runtime_event_result \<Rightarrow> log_level" where
  "event_level result =
     (if result = RuntimeResultFailed \<or> result = RuntimeResultUnavailable then LevelError else LevelInfo)"

definition event_attrs :: "runtime_event \<Rightarrow> log_attrs" where
  "event_attrs event =
     [(''event.kind'', LogString (kind_string (ev_Kind event))),
      (''event.result'', LogString (result_string (ev_Result event)))] @
     (if ev_Boundary event \<noteq> [] then [(''event.boundary'', LogString (ev_Boundary event))] else []) @
     (if 0 < ev_Duration event then [(''event.duration'', LogDuration (ev_Duration event))] else []) @
     (if ev_Transition event then [(''event.transition'', LogBool True)] else [])"

definition publish ::
    "correlation_package \<Rightarrow> runtime_observability option \<Rightarrow> nat \<Rightarrow> go_time \<Rightarrow> runtime_event_kind \<Rightarrow> runtime_event_result \<Rightarrow>
     string \<Rightarrow> duration \<Rightarrow> bool \<Rightarrow> bool \<Rightarrow> emission list" where
  "publish pkg observability ctx now kind result boundary duration transition writeLog =
     (case observability of
        None \<Rightarrow> []
      | Some ob \<Rightarrow>
          let event = \<lparr>ev_Kind = kind, ev_Result = result, ev_Identity = ob_identity ob, ev_Boundary = boundary,
                ev_Duration = duration, ev_Transition = transition, ev_Method = [], ev_Status = 0, ev_At = now\<rparr>
          in (case loggerForContext pkg ob ctx of
                Some bound \<Rightarrow>
                  (if writeLog then [Logged (event_level result) ''service runtime event'' (bound @ event_attrs event)] else [])
              | None \<Rightarrow> []) @
             observed_by ob event)"

definition event ::
    "correlation_package \<Rightarrow> runtime_observability option \<Rightarrow> nat \<Rightarrow> go_time \<Rightarrow> runtime_event_kind \<Rightarrow> runtime_event_result \<Rightarrow>
     string \<Rightarrow> duration \<Rightarrow> bool \<Rightarrow> emission list" where
  "event pkg observability ctx now kind result boundary duration transition =
     publish pkg observability ctx now kind result boundary duration transition True"

subsection \<open>Requests\<close>

record observed_response_writer =
  ow_ResponseWriter :: http_writer
  ow_status :: nat
  ow_wroteHeader :: bool

definition observed_writer :: "http_writer \<Rightarrow> observed_response_writer" where
  "observed_writer w = \<lparr>ow_ResponseWriter = w, ow_status = 200, ow_wroteHeader = False\<rparr>"

definition observed_WriteHeader :: "nat \<Rightarrow> observed_response_writer \<Rightarrow> observed_response_writer" where
  "observed_WriteHeader code t =
     (if ow_wroteHeader t then t
      else t\<lparr>ow_wroteHeader := True, ow_status := code, ow_ResponseWriter := http_WriteHeader code (ow_ResponseWriter t)\<rparr>)"

definition observed_Write :: "string \<Rightarrow> observed_response_writer \<Rightarrow> observed_response_writer" where
  "observed_Write body t =
     (let t = (if \<not> ow_wroteHeader t then observed_WriteHeader 200 t else t)
      in t\<lparr>ow_ResponseWriter := http_Write body (ow_ResponseWriter t)\<rparr>)"

text \<open>\<^verbatim>\<open>Unwrap\<close> is how a flush and the header map reach the wrapped writer.\<close>

definition observed_Unwrap :: "(http_writer \<Rightarrow> http_writer) \<Rightarrow> observed_response_writer \<Rightarrow> observed_response_writer" where
  "observed_Unwrap f t = t\<lparr>ow_ResponseWriter := f (ow_ResponseWriter t)\<rparr>"

primrec observed_respond ::
    "response_program \<Rightarrow> observed_response_writer \<Rightarrow> observed_response_writer \<times> panic_value option" where
  "observed_respond Return t = (t, None)"
| "observed_respond (Panics v) t = (t, Some v)"
| "observed_respond (EditHeader f p) t = observed_respond p (observed_Unwrap (\<lambda>w. w\<lparr>hw_header := f (hw_header w)\<rparr>) t)"
| "observed_respond (ReadHeader p) t = observed_respond (p (hw_header (ow_ResponseWriter t))) t"
| "observed_respond (SendHeader code p) t = observed_respond p (observed_WriteHeader code t)"
| "observed_respond (SendBody text p) t = observed_respond p (observed_Write text t)"
| "observed_respond (FlushResponse p) t = observed_respond p (observed_Unwrap http_Flush t)"

definition boundedHTTPMethod :: "string \<Rightarrow> string" where
  "boundedHTTPMethod method_name =
     (if method_name \<in> {''GET'', ''HEAD'', ''POST'', ''PUT'', ''PATCH'', ''DELETE'', ''CONNECT'', ''OPTIONS'', ''TRACE''}
      then method_name else ''OTHER'')"

definition finishRequest ::
    "correlation_package \<Rightarrow> runtime_observability \<Rightarrow> nat \<Rightarrow> go_time \<Rightarrow> http_request \<Rightarrow> nat \<Rightarrow> duration \<Rightarrow> bool \<Rightarrow> emission list" where
  "finishRequest pkg ob ctx now request status duration panicked =
     (let result = (if panicked \<or> 500 \<le> status then RuntimeResultFailed else RuntimeResultSucceeded);
          event = \<lparr>ev_Kind = RuntimeEventRequest, ev_Result = result, ev_Identity = ob_identity ob, ev_Boundary = [],
            ev_Duration = duration, ev_Transition = False, ev_Method = boundedHTTPMethod (req_Method request),
            ev_Status = status, ev_At = now\<rparr>
      in (case loggerForContext pkg ob ctx of
            None \<Rightarrow> []
          | Some bound \<Rightarrow>
              [Logged (if result = RuntimeResultFailed then LevelError else LevelInfo) ''service HTTP request''
                 (bound @ [(''event.kind'', LogString (kind_string (ev_Kind event))),
                           (''event.result'', LogString (result_string (ev_Result event))),
                           (''http.request.method'', LogString (ev_Method event)),
                           (''http.response.status_code'', LogInt (ev_Status event)),
                           (''event.duration'', LogDuration (ev_Duration event))])]) @
         observed_by ob event)"

text \<open>The middleware: the run of the next handler on the tracked writer, then the report; a panic goes on.\<close>

definition reported_status :: "observed_response_writer \<Rightarrow> panic_value option \<Rightarrow> nat" where
  "reported_status t panicked = (if panicked \<noteq> None \<and> \<not> ow_wroteHeader t then 500 else ow_status t)"

definition observe_request ::
    "correlation_package \<Rightarrow> runtime_observability \<Rightarrow> nat \<Rightarrow> go_time \<Rightarrow> duration \<Rightarrow> handler \<Rightarrow> http_request \<Rightarrow> http_writer \<Rightarrow>
     http_writer \<times> panic_value option \<times> emission list" where
  "observe_request pkg ob ctx now duration next r w =
     (let (t, panicked) = observed_respond (next r) (observed_writer w)
      in (ow_ResponseWriter t, panicked,
          finishRequest pkg ob ctx now r (reported_status t panicked) duration (panicked \<noteq> None)))"

text \<open>The same middleware as what the outer handlers see of it: a program on their writer.\<close>

primrec observing :: "bool \<Rightarrow> response_program \<Rightarrow> response_program" where
  "observing wrote Return = Return"
| "observing wrote (Panics v) = Panics v"
| "observing wrote (EditHeader f p) = EditHeader f (observing wrote p)"
| "observing wrote (ReadHeader p) = ReadHeader (\<lambda>h. observing wrote (p h))"
| "observing wrote (SendHeader code p) = (if wrote then observing True p else SendHeader code (observing True p))"
| "observing wrote (SendBody text p) =
     (if wrote then SendBody text (observing True p) else SendHeader 200 (SendBody text (observing True p)))"
| "observing wrote (FlushResponse p) = FlushResponse (observing wrote p)"

definition request_middleware :: middleware where
  "request_middleware next = Some (\<lambda>r. observing False (the next r))"

subsection \<open>Probes, readiness and shutdown\<close>

text \<open>The section under \<^verbatim>\<open>probeMu\<close>, and whether the result is a transition.\<close>

definition probe_section :: "string \<Rightarrow> bool \<Rightarrow> runtime_observability \<Rightarrow> runtime_observability \<times> bool" where
  "probe_section name available ob =
     (let transition = (case ob_probes ob name of None \<Rightarrow> True | Some previous \<Rightarrow> previous \<noteq> available)
      in (ob\<lparr>ob_probes := (ob_probes ob)(name \<mapsto> available)\<rparr>, transition))"

definition probe ::
    "correlation_package \<Rightarrow> nat \<Rightarrow> go_time \<Rightarrow> string \<Rightarrow> bool \<Rightarrow> duration \<Rightarrow> runtime_observability option \<Rightarrow>
     runtime_observability option \<times> emission list" where
  "probe pkg ctx now name available duration observability =
     (case observability of
        None \<Rightarrow> (None, [])
      | Some ob \<Rightarrow>
          let (ob, transition) = probe_section name available ob;
              result = (if available then RuntimeResultAvailable else RuntimeResultUnavailable)
          in (Some ob, publish pkg (Some ob) ctx now RuntimeEventProbe result name duration transition transition))"

definition markReady ::
    "correlation_package \<Rightarrow> nat \<Rightarrow> go_time \<Rightarrow> runtime_observability option \<Rightarrow> runtime_observability option \<times> emission list" where
  "markReady pkg ctx now observability =
     (case observability of
        None \<Rightarrow> (None, [])
      | Some ob \<Rightarrow>
          if ob_ready ob then (Some ob, [])
          else let ob = ob\<lparr>ob_ready := True\<rparr>
               in (Some ob, event pkg (Some ob) ctx now RuntimeEventReadiness RuntimeResultAvailable [] 0 True))"

definition beginDrain ::
    "correlation_package \<Rightarrow> nat \<Rightarrow> go_time \<Rightarrow> go_time \<Rightarrow> runtime_observability option \<Rightarrow> runtime_observability option \<times> emission list" where
  "beginDrain pkg ctx now later observability =
     (case observability of
        None \<Rightarrow> (None, [])
      | Some ob \<Rightarrow>
          if ob_draining ob then (Some ob, [])
          else
            let was_ready = ob_ready ob;
                ob = ob\<lparr>ob_draining := True, ob_ready := False\<rparr>
            in (Some ob,
                (if was_ready then event pkg (Some ob) ctx now RuntimeEventReadiness RuntimeResultUnavailable [] 0 True else []) @
                event pkg (Some ob) ctx later RuntimeEventDrain RuntimeResultStarted [] 0 True))"

definition finishShutdown ::
    "correlation_package \<Rightarrow> nat \<Rightarrow> go_time \<Rightarrow> duration \<Rightarrow> go_error \<Rightarrow> runtime_observability option \<Rightarrow> emission list" where
  "finishShutdown pkg ctx now duration err observability =
     event pkg observability ctx now RuntimeEventShutdown
       (if err \<noteq> NilErr then RuntimeResultFailed else RuntimeResultSucceeded) [] duration True"

subsection \<open>Components\<close>

text \<open>
  A component with its callbacks: what a callback emits and how it ends, for each context. The
  lifecycle sees which callbacks are present.
\<close>

type_synonym operation = "nat \<Rightarrow> emission list \<times> outcome"

record hooked_component =
  hk_Name :: string
  hk_CloseAdmission :: bool
  hk_Start :: "operation option"
  hk_Stop :: "operation option"

definition lifecycle_component :: "hooked_component \<Rightarrow> component" where
  "lifecycle_component c =
     \<lparr>Name = hk_Name c, CloseAdmission = hk_CloseAdmission c, StartHook = (hk_Start c \<noteq> None), StopHook = (hk_Stop c \<noteq> None)\<rparr>"

definition operation_result :: "outcome \<Rightarrow> runtime_event_result" where
  "operation_result result = (case result of
     Panicked _ \<Rightarrow> RuntimeResultFailed
   | Returned err \<Rightarrow> (if err \<noteq> NilErr then RuntimeResultFailed else RuntimeResultSucceeded))"

text \<open>\<open>readings\<close> are the clock at the two events and the measured duration.\<close>

definition observeComponentOperation ::
    "correlation_package \<Rightarrow> go_time \<times> go_time \<times> duration \<Rightarrow> string \<Rightarrow> runtime_event_kind \<Rightarrow> operation \<Rightarrow>
     runtime_observability option \<Rightarrow> operation" where
  "observeComponentOperation pkg readings name kind operation observability ctx =
     (case readings of (now, later, duration) \<Rightarrow>
        let before = event pkg observability ctx now kind RuntimeResultStarted name 0 False;
            (during, result) = operation ctx;
            after = event pkg observability ctx later kind (operation_result result) name duration False
        in (before @ during @ after, result))"

definition observeComponents ::
    "correlation_package \<Rightarrow> go_time \<times> go_time \<times> duration \<Rightarrow> hooked_component list \<Rightarrow> runtime_observability option \<Rightarrow>
     hooked_component list" where
  "observeComponents pkg readings cs observability =
     (case observability of
        None \<Rightarrow> cs
      | Some _ \<Rightarrow>
          map (\<lambda>c. c\<lparr>
            hk_Start := map_option (\<lambda>op. observeComponentOperation pkg readings (hk_Name c) RuntimeEventComponentStart op observability) (hk_Start c),
            hk_Stop := map_option (\<lambda>op. observeComponentOperation pkg readings (hk_Name c) RuntimeEventComponentStop op observability) (hk_Stop c)\<rparr>) cs)"

subsection \<open>What a request report says\<close>

lemma bounded_method:
  "boundedHTTPMethod m \<in> {''GET'', ''HEAD'', ''POST'', ''PUT'', ''PATCH'', ''DELETE'', ''CONNECT'', ''OPTIONS'', ''TRACE'', ''OTHER''}"
  unfolding boundedHTTPMethod_def by (cases "m \<in> {''GET'', ''HEAD'', ''POST'', ''PUT'', ''PATCH'', ''DELETE'', ''CONNECT'', ''OPTIONS'', ''TRACE''}") auto

lemmas observed_defs = observed_WriteHeader_def observed_Write_def observed_Unwrap_def

interpretation observed_status: status_recorder
  "\<lambda>t. if ow_wroteHeader t then Some (ow_status t) else None" observed_WriteHeader observed_Write "observed_Unwrap http_Flush"
  by unfold_locales (auto simp: observed_defs Let_def split: if_splits)

text \<open>The handlers outside see the program \<open>observing\<close> makes of the handler's.\<close>

lemma observing_run:
  "respond (observing (ow_wroteHeader t) p) (ow_ResponseWriter t) =
     (ow_ResponseWriter (fst (observed_respond p t)), snd (observed_respond p t))"
proof (induction p arbitrary: t)
  case (EditHeader f p)
  show ?case using EditHeader.IH[of "observed_Unwrap (\<lambda>w. w\<lparr>hw_header := f (hw_header w)\<rparr>) t"]
    by (simp add: observed_Unwrap_def)
next
  case (SendHeader code p)
  show ?case using SendHeader.IH[of "observed_WriteHeader code t"]
    by (simp add: observed_WriteHeader_def split: if_splits)
next
  case (SendBody bytes p)
  show ?case using SendBody.IH[of "observed_Write bytes t"]
    by (simp add: observed_defs Let_def split: if_splits)
next
  case (FlushResponse p)
  show ?case using FlushResponse.IH[of "observed_Unwrap http_Flush t"] by (simp add: observed_Unwrap_def)
qed simp_all

text \<open>For plain programs the tracked fields agree with the wrapped writer.\<close>

definition tracks :: "observed_response_writer \<Rightarrow> bool" where
  "tracks t \<longleftrightarrow> hw_status (ow_ResponseWriter t) = (if ow_wroteHeader t then Some (ow_status t) else None) \<and>
     (\<not> ow_wroteHeader t \<longrightarrow> ow_status t = 200)"

lemma tracks_steps:
  assumes "tracks t"
  shows "tracks (observed_Write bytes t)"
    and "\<not> informational code \<Longrightarrow> tracks (observed_WriteHeader code t)"
    and "tracks (observed_Unwrap (\<lambda>w. w\<lparr>hw_header := f (hw_header w)\<rparr>) t)"
    and "ow_ResponseWriter (observed_Write bytes t) = http_Write bytes (ow_ResponseWriter t)"
    and "ow_ResponseWriter (observed_WriteHeader code t) = http_WriteHeader code (ow_ResponseWriter t)"
    and "ow_ResponseWriter (observed_Unwrap (\<lambda>w. w\<lparr>hw_header := f (hw_header w)\<rparr>) t) =
      (ow_ResponseWriter t)\<lparr>hw_header := f (hw_header (ow_ResponseWriter t))\<rparr>"
  using assms by (auto simp: tracks_def observed_defs writer_defs informational_def)

lemma plain_observed:
  "plain p (ow_ResponseWriter t) \<Longrightarrow> tracks t \<Longrightarrow>
     tracks (fst (observed_respond p t)) \<and>
     respond p (ow_ResponseWriter t) = (ow_ResponseWriter (fst (observed_respond p t)), snd (observed_respond p t))"
proof (induction p arbitrary: t)
  case (EditHeader f p)
  then show ?case using EditHeader.IH[of "observed_Unwrap (\<lambda>w. w\<lparr>hw_header := f (hw_header w)\<rparr>) t"]
    by (simp add: tracks_steps)
next
  case (SendHeader code p)
  then show ?case using SendHeader.IH[of "observed_WriteHeader code t"] by (simp add: tracks_steps)
next
  case (SendBody bytes p)
  then show ?case using SendBody.IH[of "observed_Write bytes t"] by (simp add: tracks_steps)
qed simp_all

lemma tracks_start: "hw_status w = None \<Longrightarrow> tracks (observed_writer w)"
  by (simp add: tracks_def observed_writer_def)

lemma observing_wrote: "wrote_header (observing False p) w \<longleftrightarrow> wrote_header p w"
  by (induction p arbitrary: w) simp_all

lemma finished_status:
  assumes "tracks t" and "snd (observed_respond p (observed_writer w)) = panicked"
    and "fst (observed_respond p (observed_writer w)) = t"
    and "plain p w" and "hw_status w = None"
  shows "hw_status (http_finish (fst (respond (recovering names False p) w))) = Some (reported_status t panicked)"
proof -
  have run: "respond p w = (ow_ResponseWriter t, panicked)"
    using plain_observed[OF _ tracks_start[OF assms(5)]] assms(2-4) by (simp add: observed_writer_def)
  have wrote: "wrote_header p w \<longleftrightarrow> ow_wroteHeader t"
    using plain_tracked[OF assms(4,5)] assms(1) run by (simp add: tracks_def)
  show ?thesis
  proof (cases panicked)
    case None
    then show ?thesis using assms(1) run
      by (simp add: recovering_run reported_status_def http_finish_def http_WriteHeader_def tracks_def informational_def)
  next
    case (Some v)
    then show ?thesis using assms(1) run wrote recovered_answer_fields(1)[of "ow_ResponseWriter t" names]
      by (auto simp: recovering_run reported_status_def http_finish_def http_WriteHeader_def tracks_def informational_def)
  qed
qed

fun events_of :: "emission list \<Rightarrow> runtime_event list" where
  "events_of [] = []"
| "events_of (Observed e # es) = e # events_of es"
| "events_of (Logged level message attrs # es) = events_of es"

lemma events_of_append [simp]: "events_of (xs @ ys) = events_of xs @ events_of ys"
  by (induction xs rule: events_of.induct) auto

lemma events_of_observed_by [simp]: "events_of (observed_by ob e) = (if ob_observer ob = None then [] else [e])"
  by (auto simp: observed_by_def observe_def split: option.splits)

lemma events_of_finishRequest:
  "events_of (finishRequest pkg ob ctx now r status duration panicked) =
     (if ob_observer ob = None then [] else
       [\<lparr>ev_Kind = RuntimeEventRequest,
         ev_Result = (if panicked \<or> 500 \<le> status then RuntimeResultFailed else RuntimeResultSucceeded),
         ev_Identity = ob_identity ob, ev_Boundary = [], ev_Duration = duration, ev_Transition = False,
         ev_Method = boundedHTTPMethod (req_Method r), ev_Status = status, ev_At = now\<rparr>])"
  by (auto simp: finishRequest_def Let_def split: option.splits)


definition silent_package :: correlation_package where
  "silent_package = \<lparr>FromContext = (\<lambda>_. None), Attrs = (\<lambda>_ _. None)\<rparr>"

definition sample_observability :: runtime_observability where
  "sample_observability = \<lparr>ob_identity = \<lparr>id_Name = ''api'', id_Version = [], id_Commit = [], id_BuildTime = [],
       id_GoVersion = [], id_Environment = [], id_Instance = [], id_Role = ''serve''\<rparr>,
     ob_identityLogger = Some [], ob_logger = Some [], ob_observer = Some (\<lambda>_. None), ob_disclosure = 0,
     ob_ready = False, ob_draining = False, ob_probes = Map.empty\<rparr>"


subsection \<open>Where observation changes the response\<close>

text \<open>\<^bold>\<open>With an observer, a handler that sends an informational status loses its final one.\<close> The tracked
  writer takes any first \<^verbatim>\<open>WriteHeader\<close> for the final one: after an informational status such as 103 it
  drops the handler's final status, so the client gets 200 where the same handler without
  observability answers with its status, and the event reports the informational code.\<close>

theorem observation_drops_final_status:
  assumes "informational early" and "\<not> informational code"
    and "next = (\<lambda>_. SendHeader early (SendHeader code Return))"
    and "observe_request pkg ob ctx now duration next r fresh_writer = (final, panicked, emitted)"
    and "ob_observer ob = Some observer"
  shows "hw_status (http_finish final) = Some 200 \<and>
    hw_status (http_finish (fst (respond (next r) fresh_writer))) = Some code \<and>
    map ev_Status (events_of emitted) = [early]"
  using assms
  by (auto simp: observe_request_def observed_writer_def observed_WriteHeader_def reported_status_def http_finish_def
      http_WriteHeader_def informational_def fresh_writer_def events_of_finishRequest)

theorem observation_drops_final_status_witness:
  "hw_status (http_finish (fst (observe_request silent_package sample_observability 0 9 4
      (\<lambda>_. SendHeader 103 (SendHeader 404 Return))
      \<lparr>req_Method = ''GET'', req_path = ''/'', req_ContentLength = 0, req_Body = ClientBody []\<rparr> fresh_writer))) = Some 200"
proof -
  have "informational 103" "\<not> informational 404" "ob_observer sample_observability = Some (\<lambda>_. None)"
    by (simp_all add: informational_def sample_observability_def)
  then show ?thesis
    using observation_drops_final_status[of 103 404, OF _ _ refl] by (metis prod.collapse)
qed

text \<open>A flush reaches the client past the tracked writer: the event then reports a status never sent.\<close>

lemma observation_misreports_flushed:
  assumes "\<not> informational code" and "ob_observer ob = Some observer"
    and "next = (\<lambda>_. FlushResponse (SendHeader code Return))"
    and "observe_request pkg ob ctx now duration next r fresh_writer = (final, panicked, emitted)"
  shows "hw_status final = Some 200 \<and> map ev_Status (events_of emitted) = [code]"
  using assms
  by (auto simp: observe_request_def observed_writer_def observed_defs reported_status_def writer_defs
      informational_def fresh_writer_def events_of_finishRequest)

subsection \<open>Probe transitions\<close>

type_synonym probe_call = "go_time \<times> string \<times> bool \<times> duration"

text \<open>Probe reports in the order in which they take the mutex.\<close>

fun probe_calls ::
    "correlation_package \<Rightarrow> nat \<Rightarrow> probe_call list \<Rightarrow> runtime_observability option \<Rightarrow> runtime_observability option \<times> emission list" where
  "probe_calls pkg ctx [] ob = (ob, [])"
| "probe_calls pkg ctx ((now, name, available, duration) # reports) ob =
     (let (ob, emitted) = probe pkg ctx now name available duration ob;
          (ob, rest) = probe_calls pkg ctx reports ob
      in (ob, emitted @ rest))"

definition result_of :: "bool \<Rightarrow> runtime_event_result" where
  "result_of available = (if available then RuntimeResultAvailable else RuntimeResultUnavailable)"

lemma result_of_eq [simp]: "result_of a = result_of b \<longleftrightarrow> a = b"
  by (auto simp: result_of_def)

fun reported_for :: "string \<Rightarrow> probe_call list \<Rightarrow> bool list" where
  "reported_for name [] = []"
| "reported_for name ((now, n, available, duration) # reports) =
     (if n = name then available # reported_for name reports else reported_for name reports)"

text \<open>The changes in a sequence of results, after an optional earlier one.\<close>

fun changes :: "bool option \<Rightarrow> bool list \<Rightarrow> bool list" where
  "changes prior [] = []"
| "changes prior (x # xs) = (if prior = Some x then [] else [x]) @ changes (Some x) xs"

lemma remdups_adj_changes: "remdups_adj (x # xs) = x # changes (Some x) xs"
  by (induction xs arbitrary: x) auto

lemma changes_remdups: "changes None xs = remdups_adj xs"
  by (cases xs) (simp_all add: remdups_adj_changes)

lemma events_of_publish:
  "events_of (publish pkg (Some ob) ctx now kind result boundary duration transition writeLog) =
     (if ob_observer ob = None then [] else
       [\<lparr>ev_Kind = kind, ev_Result = result, ev_Identity = ob_identity ob, ev_Boundary = boundary,
         ev_Duration = duration, ev_Transition = transition, ev_Method = [], ev_Status = 0, ev_At = now\<rparr>])"
  by (auto simp: publish_def Let_def split: option.splits)

definition transitions_of :: "string \<Rightarrow> emission list \<Rightarrow> runtime_event_result list" where
  "transitions_of name es = map ev_Result (filter (\<lambda>e. ev_Boundary e = name \<and> ev_Transition e) (events_of es))"

lemma probe_calls_transitions:
  "ob_observer ob \<noteq> None \<Longrightarrow>
     transitions_of name (snd (probe_calls pkg ctx reports (Some ob))) =
     map result_of (changes (ob_probes ob name) (reported_for name reports))"
proof (induction reports arbitrary: ob)
  case (Cons call reports)
  obtain now n available duration where call: "call = (now, n, available, duration)" by (metis prod_cases4)
  show ?case
    using Cons.IH[of "fst (probe_section n available ob)"] Cons.prems
    by (auto simp: call probe_def probe_section_def transitions_of_def events_of_publish result_of_def Let_def
        split: prod.splits option.splits if_splits)
qed (simp add: transitions_of_def)

lemma probe_calls_events:
  "ob_observer ob \<noteq> None \<Longrightarrow>
     map (\<lambda>e. (ev_At e, ev_Boundary e, ev_Result e)) (events_of (snd (probe_calls pkg ctx reports (Some ob)))) =
     map (\<lambda>(now, name, available, duration). (now, name, result_of available)) reports"
proof (induction reports arbitrary: ob)
  case (Cons call reports)
  obtain now n available duration where call: "call = (now, n, available, duration)" by (metis prod_cases4)
  show ?case
    using Cons.IH[of "fst (probe_section n available ob)"] Cons.prems
    by (auto simp: call probe_def probe_section_def events_of_publish result_of_def Let_def split: prod.splits)
qed simp

text \<open>The records of runtime events among the log output.\<close>

fun runtime_logs :: "emission list \<Rightarrow> (log_level \<times> log_attrs) list" where
  "runtime_logs [] = []"
| "runtime_logs (Observed e # es) = runtime_logs es"
| "runtime_logs (Logged level message attrs # es) =
     (if message = ''service runtime event'' then [(level, attrs)] else []) @ runtime_logs es"

lemma runtime_logs_append [simp]: "runtime_logs (xs @ ys) = runtime_logs xs @ runtime_logs ys"
  by (induction xs rule: runtime_logs.induct) auto

lemma runtime_logs_observed_by [simp]: "runtime_logs (observed_by ob e) = []"
  by (auto simp: observed_by_def observe_def split: option.splits)

lemma probe_calls_logs:
  "ob_observer ob \<noteq> None \<Longrightarrow> ob_identityLogger ob = Some bound \<Longrightarrow>
     runtime_logs (snd (probe_calls pkg ctx reports (Some ob))) =
     map (\<lambda>e. (event_level (ev_Result e), bound @ correlated_attrs pkg (ob_disclosure ob) ctx @ event_attrs e))
       (filter ev_Transition (events_of (snd (probe_calls pkg ctx reports (Some ob)))))"
proof (induction reports arbitrary: ob)
  case (Cons call reports)
  obtain now n available duration where call: "call = (now, n, available, duration)" by (metis prod_cases4)
  have keeps: "ob_observer (fst (probe_section n available ob)) = ob_observer ob"
    "ob_identityLogger (fst (probe_section n available ob)) = Some bound"
    "ob_disclosure (fst (probe_section n available ob)) = ob_disclosure ob"
    using Cons.prems by (simp_all add: probe_section_def Let_def)
  show ?case
    using Cons.IH[of "fst (probe_section n available ob)"] Cons.prems keeps
    by (auto simp: call probe_def publish_def loggerForContext_def Let_def split: prod.splits)
qed simp

text \<open>\<^bold>\<open>Probe reports publish exactly the changes as transitions and log exactly the transitions.\<close> For
  every sequence of probe results since the start the observer gets one event for each, in order;
  the events of a probe that are marked as transitions are its results with adjacent repetitions
  removed, the first result included; and the log has one record for each transition and none for a
  repeated result, at error level exactly for an unavailable probe.\<close>

theorem probe_transitions_published:
  assumes "ob_observer ob \<noteq> None" and "ob_probes ob = Map.empty" and "ob_identityLogger ob = Some bound"
    and "emitted = snd (probe_calls pkg ctx reports (Some ob))"
  shows "map (\<lambda>e. (ev_At e, ev_Boundary e, ev_Result e)) (events_of emitted) =
      map (\<lambda>(now, name, available, duration). (now, name, result_of available)) reports \<and>
    transitions_of name emitted = map result_of (remdups_adj (reported_for name reports)) \<and>
    runtime_logs emitted =
      map (\<lambda>e. (event_level (ev_Result e), bound @ correlated_attrs pkg (ob_disclosure ob) ctx @ event_attrs e))
        (filter ev_Transition (events_of emitted))"
  using probe_calls_events[OF assms(1)] probe_calls_transitions[OF assms(1), of name]
    probe_calls_logs[OF assms(1,3)] assms(2,4) by (simp add: changes_remdups)

theorem probe_transitions_published_witness:
  "transitions_of ''readiness'' (snd (probe_calls silent_package 0
      [(1, ''readiness'', False, 5), (2, ''liveness'', True, 5), (3, ''readiness'', False, 5), (4, ''readiness'', True, 5)]
      (Some sample_observability))) = [RuntimeResultUnavailable, RuntimeResultAvailable]"
proof -
  have "ob_observer sample_observability \<noteq> None" "ob_probes sample_observability = Map.empty"
    "ob_identityLogger sample_observability = Some []" by (simp_all add: sample_observability_def)
  from probe_transitions_published[OF this refl, where name = "''readiness''" and pkg = silent_package and ctx = 0
      and reports = "[(1, ''readiness'', False, 5), (2, ''liveness'', True, 5), (3, ''readiness'', False, 5), (4, ''readiness'', True, 5)]"]
  show ?thesis by (simp add: result_of_def del: probe_calls.simps)
qed

subsection \<open>Readiness and drain\<close>

datatype availability_call = CallMarkReady go_time | CallBeginDrain go_time go_time

fun availability_calls ::
    "correlation_package \<Rightarrow> nat \<Rightarrow> availability_call list \<Rightarrow> runtime_observability option \<Rightarrow>
     runtime_observability option \<times> emission list" where
  "availability_calls pkg ctx [] ob = (ob, [])"
| "availability_calls pkg ctx (CallMarkReady now # rest) ob =
     (let (ob, emitted) = markReady pkg ctx now ob; (ob, more) = availability_calls pkg ctx rest ob in (ob, emitted @ more))"
| "availability_calls pkg ctx (CallBeginDrain now later # rest) ob =
     (let (ob, emitted) = beginDrain pkg ctx now later ob; (ob, more) = availability_calls pkg ctx rest ob in (ob, emitted @ more))"

definition readiness_of :: "emission list \<Rightarrow> runtime_event_result list" where
  "readiness_of es = map ev_Result (filter (\<lambda>e. ev_Kind e = RuntimeEventReadiness) (events_of es))"

definition drains_of :: "emission list \<Rightarrow> nat" where
  "drains_of es = length (filter (\<lambda>e. ev_Kind e = RuntimeEventDrain) (events_of es))"

lemma availability_append [simp]:
  "readiness_of (xs @ ys) = readiness_of xs @ readiness_of ys" "drains_of (xs @ ys) = drains_of xs + drains_of ys"
  by (simp_all add: readiness_of_def drains_of_def)

lemma availability_event [simp]:
  "ob_observer ob = Some observer \<Longrightarrow> readiness_of (event pkg (Some ob) ctx now kind result b d t) =
     (if kind = RuntimeEventReadiness then [result] else [])"
  "ob_observer ob = Some observer \<Longrightarrow> drains_of (event pkg (Some ob) ctx now kind result b d t) =
     (if kind = RuntimeEventDrain then 1 else 0)"
  "readiness_of [] = []" "drains_of [] = 0"
  by (simp_all add: readiness_of_def drains_of_def event_def events_of_publish)

fun is_drain :: "availability_call \<Rightarrow> bool" where
  "is_drain (CallMarkReady _) = False"
| "is_drain (CallBeginDrain _ _) = True"

lemma draining_calls:
  "ob_observer ob = Some observer \<Longrightarrow> ob_draining ob \<Longrightarrow>
     prefix (readiness_of (snd (availability_calls pkg ctx cs (Some ob)))) (if ob_ready ob then [] else [RuntimeResultAvailable]) \<and>
     drains_of (snd (availability_calls pkg ctx cs (Some ob))) = 0 \<and>
     (list_all is_drain cs \<longrightarrow> readiness_of (snd (availability_calls pkg ctx cs (Some ob))) = [])"
proof (induction cs arbitrary: ob)
  case (Cons c cs)
  show ?case
    using Cons.IH[of ob] Cons.IH[of "ob\<lparr>ob_ready := True\<rparr>"] Cons.prems
    by (cases c) (auto simp: markReady_def beginDrain_def Let_def split_def)
qed simp

lemma active_calls:
  "ob_observer ob = Some observer \<Longrightarrow> \<not> ob_draining ob \<Longrightarrow>
     prefix (readiness_of (snd (availability_calls pkg ctx cs (Some ob))))
       ((if ob_ready ob then [] else [RuntimeResultAvailable]) @ [RuntimeResultUnavailable, RuntimeResultAvailable]) \<and>
     drains_of (snd (availability_calls pkg ctx cs (Some ob))) = (if list_ex is_drain cs then 1 else 0)"
proof (induction cs arbitrary: ob)
  case (Cons c cs)
  show ?case
  proof (cases c)
    case (CallMarkReady now)
    then show ?thesis
      using Cons.IH[of ob] Cons.IH[of "ob\<lparr>ob_ready := True\<rparr>"] Cons.prems
      by (auto simp: markReady_def Let_def split_def)
  next
    case (CallBeginDrain now later)
    then show ?thesis
      using draining_calls[of "ob\<lparr>ob_draining := True, ob_ready := False\<rparr>" observer pkg ctx cs] Cons.prems
      by (auto simp: beginDrain_def prefix_Cons Let_def split_def)
  qed
qed simp

lemma readiness_protocol:
  assumes "ob_observer ob = Some observer" and "\<not> ob_ready ob" and "\<not> ob_draining ob"
    and "emitted = snd (availability_calls pkg ctx cs (Some ob))"
  shows "prefix (readiness_of emitted) [RuntimeResultAvailable, RuntimeResultUnavailable, RuntimeResultAvailable]"
    and "drains_of emitted = (if list_ex is_drain cs then 1 else 0)"
  using active_calls[OF assms(1,3), of pkg ctx cs] assms(2,4) by simp_all

subsection \<open>The events of a command\<close>

text \<open>
  The observations that \<^verbatim>\<open>executePlan\<close>, \<^verbatim>\<open>executeOneShot\<close> and \<^verbatim>\<open>executeLongRunning\<close> publish from the goroutine
  of the command, with the same arguments as their results; \<open>reading\<close> gives the clock readings in order.
\<close>

definition shutdown_events ::
    "correlation_package \<Rightarrow> nat \<Rightarrow> (nat \<Rightarrow> go_time) \<Rightarrow> go_error \<Rightarrow> runtime_observability option \<Rightarrow> emission list" where
  "shutdown_events pkg ctx reading err observability =
     (let (observability, draining) = beginDrain pkg ctx (reading 0) (reading 1) observability
      in draining @ finishShutdown pkg ctx (reading 3) (reading 3 - reading 2) err observability)"

definition serving_events ::
    "correlation_package \<Rightarrow> nat \<Rightarrow> (nat \<Rightarrow> go_time) \<Rightarrow> bool \<Rightarrow> go_error \<Rightarrow> runtime_observability option \<Rightarrow> emission list" where
  "serving_events pkg ctx reading admitted err observability =
     (if admitted then
        let (observability, available) = markReady pkg ctx (reading 0) observability
        in available @ shutdown_events pkg ctx (\<lambda>i. reading (i + 1)) err observability
      else shutdown_events pkg ctx (\<lambda>i. reading (i + 1)) err observability)"

definition executeOneShot_events ::
    "correlation_package \<Rightarrow> nat \<Rightarrow> (nat \<Rightarrow> go_time) \<Rightarrow> addr \<Rightarrow> service \<Rightarrow> duration \<Rightarrow> bool \<Rightarrow> bool \<Rightarrow> world \<Rightarrow>
     runtime_observability option \<Rightarrow> emission list" where
  "executeOneShot_events pkg ctx reading a runtime timeout escalation taskResult w observability =
     (let goErr = snd (go_admit a ''one-shot command'' True runtime);
          err = (if goErr = NilErr \<and> \<not> taskResult \<and> escalation then observedShutdown a runtime timeout w
                 else shutdownOneShot a w)
      in serving_events pkg ctx reading (goErr = NilErr) err observability)"

definition executeLongRunning_events ::
    "correlation_package \<Rightarrow> nat \<Rightarrow> (nat \<Rightarrow> go_time) \<Rightarrow> addr \<Rightarrow> (nat \<Rightarrow> service \<Rightarrow> service) \<Rightarrow> service \<Rightarrow> duration \<Rightarrow> bool \<Rightarrow>
     named_callback list \<Rightarrow> world \<Rightarrow> runtime_observability option \<Rightarrow> emission list" where
  "executeLongRunning_events pkg ctx reading a between runtime timeout signals tasks w observability =
     (let (runtime, goErr) = admit_tasks a between 0 tasks runtime;
          err = (if goErr = NilErr \<and> signals then observedShutdown a runtime timeout w else shutdownOneShot a w)
      in serving_events pkg ctx reading (goErr = NilErr) err observability)"

definition executePlan_events ::
    "correlation_package \<Rightarrow> nat \<Rightarrow> (nat \<Rightarrow> go_time) \<Rightarrow> addr \<Rightarrow> management_config \<Rightarrow> bool \<Rightarrow> registration \<Rightarrow> plan \<Rightarrow> go_error \<Rightarrow>
     service \<Rightarrow> (nat \<Rightarrow> service \<Rightarrow> service) \<Rightarrow> bool \<Rightarrow> bool \<Rightarrow> world \<Rightarrow> runtime_observability option \<Rightarrow> emission list" where
  "executePlan_events pkg ctx reading a configured maintained command plan startErr running between signals taskResult w observability =
     (case plan_service a configured maintained command plan of
        Inl err \<Rightarrow> []
      | Inr runtime \<Rightarrow>
          event pkg observability ctx (reading 0) RuntimeEventStartup RuntimeResultStarted [] 0 True @
          (if startErr \<noteq> NilErr then
             event pkg observability ctx (reading 2) RuntimeEventStartup RuntimeResultFailed [] (reading 2 - reading 1) True
           else
             event pkg observability ctx (reading 2) RuntimeEventStartup RuntimeResultSucceeded [] (reading 2 - reading 1) True @
             (if reg_kind command = CommandKindLongRunning then
                executeLongRunning_events pkg ctx (\<lambda>i. reading (i + 3)) a between running
                  (effective_timeout (pl_ShutdownTimeout plan)) signals
                  (plan_tasks (reg_kind command) maintained plan) w observability
              else
                executeOneShot_events pkg ctx (\<lambda>i. reading (i + 3)) a running
                  (effective_timeout (pl_ShutdownTimeout plan)) signals taskResult w observability)))"

definition trace_of :: "emission list \<Rightarrow> (runtime_event_kind \<times> runtime_event_result) list" where
  "trace_of es = map (\<lambda>e. (ev_Kind e, ev_Result e)) (events_of es)"

lemma trace_of_append [simp]: "trace_of (xs @ ys) = trace_of xs @ trace_of ys"
  by (simp add: trace_of_def)

lemma trace_of_event [simp]:
  "ob_observer ob = Some observer \<Longrightarrow> trace_of (event pkg (Some ob) ctx now kind result b d t) = [(kind, result)]"
  "trace_of [] = []"
  by (simp_all add: trace_of_def event_def events_of_publish)

abbreviation closing_trace :: "go_error \<Rightarrow> (runtime_event_kind \<times> runtime_event_result) list" where
  "closing_trace err \<equiv> [(RuntimeEventDrain, RuntimeResultStarted),
     (RuntimeEventShutdown, if err \<noteq> NilErr then RuntimeResultFailed else RuntimeResultSucceeded)]"

lemma serving_trace:
  assumes "ob_observer ob = Some observer" and "\<not> ob_ready ob" and "\<not> ob_draining ob"
  shows "trace_of (serving_events pkg ctx reading admitted err (Some ob)) =
    (if admitted then [(RuntimeEventReadiness, RuntimeResultAvailable), (RuntimeEventReadiness, RuntimeResultUnavailable)] else []) @
    closing_trace err"
  using assms by (simp add: serving_events_def shutdown_events_def markReady_def beginDrain_def finishShutdown_def Let_def)

lemma errors_join_nil: "errors_join a es = NilErr \<longleftrightarrow> (\<forall>e\<in>set es. e = NilErr)"
  by (auto simp: errors_join_def Let_def filter_empty_conv)

text \<open>
  The events of a command after its startup, against what happened and what it returns: readiness comes and goes
  exactly when the tasks were admitted, drain and shutdown follow once, the shutdown is reported failed exactly when the shutdown
  returned an error, and that error is in what the command returns.
\<close>

definition served_trace ::
    "bool \<Rightarrow> go_error \<Rightarrow> (runtime_event_kind \<times> runtime_event_result) list \<Rightarrow> go_error \<Rightarrow> bool" where
  "served_trace admitted stopFailure trace result \<longleftrightarrow>
     trace = (if admitted then [(RuntimeEventReadiness, RuntimeResultAvailable), (RuntimeEventReadiness, RuntimeResultUnavailable)]
              else []) @ closing_trace stopFailure \<and>
     (result = NilErr \<longrightarrow> admitted \<and> stopFailure = NilErr) \<and>
     (stopFailure \<noteq> NilErr \<longrightarrow> result = stopFailure \<or> (\<exists>b es. result = JoinError b es \<and> stopFailure \<in> set es))"

text \<open>The shutdown a command makes: with signals it can be escalated, unless a one-shot task had ended or the tasks were refused.\<close>

definition command_shutdown :: "addr \<Rightarrow> bool \<Rightarrow> bool \<Rightarrow> bool \<Rightarrow> bool \<Rightarrow> service \<Rightarrow> duration \<Rightarrow> world \<Rightarrow> go_error" where
  "command_shutdown a long admitted signals taskResult runtime timeout w =
     (if admitted \<and> signals \<and> (long \<or> \<not> taskResult) then observedShutdown a runtime timeout w else shutdownOneShot a w)"

lemma one_shot_course:
  assumes "ob_observer ob = Some observer" and "\<not> ob_ready ob" and "\<not> ob_draining ob"
    and "admitted \<longleftrightarrow> snd (go_admit a ''one-shot command'' True runtime) = NilErr"
  shows "served_trace admitted (command_shutdown a False admitted escalation taskResult runtime timeout w)
    (trace_of (executeOneShot_events pkg ctx reading a runtime timeout escalation taskResult w (Some ob)))
    (executeOneShot a runtime timeout escalation taskResult tasks w cause)"
  unfolding served_trace_def
  by (auto simp: executeOneShot_events_def serving_trace[OF assms(1-3)] executeOneShot_def finishCanceledOneShot_def assms(4)
      command_shutdown_def shutdownAfterFailure_def errors_join_nil errors_join_def Let_def split: if_splits)

lemma long_running_course:
  assumes "ob_observer ob = Some observer" and "\<not> ob_ready ob" and "\<not> ob_draining ob"
    and "admit_tasks a between 0 tasks runtime = (serving, goErr)"
  shows "served_trace (goErr = NilErr) (command_shutdown a True (goErr = NilErr) signals taskResult serving timeout w)
    (trace_of (executeLongRunning_events pkg ctx reading a between runtime timeout signals tasks w (Some ob)))
    (executeLongRunning a between runtime timeout signals tasks failure w cause)"
  unfolding served_trace_def
  by (auto simp: executeLongRunning_events_def assms(4) serving_trace[OF assms(1-3)] executeLongRunning_def command_shutdown_def
      shutdownAfterFailure_def errors_join_nil errors_join_def Let_def split: if_splits option.splits)

text \<open>C35. \<^bold>\<open>The events of a command follow its lifecycle and agree with its result.\<close> A command whose plan is
  accepted publishes startup started and failed exactly when its start failed, and returns that
  error. Otherwise it publishes startup started and succeeded, readiness available and unavailable exactly when its
  tasks were admitted, drain started, and then the shutdown: failed exactly when the shutdown that the command made
  returned an error, succeeded otherwise. A failed shutdown is in what the command returns, as the
  error itself or as a member of the join; and a command that returns nil published readiness and a succeeded shutdown.\<close>

theorem command_events_truthful:
  assumes "plan_service a configured maintained command plan = Inr service"
    and "ob_observer ob = Some observer" and "\<not> ob_ready ob" and "\<not> ob_draining ob"
    and "trace = trace_of (executePlan_events pkg ctx reading a configured maintained command plan startErr running between
      signals taskResult w (Some ob))"
    and "result = executePlan a configured maintained command plan startErr running between signals taskResult outcomes
      failure w cause"
    and "long \<longleftrightarrow> reg_kind command = CommandKindLongRunning"
    and "(serving, goErr) = (if long then admit_tasks a between 0 (plan_tasks CommandKindLongRunning maintained plan) running
      else (running, snd (go_admit a ''one-shot command'' True running)))"
    and "stopFailure = (if goErr = NilErr \<and> signals \<and> (long \<or> \<not> taskResult)
      then observedShutdown a serving (effective_timeout (pl_ShutdownTimeout plan)) w else shutdownOneShot a w)"
  shows "(startErr \<noteq> NilErr \<longrightarrow> result = startErr \<and>
      trace = [(RuntimeEventStartup, RuntimeResultStarted), (RuntimeEventStartup, RuntimeResultFailed)]) \<and>
    (startErr = NilErr \<longrightarrow>
      trace = [(RuntimeEventStartup, RuntimeResultStarted), (RuntimeEventStartup, RuntimeResultSucceeded)] @
        (if goErr = NilErr then [(RuntimeEventReadiness, RuntimeResultAvailable), (RuntimeEventReadiness, RuntimeResultUnavailable)]
         else []) @
        [(RuntimeEventDrain, RuntimeResultStarted),
         (RuntimeEventShutdown, if stopFailure = NilErr then RuntimeResultSucceeded else RuntimeResultFailed)] \<and>
      (result = NilErr \<longrightarrow> goErr = NilErr \<and> stopFailure = NilErr) \<and>
      (stopFailure \<noteq> NilErr \<longrightarrow> result = stopFailure \<or> (\<exists>b es. result = JoinError b es \<and> stopFailure \<in> set es)))"
proof (cases "startErr = NilErr")
  case True
  let ?timeout = "effective_timeout (pl_ShutdownTimeout plan)" and ?reading = "\<lambda>i. reading (i + 3)"
  let ?served = "if long then executeLongRunning_events pkg ctx ?reading a between running ?timeout signals
      (plan_tasks CommandKindLongRunning maintained plan) w (Some ob)
    else executeOneShot_events pkg ctx ?reading a running ?timeout signals taskResult w (Some ob)"
  have err: "stopFailure = command_shutdown a long (goErr = NilErr) signals taskResult serving ?timeout w"
    using assms(9) by (simp add: command_shutdown_def)
  have "served_trace (goErr = NilErr) stopFailure (trace_of ?served) result"
  proof (cases long)
    case True
    with assms(8) have "admit_tasks a between 0 (plan_tasks CommandKindLongRunning maintained plan) running = (serving, goErr)" by simp
    from long_running_course[OF assms(2-4) this] True \<open>startErr = NilErr\<close> assms(1,6,7) show ?thesis
      unfolding err by (simp add: executePlan_def)
  next
    case False
    with assms(8) have "serving = running" "goErr = NilErr \<longleftrightarrow> snd (go_admit a ''one-shot command'' True running) = NilErr" by auto
    with one_shot_course[OF assms(2-4), of "goErr = NilErr" a running] False \<open>startErr = NilErr\<close> assms(1,6,7) show ?thesis
      unfolding err by (simp add: executePlan_def)
  qed
  moreover have "trace = [(RuntimeEventStartup, RuntimeResultStarted), (RuntimeEventStartup, RuntimeResultSucceeded)] @ trace_of ?served"
    using assms(1,2,5,7) True by (simp add: executePlan_events_def)
  ultimately show ?thesis using True unfolding served_trace_def by auto
next
  case False
  then show ?thesis using assms(1,2,5,6) by (simp add: executePlan_events_def executePlan_def)
qed

text \<open>A worker whose shutdown missed its deadline.\<close>

definition late_world :: world where
  "late_world = clean_world\<lparr>w_shutdown := Sentinel DeadlineExceeded\<rparr>"

theorem command_events_truthful_witness:
  "trace_of (executePlan_events silent_package 0 int 1 no_management True worker_command (worker_plan []) NilErr
     zero_service (\<lambda>_ s. s) False False late_world (Some sample_observability)) =
     [(RuntimeEventStartup, RuntimeResultStarted), (RuntimeEventStartup, RuntimeResultSucceeded),
      (RuntimeEventDrain, RuntimeResultStarted), (RuntimeEventShutdown, RuntimeResultFailed)]"
proof -
  let ?tasks = "plan_tasks CommandKindLongRunning True (worker_plan [])"
  have "validateTasks 1 [] = NilErr" by (simp add: validateTasks_def defaultMaxTasks_def)
  note service = worker_service[OF this]
  have ob: "ob_observer sample_observability = Some (\<lambda>_. None)" "\<not> ob_ready sample_observability"
    "\<not> ob_draining sample_observability" by (simp_all add: sample_observability_def)
  have long: "True \<longleftrightarrow> reg_kind worker_command = CommandKindLongRunning" by (simp add: worker_command_def CommandFor_def)
  have "snd (admit_tasks 1 (\<lambda>_ s. s) 0 ?tasks zero_service) \<noteq> NilErr"
    using platform_identities
    by (simp add: plan_tasks_def worker_plan_def maintenance_task_def go_admit_def zero_service_def Let_def)
  then obtain serving goErr where go: "(serving, goErr) = (if True then admit_tasks 1 (\<lambda>_ s. s) 0 ?tasks zero_service
      else (zero_service, snd (go_admit 1 ''one-shot command'' True zero_service)))" "goErr \<noteq> NilErr"
    by (cases "admit_tasks 1 (\<lambda>_ s. s) 0 ?tasks zero_service") auto
  have late: "shutdownOneShot 1 late_world \<noteq> NilErr"
    by (simp add: shutdownOneShot_def late_world_def clean_world_def budgetedShutdown_def classifyShutdownError_def)
  from command_events_truthful[OF service ob refl refl long go(1) refl, where startErr = NilErr and w = late_world] go(2) late
  show ?thesis by (simp split: if_splits)
qed

text \<open>The task events of a one-shot command, from the supervised goroutine that runs the tasks.\<close>

fun one_shot_task_events ::
    "correlation_package \<Rightarrow> nat \<Rightarrow> (nat \<Rightarrow> go_time) \<Rightarrow> addr \<Rightarrow> (string \<times> outcome) list \<Rightarrow> runtime_observability option \<Rightarrow> emission list" where
  "one_shot_task_events pkg ctx reading a [] observability = []"
| "one_shot_task_events pkg ctx reading a ((name, result) # rest) observability =
     event pkg observability ctx (reading 0) RuntimeEventTask RuntimeResultStarted name 0 False @
     (if invoke a name ''run'' result \<noteq> NilErr then
        event pkg observability ctx (reading 2) RuntimeEventTask RuntimeResultFailed name (reading 2 - reading 1) False
      else
        event pkg observability ctx (reading 2) RuntimeEventTask RuntimeResultSucceeded name (reading 2 - reading 1) False @
        one_shot_task_events pkg ctx (\<lambda>i. reading (i + 3)) a rest observability)"

definition long_running_task_events ::
    "correlation_package \<Rightarrow> nat \<Rightarrow> (nat \<Rightarrow> go_time) \<Rightarrow> addr \<Rightarrow> string \<Rightarrow> outcome \<Rightarrow> ctx_state \<Rightarrow> runtime_observability option \<Rightarrow> emission list" where
  "long_running_task_events pkg ctx reading a name result taskContext observability =
     (let err = long_running_task a name result taskContext in
      event pkg observability ctx (reading 0) RuntimeEventTask RuntimeResultStarted name 0 False @
      event pkg observability ctx (reading 2) RuntimeEventTask
        (if err \<noteq> NilErr \<and> \<not> isCancellationResult taskContext err then RuntimeResultFailed else RuntimeResultSucceeded)
        name (reading 2 - reading 1) False)"

definition boundaries_of :: "emission list \<Rightarrow> (string \<times> runtime_event_result) list" where
  "boundaries_of es = map (\<lambda>e. (ev_Boundary e, ev_Result e)) (events_of es)"

lemma boundaries_of_append [simp]: "boundaries_of (xs @ ys) = boundaries_of xs @ boundaries_of ys"
  by (simp add: boundaries_of_def)

lemma boundaries_of_event [simp]:
  "ob_observer ob = Some observer \<Longrightarrow> boundaries_of (event pkg (Some ob) ctx now kind result b d t) = [(b, result)]"
  "boundaries_of [] = []"
  by (simp_all add: boundaries_of_def event_def events_of_publish)

abbreviation done_pairs :: "string list \<Rightarrow> (string \<times> runtime_event_result) list" where
  "done_pairs names \<equiv> concat (map (\<lambda>n. [(n, RuntimeResultStarted), (n, RuntimeResultSucceeded)]) names)"

lemma one_shot_executed: "one_shot_tasks a tasks = (names, err) \<Longrightarrow> err \<noteq> NilErr \<Longrightarrow> names \<noteq> []"
  by (cases tasks) (auto simp: Let_def split: prod.splits if_splits)

text \<open>\<^bold>\<open>A one-shot command reports each task it executed, and only the last can have failed.\<close> The tasks
  the command executes are exactly those with a started event; each is followed by its own outcome
  before the next starts, succeeded for all of them when the tasks succeeded, and otherwise failed
  for the last one and for no other.\<close>

theorem one_shot_tasks_reported:
  assumes "ob_observer ob = Some observer" and "one_shot_tasks a tasks = (names, err)"
  shows "boundaries_of (one_shot_task_events pkg ctx reading a tasks (Some ob)) =
    (if err = NilErr then done_pairs names
     else done_pairs (butlast names) @ [(last names, RuntimeResultStarted), (last names, RuntimeResultFailed)])"
  using assms(2)
proof (induction tasks arbitrary: names err reading)
  case (Cons task tasks)
  obtain name result where task: "task = (name, result)" by (meson prod.exhaust)
  obtain rest err' where rest: "one_shot_tasks a tasks = (rest, err')" by (meson prod.exhaust)
  show ?case
    using Cons.prems Cons.IH[OF rest] rest one_shot_executed[OF rest] assms(1)
    by (auto simp: task Let_def split: if_splits)
qed simp

theorem one_shot_tasks_reported_witness:
  "boundaries_of (one_shot_task_events silent_package 0 int 1 [(''load'', Returned NilErr), (''save'', Panicked 7), (''send'', Returned NilErr)]
      (Some sample_observability)) =
     [(''load'', RuntimeResultStarted), (''load'', RuntimeResultSucceeded), (''save'', RuntimeResultStarted), (''save'', RuntimeResultFailed)]"
proof -
  have "one_shot_tasks 1 [(''load'', Returned NilErr), (''save'', Panicked 7), (''send'', Returned NilErr)] =
      ([''load'', ''save''], ComponentError 1 ''save'' ''run'' (PanicError 1 ''save'' ''run'' 7))" by simp
  moreover have "ob_observer sample_observability = Some (\<lambda>_. None)" by (simp add: sample_observability_def)
  ultimately show ?thesis using one_shot_tasks_reported by simp
qed

subsection \<open>Observed components\<close>

text \<open>
  An observed callback against the original: same end, and the original's emissions between the
  started event and one event for the end.
\<close>

definition reports_operation :: "runtime_event_kind \<Rightarrow> string \<Rightarrow> operation \<Rightarrow> operation \<Rightarrow> bool" where
  "reports_operation kind name op hook \<longleftrightarrow> (\<forall>ctx.
     snd (hook ctx) = snd (op ctx) \<and>
     trace_of (fst (hook ctx)) =
       (kind, RuntimeResultStarted) # trace_of (fst (op ctx)) @ [(kind, operation_result (snd (op ctx)))] \<and>
     boundaries_of (fst (hook ctx)) =
       (name, RuntimeResultStarted) # boundaries_of (fst (op ctx)) @ [(name, operation_result (snd (op ctx)))])"

lemma observed_operation_reports:
  "ob_observer ob = Some observer \<Longrightarrow>
     reports_operation kind name op (observeComponentOperation pkg readings name kind op (Some ob))"
  by (auto simp: reports_operation_def observeComponentOperation_def Let_def split: prod.splits)

text \<open>\<^bold>\<open>Observing components is transparent to the lifecycle.\<close> The observed components are, for the
  lifecycle, the components themselves: same names, same callbacks present, same order. An observed
  Start or Stop callback ends as the original does, panics included, and whatever it emits stands
  between its started event and one final event, failed exactly for an error or a panic, under the
  component's name.\<close>

theorem observed_components_transparent:
  assumes "ob_observer ob = Some observer" and "i < length cs"
    and "observed = observeComponents pkg readings cs (Some ob)"
  shows "map lifecycle_component observed = map lifecycle_component cs \<and>
    (\<forall>op. hk_Start (cs ! i) = Some op \<longrightarrow> (\<exists>hook. hk_Start (observed ! i) = Some hook \<and>
      reports_operation RuntimeEventComponentStart (hk_Name (cs ! i)) op hook)) \<and>
    (\<forall>op. hk_Stop (cs ! i) = Some op \<longrightarrow> (\<exists>hook. hk_Stop (observed ! i) = Some hook \<and>
      reports_operation RuntimeEventComponentStop (hk_Name (cs ! i)) op hook))"
proof -
  have "map lifecycle_component observed = map lifecycle_component cs"
    unfolding assms(3) observeComponents_def by (simp add: lifecycle_component_def)
  then show ?thesis
    using assms(1,2) unfolding assms(3) by (simp add: observeComponents_def observed_operation_reports)
qed

theorem observed_components_transparent_witness:
  "\<exists>hook. hk_Stop (observeComponents silent_package (1, 2, 3)
      [\<lparr>hk_Name = ''db'', hk_CloseAdmission = False, hk_Start = None, hk_Stop = Some (\<lambda>_. ([], Panicked 7))\<rparr>]
      (Some sample_observability) ! 0) = Some hook \<and>
     boundaries_of (fst (hook 0)) = [(''db'', RuntimeResultStarted), (''db'', RuntimeResultFailed)]"
proof -
  let ?cs = "[\<lparr>hk_Name = ''db'', hk_CloseAdmission = False, hk_Start = None, hk_Stop = Some (\<lambda>_. ([], Panicked 7))\<rparr>]"
  have "ob_observer sample_observability = Some (\<lambda>_. None)" "0 < length ?cs"
    by (simp_all add: sample_observability_def)
  from observed_components_transparent[OF this refl, of silent_package "(1, 2, 3)"] obtain hook where
    "hk_Stop (observeComponents silent_package (1, 2, 3) ?cs (Some sample_observability) ! 0) = Some hook"
    "reports_operation RuntimeEventComponentStop ''db'' (\<lambda>_. ([], Panicked 7)) hook" by auto
  then show ?thesis by (auto simp: reports_operation_def operation_result_def)
qed

end
