(* ===== verification/Service_Test.thy ===== *)
theory Service_Test
  imports Lifecycle Http_Handlers
begin

section \<open>The service test kit\<close>

text \<open>
  Models \<^verbatim>\<open>servicetest/servicetest.go\<close>: the barrier, the recorder with the slices it hands out, the
  deterministic component and the in-memory probe of a handler. A configuration error of the package
  is its field and reason.
\<close>

type_synonym test_error = "string \<times> string"

subsection \<open>Barrier\<close>

text \<open>Each \<^verbatim>\<open>sync.Once\<close> is a flag and its call one atomic step: a concurrent caller waits for it.\<close>

record barrier =
  br_once :: bool
  br_enterOnce :: bool
  br_releaseOnce :: bool
  br_entered :: chan
  br_release :: chan

definition zero_barrier :: barrier where
  "zero_barrier = \<lparr>br_once = False, br_enterOnce = False, br_releaseOnce = False, br_entered = ChanNil, br_release = ChanNil\<rparr>"

definition initialize :: "barrier \<Rightarrow> barrier" where
  "initialize b = (if br_once b then b else b\<lparr>br_once := True, br_entered := ChanOpen, br_release := ChanOpen\<rparr>)"

definition Entered :: "barrier \<Rightarrow> barrier \<times> chan" where
  "Entered b = (let b = initialize b in (b, br_entered b))"

definition wait_enter :: "barrier \<Rightarrow> barrier" where
  "wait_enter b =
     (let b = initialize b
      in if br_enterOnce b then b else b\<lparr>br_enterOnce := True, br_entered := close_chan (br_entered b)\<rparr>)"

text \<open>The select at the end of \<^verbatim>\<open>Wait\<close>: the results it may return now; none while it blocks.\<close>

definition wait_results :: "barrier \<Rightarrow> ctx_state \<Rightarrow> go_error list" where
  "wait_results b ctx =
     (if br_release b = ChanClosed then [NilErr] else []) @ (if ctx \<noteq> CtxActive then [ctx_cause ctx] else [])"

definition barrier_Wait :: "ctx_state option \<Rightarrow> barrier \<Rightarrow> test_error + barrier" where
  "barrier_Wait ctx b = (case ctx of None \<Rightarrow> Inl (''ctx'', ''must not be nil'') | Some _ \<Rightarrow> Inr (wait_enter b))"

definition Release :: "barrier \<Rightarrow> barrier" where
  "Release b =
     (let b = initialize b
      in if br_releaseOnce b then b else b\<lparr>br_releaseOnce := True, br_release := close_chan (br_release b)\<rparr>)"

datatype barrier_op = BarrierEntered | BarrierWait "ctx_state option" | BarrierRelease

fun barrier_step :: "barrier_op \<Rightarrow> barrier \<Rightarrow> barrier" where
  "barrier_step BarrierEntered b = fst (Entered b)"
| "barrier_step (BarrierWait ctx) b = (case barrier_Wait ctx b of Inl _ \<Rightarrow> b | Inr b \<Rightarrow> b)"
| "barrier_step BarrierRelease b = Release b"

definition barrier_run :: "barrier_op list \<Rightarrow> barrier" where
  "barrier_run ops = fold barrier_step ops zero_barrier"

subsection \<open>Recorder\<close>

text \<open>
  Slices live in a store of arrays. The recorder keeps one array; \<^verbatim>\<open>Events\<close> allocates a new one for
  its caller, who may write to it.
\<close>

record recorder =
  rc_store :: "addr \<Rightarrow> string list"
  rc_next :: addr
  rc_events :: addr

definition zero_recorder :: recorder where
  "zero_recorder = \<lparr>rc_store = (\<lambda>_. []), rc_next = 1, rc_events = 0\<rparr>"

definition Record :: "string \<Rightarrow> recorder \<Rightarrow> recorder" where
  "Record event r = r\<lparr>rc_store := (rc_store r)(rc_events r := rc_store r (rc_events r) @ [event])\<rparr>"

definition Events :: "recorder \<Rightarrow> recorder \<times> addr" where
  "Events r =
     (r\<lparr>rc_store := (rc_store r)(rc_next r := [] @ rc_store r (rc_events r)), rc_next := rc_next r + 1\<rparr>, rc_next r)"

text \<open>A caller's write into a slice it was given; out of range it panics and writes nothing.\<close>

definition caller_write :: "addr \<Rightarrow> nat \<Rightarrow> string \<Rightarrow> recorder \<Rightarrow> recorder" where
  "caller_write slice i value r = r\<lparr>rc_store := (rc_store r)(slice := (rc_store r slice)[i := value])\<rparr>"

datatype recorder_op = RecordOp string | EventsOp | WriteOp nat nat string

text \<open>A run: the recorder, the slices handed out so far, and what each held when it was returned.\<close>

fun recorder_run :: "recorder_op list \<Rightarrow> recorder \<times> addr list \<Rightarrow> (recorder \<times> addr list) \<times> string list list" where
  "recorder_run [] (r, given) = ((r, given), [])"
| "recorder_run (RecordOp event # ops) (r, given) = recorder_run ops (Record event r, given)"
| "recorder_run (EventsOp # ops) (r, given) =
     (let (r', slice) = Events r; (final, snapshots) = recorder_run ops (r', given @ [slice])
      in (final, rc_store r' slice # snapshots))"
| "recorder_run (WriteOp k i value # ops) (r, given) =
     recorder_run ops (if k < length given then caller_write (given ! k) i value r else r, given)"

subsection \<open>Components\<close>

record component_config =
  cc_Name :: string
  cc_Recorder :: bool
  cc_StartBarrier :: bool
  cc_StopBarrier :: bool
  cc_StartError :: go_error
  cc_StopError :: go_error

text \<open>
  A callback: the event it records first, and what it returns when its barrier's \<^verbatim>\<open>Wait\<close> returned
  the given error, or when it has no barrier.
\<close>

definition test_callback :: "string \<Rightarrow> component_config \<Rightarrow> bool \<Rightarrow> go_error \<Rightarrow> go_error \<Rightarrow> string list \<times> go_error" where
  "test_callback verb cfg waits err waited =
     ((if cc_Recorder cfg then [verb @ '' '' @ cc_Name cfg] else []),
      (if waits \<and> waited \<noteq> NilErr then waited else err))"

definition test_start :: "component_config \<Rightarrow> go_error \<Rightarrow> string list \<times> go_error" where
  "test_start cfg = test_callback ''start'' cfg (cc_StartBarrier cfg) (cc_StartError cfg)"

definition test_stop :: "component_config \<Rightarrow> go_error \<Rightarrow> string list \<times> go_error" where
  "test_stop cfg = test_callback ''stop'' cfg (cc_StopBarrier cfg) (cc_StopError cfg)"

definition NewComponent :: "component_config \<Rightarrow> test_error + component" where
  "NewComponent cfg =
     (if trim_space (cc_Name cfg) = [] then Inl (''Name'', ''must not be blank'')
      else Inr \<lparr>Name = cc_Name cfg, CloseAdmission = False, StartHook = True, StopHook = True\<rparr>)"

subsection \<open>Probe\<close>

definition maximumProbeBody :: int where "maximumProbeBody = 16777216"

record probe_writer =
  pw_header :: http_headers
  pw_status :: nat
  pw_wroteHeader :: bool
  pw_body :: string
  pw_limit :: int
  pw_truncated :: bool

definition newProbeWriter :: "int \<Rightarrow> probe_writer" where
  "newProbeWriter limit =
     \<lparr>pw_header = [], pw_status = 200, pw_wroteHeader = False, pw_body = [], pw_limit = limit, pw_truncated = False\<rparr>"

definition probe_WriteHeader :: "nat \<Rightarrow> probe_writer \<Rightarrow> probe_writer" where
  "probe_WriteHeader status w = (if pw_wroteHeader w then w else w\<lparr>pw_wroteHeader := True, pw_status := status\<rparr>)"

definition probe_Write :: "string \<Rightarrow> probe_writer \<Rightarrow> probe_writer" where
  "probe_Write body w =
     (let w = (if \<not> pw_wroteHeader w then probe_WriteHeader 200 w else w);
          remaining = pw_limit w - int (length (pw_body w));
          w = (if remaining < int (length body) then w\<lparr>pw_truncated := True\<rparr> else w);
          retained = min remaining (int (length body))
      in w\<lparr>pw_body := pw_body w @ take (nat retained) body\<rparr>)"

definition probe_Flush :: "probe_writer \<Rightarrow> probe_writer" where
  "probe_Flush w = w"

primrec probe_respond :: "response_program \<Rightarrow> probe_writer \<Rightarrow> probe_writer \<times> panic_value option" where
  "probe_respond Return w = (w, None)"
| "probe_respond (Panics v) w = (w, Some v)"
| "probe_respond (EditHeader f p) w = probe_respond p (w\<lparr>pw_header := f (pw_header w)\<rparr>)"
| "probe_respond (ReadHeader p) w = probe_respond (p (pw_header w)) w"
| "probe_respond (SendHeader code p) w = probe_respond p (probe_WriteHeader code w)"
| "probe_respond (SendBody text p) w = probe_respond p (probe_Write text w)"
| "probe_respond (FlushResponse p) w = probe_respond p (probe_Flush w)"

record probe_result =
  pr_Status :: nat
  pr_Header :: http_headers
  pr_Body :: string
  pr_Truncated :: bool

text \<open>A panic of the handler goes on to the caller.\<close>

definition Probe ::
    "handler option \<Rightarrow> http_request option \<Rightarrow> int \<Rightarrow> test_error + panic_value + probe_result" where
  "Probe handler request maxBody =
     (case handler of None \<Rightarrow> Inl (''handler'', ''must not be nil'') | Some serve \<Rightarrow>
      case request of None \<Rightarrow> Inl (''request'', ''must not be nil'') | Some r \<Rightarrow>
      if maxBody < 0 \<or> maxBody > maximumProbeBody then Inl (''maxBody'', ''is outside the allowed range'')
      else
        (case probe_respond (serve r) (newProbeWriter maxBody) of
           (_, Some v) \<Rightarrow> Inr (Inl v)
         | (w, None) \<Rightarrow> Inr (Inr \<lparr>pr_Status = pw_status w, pr_Header = pw_header w, pr_Body = [] @ pw_body w,
             pr_Truncated = pw_truncated w\<rparr>)))"

subsection \<open>The barrier's promises\<close>

lemmas barrier_defs = initialize_def Entered_def wait_enter_def barrier_Wait_def Release_def

definition barrier_state :: "barrier_op list \<Rightarrow> barrier \<Rightarrow> bool" where
  "barrier_state ops b \<longleftrightarrow>
     (let waited = (\<exists>ctx. BarrierWait (Some ctx) \<in> set ops); released = (BarrierRelease \<in> set ops) in
      br_enterOnce b = waited \<and> br_releaseOnce b = released \<and>
      (waited \<or> released \<longrightarrow> br_once b) \<and>
      br_entered b = (if \<not> br_once b then ChanNil else if waited then ChanClosed else ChanOpen) \<and>
      br_release b = (if \<not> br_once b then ChanNil else if released then ChanClosed else ChanOpen))"

lemma barrier_state_step: "barrier_state ops b \<Longrightarrow> barrier_state (ops @ [op]) (barrier_step op b)"
proof (cases op)
  case (BarrierWait ctx)
  assume "barrier_state ops b"
  with BarrierWait show ?thesis by (cases ctx) (auto simp: barrier_state_def barrier_defs Let_def)
qed (auto simp: barrier_state_def barrier_defs Let_def)

lemma barrier_run_state: "barrier_state ops (barrier_run ops)"
proof (induction ops rule: rev_induct)
  case Nil
  show ?case by (simp add: barrier_run_def barrier_state_def zero_barrier_def)
next
  case (snoc op ops)
  then show ?case using barrier_state_step[of ops "barrier_run ops" op] by (simp add: barrier_run_def)
qed

text \<open>\<^bold>\<open>A barrier signals entry and release once, and never blocks after its release.\<close> However calls
  from any number of goroutines interleave, no channel is closed twice or before it exists; the
  entered channel is closed exactly when some \<^verbatim>\<open>Wait\<close> with a context entered; a waiter blocks exactly
  while nobody released the barrier and its context is active; and it returns nil or the cause of
  its done context, the cause alone before the release.\<close>

theorem barrier_protocol:
  assumes "b = fst (Entered (barrier_run ops))"
  shows "br_entered b \<noteq> ChanPanic \<and> br_release b \<noteq> ChanPanic \<and>
    (br_entered b = ChanClosed \<longleftrightarrow> (\<exists>ctx. BarrierWait (Some ctx) \<in> set ops)) \<and>
    (wait_results b ctx = [] \<longleftrightarrow> BarrierRelease \<notin> set ops \<and> ctx = CtxActive) \<and>
    set (wait_results b ctx) \<subseteq> {NilErr, ctx_cause ctx} \<and>
    (BarrierRelease \<notin> set ops \<longrightarrow> set (wait_results b ctx) \<subseteq> {ctx_cause ctx})"
  using barrier_run_state[of ops] assms
  by (auto simp: barrier_state_def barrier_defs wait_results_def Let_def split: if_splits)

theorem barrier_protocol_witness:
  "wait_results (fst (Entered (barrier_run [BarrierWait (Some CtxActive), BarrierRelease, BarrierRelease]))) CtxActive \<noteq> []"
  using barrier_protocol[OF refl, of "[BarrierWait (Some CtxActive), BarrierRelease, BarrierRelease]" CtxActive] by simp

subsection \<open>The recorder's promises\<close>

text \<open>What the snapshots should be: the events recorded before each of them.\<close>

fun recorded_before :: "recorder_op list \<Rightarrow> string list \<Rightarrow> string list list" where
  "recorded_before [] events = []"
| "recorded_before (RecordOp event # ops) events = recorded_before ops (events @ [event])"
| "recorded_before (EventsOp # ops) events = events # recorded_before ops events"
| "recorded_before (WriteOp _ _ _ # ops) events = recorded_before ops events"

lemma recorder_run_isolated:
  assumes "rc_events r < rc_next r" and "\<forall>slice\<in>set given. slice < rc_next r \<and> slice \<noteq> rc_events r"
    and "rc_store r (rc_events r) = events"
  shows "snd (recorder_run ops (r, given)) = recorded_before ops events"
  using assms
proof (induction ops arbitrary: r given events)
  case (Cons op ops)
  show ?case
  proof (cases op)
    case (RecordOp event)
    with Cons.IH[of "Record event r" given "events @ [event]"] Cons.prems show ?thesis
      by (simp add: Record_def)
  next
    case EventsOp
    with Cons.IH[of "fst (Events r)" "given @ [rc_next r]" events] Cons.prems show ?thesis
      by (auto simp: Events_def split_def Let_def less_Suc_eq)
  next
    case (WriteOp k i v)
    let ?r = "if k < length given then caller_write (given ! k) i v r else r"
    have kept: "rc_events ?r = rc_events r" "rc_next ?r = rc_next r" "rc_store ?r (rc_events r) = events"
      using Cons.prems(2,3) nth_mem[of k given] by (auto simp: caller_write_def)
    have "snd (recorder_run ops (?r, given)) = recorded_before ops events"
      by (rule Cons.IH) (use kept Cons.prems in auto)
    then show ?thesis unfolding WriteOp by (simp split: if_splits)
  qed
qed simp

text \<open>\<^bold>\<open>Recorder snapshots hold the events recorded so far, whatever callers do to earlier ones.\<close> For
  every interleaving of records, snapshots and writes of callers into slices they were given, each
  snapshot is the list of the events recorded before it, in recording order.\<close>

theorem recorder_snapshots_isolated:
  "snd (recorder_run ops (zero_recorder, [])) = recorded_before ops []"
  by (rule recorder_run_isolated) (simp_all add: zero_recorder_def)

subsection \<open>The probe against a real response\<close>

interpretation probe_status: status_recorder
  "\<lambda>w. if pw_wroteHeader w then Some (pw_status w) else None" probe_WriteHeader probe_Write probe_Flush
  by unfold_locales (auto simp: probe_WriteHeader_def probe_Write_def probe_Flush_def Let_def split: if_splits)

text \<open>The captured writer against the server's writer of the same run.\<close>

definition captures :: "probe_writer \<Rightarrow> http_writer \<Rightarrow> bool" where
  "captures pw w \<longleftrightarrow> 0 \<le> pw_limit pw \<and> pw_header pw = hw_header w \<and>
     hw_status w = (if pw_wroteHeader pw then Some (pw_status pw) else None) \<and>
     (\<not> pw_wroteHeader pw \<longrightarrow> pw_status pw = 200) \<and>
     pw_body pw = take (nat (pw_limit pw)) (hw_body w) \<and>
     (pw_truncated pw \<longleftrightarrow> pw_limit pw < int (length (hw_body w)))"

lemma captures_WriteHeader:
  "captures pw w \<Longrightarrow> \<not> informational code \<Longrightarrow> captures (probe_WriteHeader code pw) (http_WriteHeader code w)"
  by (auto simp: captures_def probe_WriteHeader_def http_WriteHeader_def)

lemma captured_body:
  assumes "0 \<le> limit" and "captured = take (nat limit) sent"
  shows "captured @ take (nat (min (limit - int (length captured)) (int (length bytes)))) bytes =
      take (nat limit) (sent @ bytes)"
    and "limit - int (length captured) < int (length bytes) \<or> limit < int (length sent) \<longleftrightarrow>
      limit < int (length (sent @ bytes)) \<or> limit < int (length sent)"
proof -
  show "limit - int (length captured) < int (length bytes) \<or> limit < int (length sent) \<longleftrightarrow>
      limit < int (length (sent @ bytes)) \<or> limit < int (length sent)"
    using assms by (auto simp: min_def)
  show "captured @ take (nat (min (limit - int (length captured)) (int (length bytes)))) bytes =
      take (nat limit) (sent @ bytes)"
  proof (cases "length sent \<le> nat limit")
    case True
    then have "captured = sent" using assms by simp
    moreover have "nat (min (limit - int (length sent)) (int (length bytes))) = min (nat limit - length sent) (length bytes)"
      using assms(1) by linarith
    ultimately show ?thesis using True by (simp add: min_def)
  next
    case False
    then have "length captured = nat limit" using assms by simp
    then show ?thesis using False assms by simp
  qed
qed

lemma captures_Write: "captures pw w \<Longrightarrow> captures (probe_Write bytes pw) (http_Write bytes w)"
proof -
  assume captured: "captures pw w"
  let ?pw = "if \<not> pw_wroteHeader pw then probe_WriteHeader 200 pw else pw"
  let ?w = "http_WriteHeader 200 w"
  have committed: "captures ?pw ?w" "pw_wroteHeader ?pw"
    using captured captures_WriteHeader[OF captured, of 200]
    by (auto simp: informational_def captures_def http_WriteHeader_def probe_WriteHeader_def)
  have "0 \<le> pw_limit ?pw" "pw_body ?pw = take (nat (pw_limit ?pw)) (hw_body ?w)"
    using committed(1) by (auto simp: captures_def)
  note body = captured_body[OF this, of bytes]
  have written: "http_Write bytes w = ?w\<lparr>hw_body := hw_body ?w @ bytes\<rparr>" by (simp add: http_Write_def Let_def)
  have shorter: "length (pw_body ?pw) \<le> length (hw_body ?w)" using committed(1) by (simp add: captures_def)
  show ?thesis
    unfolding written using committed body shorter
    by (auto simp: probe_Write_def captures_def Let_def)
qed

lemma captures_respond:
  "captures pw w \<Longrightarrow> plain p w \<Longrightarrow>
     captures (fst (probe_respond p pw)) (fst (respond p w)) \<and> snd (probe_respond p pw) = snd (respond p w)"
proof (induction p arbitrary: pw w)
  case (EditHeader f p)
  have "captures (pw\<lparr>pw_header := f (pw_header pw)\<rparr>) (w\<lparr>hw_header := f (hw_header w)\<rparr>)"
    using EditHeader.prems(1) by (auto simp: captures_def)
  with EditHeader show ?case by simp
next
  case (ReadHeader p)
  have "pw_header pw = hw_header w" using ReadHeader.prems(1) by (simp add: captures_def)
  with ReadHeader show ?case by simp
qed (simp_all add: captures_WriteHeader captures_Write)

text \<open>\<^bold>\<open>A probe captures the response a server would send, cut at the limit.\<close> For a handler that neither
  flushes nor sends informational statuses, a probe within the allowed limit has the status and the
  headers of the handler's response, its first bytes up to the limit, and is marked truncated
  exactly when the handler wrote more; a panic of the handler goes to the caller. A missing handler
  or request or a limit out of range is refused before anything runs.\<close>

theorem probe_captures_response:
  assumes "plain (serve r) fresh_writer" and "0 \<le> maxBody" and "maxBody \<le> maximumProbeBody"
    and "respond (serve r) fresh_writer = (sent, panicked)"
  shows "(panicked = Some v \<longrightarrow> Probe (Some serve) (Some r) maxBody = Inr (Inl v)) \<and>
    (panicked = None \<longrightarrow> (\<exists>result. Probe (Some serve) (Some r) maxBody = Inr (Inr result) \<and>
      hw_status (http_finish sent) = Some (pr_Status result) \<and> pr_Header result = hw_header sent \<and>
      pr_Body result = take (nat maxBody) (hw_body sent) \<and>
      (pr_Truncated result \<longleftrightarrow> maxBody < int (length (hw_body sent)))))"
proof -
  have start: "captures (newProbeWriter maxBody) fresh_writer"
    using assms(2) by (auto simp: captures_def newProbeWriter_def fresh_writer_def)
  obtain pw where run: "probe_respond (serve r) (newProbeWriter maxBody) = (pw, panicked)" and captured: "captures pw sent"
    using captures_respond[OF start assms(1)] assms(4) by (metis prod.collapse fst_conv snd_conv)
  have limit: "pw_limit (fst (probe_respond p w)) = pw_limit w" for p w
    by (induction p arbitrary: w) (auto simp: probe_WriteHeader_def probe_Write_def probe_Flush_def Let_def)
  have "pw_limit pw = maxBody" using limit[of "serve r" "newProbeWriter maxBody"] run by (simp add: newProbeWriter_def)
  then show ?thesis
    using assms(2,3) run captured
    by (auto simp: Probe_def captures_def http_finish_def http_WriteHeader_def informational_def)
qed

theorem probe_captures_response_witness:
  "\<exists>result. Probe (Some (\<lambda>_. SendHeader 404 (SendBody ''abcdef'' Return)))
      (Some \<lparr>req_Method = ''GET'', req_path = ''/'', req_ContentLength = 0, req_Body = ClientBody []\<rparr>) 4 = Inr (Inr result) \<and>
     pr_Status result = 404 \<and> pr_Body result = ''abcd'' \<and> pr_Truncated result"
proof -
  let ?r = "\<lparr>req_Method = ''GET'', req_path = ''/'', req_ContentLength = 0, req_Body = ClientBody []\<rparr>"
  let ?serve = "\<lambda>_ :: http_request. SendHeader 404 (SendBody ''abcdef'' Return)"
  have "plain (?serve ?r) fresh_writer" "(4 :: int) \<le> maximumProbeBody" by (simp_all add: informational_def maximumProbeBody_def)
  from probe_captures_response[OF this(1) _ this(2) prod.collapse[symmetric]] show ?thesis
    by (auto simp: fresh_writer_def writer_defs informational_def http_finish_def)
qed

end
