(* ===== verification/Integration_Hooks.thy ===== *)
theory Integration_Hooks
  imports Observability
begin

section \<open>Integration hooks\<close>

text \<open>
  Models \<^verbatim>\<open>integration/integration.go\<close>: the options, the construction of a component from hooks of the
  caller, and the callbacks with the status they log. A configuration error of the package is its
  field and reason; hooks are operations as in the observability model.
\<close>

definition maximumLogAttributes :: nat where "maximumLogAttributes = 32"

record integration_hooks =
  ih_CloseAdmission :: bool
  ih_Start :: "operation option"
  ih_Stop :: "operation option"

record integration_config =
  ic_logger :: "log_attrs option"
  ic_loggerSet :: bool
  ic_attributes :: log_attrs

text \<open>The configuration type is not exported, so every option that is not nil comes from \<^verbatim>\<open>WithSlog\<close>.\<close>

datatype integration_option = WithSlog "log_attrs option" log_attrs

fun check_keys :: "nat \<Rightarrow> log_attrs \<Rightarrow> (string \<times> string) option" where
  "check_keys index [] = None"
| "check_keys index ((key, _) # rest) =
     (if trim_space key = [] then Some (indexed ''attributes'' index ''.Key'', ''must not be blank'')
      else check_keys (Suc index) rest)"

fun apply_integration :: "integration_option \<Rightarrow> integration_config \<Rightarrow> (string \<times> string) + integration_config" where
  "apply_integration (WithSlog logger attributes) cfg =
     (if logger = None then Inl (''logger'', ''must not be nil'')
      else if ic_loggerSet cfg then Inl (''logger'', ''must be configured once'')
      else if length attributes > maximumLogAttributes then Inl (''attributes'', ''exceeds hard limit'')
      else case check_keys 0 attributes of
        Some rejected \<Rightarrow> Inl rejected
      | None \<Rightarrow> Inr (cfg\<lparr>ic_logger := logger, ic_loggerSet := True, ic_attributes := attributes\<rparr>))"

fun apply_integrations ::
    "nat \<Rightarrow> integration_option option list \<Rightarrow> integration_config \<Rightarrow> (string \<times> string) + integration_config" where
  "apply_integrations index [] cfg = Inr cfg"
| "apply_integrations index (None # rest) cfg = Inl (indexed ''options'' index [], ''must not be nil'')"
| "apply_integrations index (Some opt # rest) cfg =
     (case apply_integration opt cfg of Inl rejected \<Rightarrow> Inl rejected | Inr cfg \<Rightarrow> apply_integrations (Suc index) rest cfg)"

definition logStatus :: "integration_config \<Rightarrow> string \<Rightarrow> string \<Rightarrow> emission list" where
  "logStatus cfg name message =
     (case ic_logger cfg of
        None \<Rightarrow> []
      | Some bound \<Rightarrow> [Logged LevelInfo message (bound @ [(''component'', LogString name)] @ ic_attributes cfg)])"

text \<open>
  A callback: it logs that it begins, runs the hook, and logs how the hook ended; a panic passes
  through with nothing logged after it.
\<close>

definition hook_callback :: "integration_config \<Rightarrow> string \<Rightarrow> string \<Rightarrow> string \<Rightarrow> string \<Rightarrow> operation option \<Rightarrow> operation" where
  "hook_callback cfg name beginning finished_message failed_message hook ctx =
     (case hook of
        None \<Rightarrow> (logStatus cfg name beginning @ logStatus cfg name finished_message, Returned NilErr)
      | Some op \<Rightarrow>
          let (emitted, result) = op ctx in
          (case result of
             Panicked v \<Rightarrow> (logStatus cfg name beginning @ emitted, Panicked v)
           | Returned err \<Rightarrow>
               if err \<noteq> NilErr then (logStatus cfg name beginning @ emitted @ logStatus cfg name failed_message, Returned err)
               else (logStatus cfg name beginning @ emitted @ logStatus cfg name finished_message, Returned NilErr)))"

definition integration_Start :: "integration_config \<Rightarrow> string \<Rightarrow> integration_hooks \<Rightarrow> operation" where
  "integration_Start cfg name h =
     hook_callback cfg name ''integration starting'' ''integration started'' ''integration start failed'' (ih_Start h)"

definition integration_Stop :: "integration_config \<Rightarrow> string \<Rightarrow> integration_hooks \<Rightarrow> operation" where
  "integration_Stop cfg name h =
     hook_callback cfg name ''integration stopping'' ''integration stopped'' ''integration stop failed'' (ih_Stop h)"

definition no_integration :: integration_config where
  "no_integration = \<lparr>ic_logger = None, ic_loggerSet = False, ic_attributes = []\<rparr>"

definition integration_New ::
    "string \<Rightarrow> integration_hooks \<Rightarrow> integration_option option list \<Rightarrow> (string \<times> string) + hooked_component" where
  "integration_New name h options =
     (if trim_space name = [] then Inl (''name'', ''must not be blank'')
      else case apply_integrations 0 options no_integration of
        Inl rejected \<Rightarrow> Inl rejected
      | Inr cfg \<Rightarrow> Inr \<lparr>hk_Name = name, hk_CloseAdmission = ih_CloseAdmission h,
          hk_Start = Some (integration_Start cfg name h), hk_Stop = Some (integration_Stop cfg name h)\<rparr>)"

subsection \<open>Accepted options\<close>

lemma check_keys_None: "check_keys i attributes = None \<longleftrightarrow> (\<forall>(key, _)\<in>set attributes. trim_space key \<noteq> [])"
  by (induction i attributes rule: check_keys.induct) auto

definition valid_slog :: "log_attrs \<Rightarrow> bool" where
  "valid_slog attributes \<longleftrightarrow> length attributes \<le> 32 \<and> (\<forall>(key, _)\<in>set attributes. trim_space key \<noteq> [])"

lemma apply_integration_Inr:
  "apply_integration (WithSlog logger attributes) cfg = Inr cfg' \<longleftrightarrow>
     logger \<noteq> None \<and> \<not> ic_loggerSet cfg \<and> valid_slog attributes \<and>
     cfg' = cfg\<lparr>ic_logger := logger, ic_loggerSet := True, ic_attributes := attributes\<rparr>"
  using check_keys_None[of 0 attributes]
  by (cases "check_keys 0 attributes") (auto simp: valid_slog_def maximumLogAttributes_def not_less)

lemma apply_integrations_set:
  "ic_loggerSet cfg \<Longrightarrow> apply_integrations i options cfg = Inr cfg' \<longleftrightarrow> options = [] \<and> cfg' = cfg"
proof (cases options)
  case (Cons opt rest)
  assume "ic_loggerSet cfg"
  with Cons show ?thesis by (cases opt; cases "the opt") (auto split: option.splits)
qed auto

lemma apply_integrations_Inr:
  "apply_integrations i options no_integration = Inr cfg \<longleftrightarrow>
     options = [] \<and> cfg = no_integration \<or>
     (\<exists>bound attributes. options = [Some (WithSlog (Some bound) attributes)] \<and> valid_slog attributes \<and>
        cfg = \<lparr>ic_logger = Some bound, ic_loggerSet = True, ic_attributes = attributes\<rparr>)"
proof (cases options)
  case (Cons opt rest)
  show ?thesis
  proof (cases opt)
    case (Some slog)
    obtain logger attributes where slog: "slog = WithSlog logger attributes" by (cases slog)
    have "apply_integrations i options no_integration = Inr cfg \<longleftrightarrow>
        (\<exists>cfg1. apply_integration slog no_integration = Inr cfg1 \<and> apply_integrations (Suc i) rest cfg1 = Inr cfg)"
      unfolding Cons Some by (auto split: sum.splits)
    also have "\<dots> \<longleftrightarrow> logger \<noteq> None \<and> valid_slog attributes \<and> rest = [] \<and>
        cfg = no_integration\<lparr>ic_logger := logger, ic_loggerSet := True, ic_attributes := attributes\<rparr>"
      unfolding slog apply_integration_Inr by (auto simp: no_integration_def apply_integrations_set)
    finally show ?thesis using Cons Some slog by (auto simp: no_integration_def)
  qed (simp add: Cons)
qed auto

subsection \<open>What the component does\<close>

fun messages_of :: "emission list \<Rightarrow> (string \<times> log_attrs) list" where
  "messages_of [] = []"
| "messages_of (Observed e # es) = messages_of es"
| "messages_of (Logged level message attrs # es) = (message, attrs) # messages_of es"

lemma messages_of_append [simp]: "messages_of (xs @ ys) = messages_of xs @ messages_of ys"
  by (induction xs rule: messages_of.induct) auto

definition status_line :: "integration_config \<Rightarrow> string \<Rightarrow> string \<Rightarrow> (string \<times> log_attrs) list" where
  "status_line cfg name message =
     (case ic_logger cfg of None \<Rightarrow> [] | Some bound \<Rightarrow> [(message, bound @ (''component'', LogString name) # ic_attributes cfg)])"

lemma messages_of_logStatus [simp]: "messages_of (logStatus cfg name message) = status_line cfg name message"
  by (simp add: logStatus_def status_line_def split: option.splits)

text \<open>The message after a hook that ended in the given way; a nil hook counts as one that returned nil.\<close>

definition closing_message :: "string \<Rightarrow> string \<Rightarrow> outcome \<Rightarrow> string option" where
  "closing_message succeeded failed result = (case result of
     Panicked _ \<Rightarrow> None
   | Returned err \<Rightarrow> Some (if err \<noteq> NilErr then failed else succeeded))"

definition run_hook :: "operation option \<Rightarrow> operation" where
  "run_hook hook = (case hook of None \<Rightarrow> \<lambda>_. ([], Returned NilErr) | Some op \<Rightarrow> op)"

lemma hook_callback_spec:
  "snd (hook_callback cfg name beginning succeeded failed hook ctx) = snd (run_hook hook ctx) \<and>
   messages_of (fst (hook_callback cfg name beginning succeeded failed hook ctx)) =
     status_line cfg name beginning @ messages_of (fst (run_hook hook ctx)) @
     (case closing_message succeeded failed (snd (run_hook hook ctx)) of None \<Rightarrow> [] | Some message \<Rightarrow> status_line cfg name message)"
  by (auto simp: hook_callback_def run_hook_def closing_message_def Let_def split: option.splits prod.splits outcome.splits)

text \<open>\<^bold>\<open>An integration component behaves as its hooks and logs each of their ends once.\<close> The options are
  accepted exactly when there are none or one \<^verbatim>\<open>WithSlog\<close> with a logger and at most 32 attributes with
  keys that are not blank. The component has the given name and admission hook; its Start and Stop
  end as the caller's hooks do, a nil hook as one that returns nil, errors and panics unchanged;
  around the hook they log that it begins and, unless it panics, whether it succeeded or failed,
  always with the component's name and the configured attributes, and nothing without a logger.\<close>

theorem integration_adapts_hooks:
  assumes "trim_space name \<noteq> []"
  shows "(integration_New name h options = Inr c \<longleftrightarrow>
      (\<exists>cfg. (options = [] \<and> cfg = no_integration \<or>
          (\<exists>bound attributes. options = [Some (WithSlog (Some bound) attributes)] \<and> valid_slog attributes \<and>
            cfg = \<lparr>ic_logger = Some bound, ic_loggerSet = True, ic_attributes = attributes\<rparr>)) \<and>
        c = \<lparr>hk_Name = name, hk_CloseAdmission = ih_CloseAdmission h,
          hk_Start = Some (integration_Start cfg name h), hk_Stop = Some (integration_Stop cfg name h)\<rparr>)) \<and>
    snd (integration_Start cfg name h ctx) = snd (run_hook (ih_Start h) ctx) \<and>
    snd (integration_Stop cfg name h ctx) = snd (run_hook (ih_Stop h) ctx) \<and>
    messages_of (fst (integration_Start cfg name h ctx)) =
      status_line cfg name ''integration starting'' @ messages_of (fst (run_hook (ih_Start h) ctx)) @
      (case closing_message ''integration started'' ''integration start failed'' (snd (run_hook (ih_Start h) ctx)) of
         None \<Rightarrow> [] | Some message \<Rightarrow> status_line cfg name message) \<and>
    messages_of (fst (integration_Stop cfg name h ctx)) =
      status_line cfg name ''integration stopping'' @ messages_of (fst (run_hook (ih_Stop h) ctx)) @
      (case closing_message ''integration stopped'' ''integration stop failed'' (snd (run_hook (ih_Stop h) ctx)) of
         None \<Rightarrow> [] | Some message \<Rightarrow> status_line cfg name message)"
proof -
  have "integration_New name h options = Inr c \<longleftrightarrow>
      (\<exists>cfg. apply_integrations 0 options no_integration = Inr cfg \<and>
        c = \<lparr>hk_Name = name, hk_CloseAdmission = ih_CloseAdmission h,
          hk_Start = Some (integration_Start cfg name h), hk_Stop = Some (integration_Stop cfg name h)\<rparr>)"
    using assms by (auto simp: integration_New_def split: sum.splits)
  then show ?thesis
    unfolding apply_integrations_Inr integration_Start_def integration_Stop_def by (simp add: hook_callback_spec)
qed

theorem integration_adapts_hooks_witness:
  "messages_of (fst (integration_Start \<lparr>ic_logger = Some [], ic_loggerSet = True, ic_attributes = []\<rparr> ''cache''
      \<lparr>ih_CloseAdmission = False, ih_Start = Some (\<lambda>_. ([], Returned (Sentinel Canceled))), ih_Stop = None\<rparr> 0)) =
     [(''integration starting'', [(''component'', LogString ''cache'')]),
      (''integration start failed'', [(''component'', LogString ''cache'')])]"
proof -
  have "trim_space ''cache'' \<noteq> []" by (simp add: trim_space_plain printable_def)
  from integration_adapts_hooks[OF this, where cfg = "\<lparr>ic_logger = Some [], ic_loggerSet = True, ic_attributes = []\<rparr>"
      and h = "\<lparr>ih_CloseAdmission = False, ih_Start = Some (\<lambda>_. ([], Returned (Sentinel Canceled))), ih_Stop = None\<rparr>" and ctx = 0]
  show ?thesis by (simp add: run_hook_def closing_message_def status_line_def)
qed

end
