(* ===== verification/Diagnostics.thy ===== *)
theory Diagnostics
  imports Exit_Codes Lifecycle
begin

section \<open>Diagnostics and the command boundary\<close>

text \<open>
  Models the \<^verbatim>\<open>Error\<close> methods of the module's error types and the boundary between command
  handlers and the command-line library in \<^verbatim>\<open>platform.go\<close>: \<^verbatim>\<open>commandResultError\<close>, the wrapped handlers of
  \<^verbatim>\<open>compileDefinition\<close> and \<^verbatim>\<open>renderError\<close>. Quoting of names (\<^verbatim>\<open>%q\<close>) and the texts of errors of other packages
  are arguments.
\<close>

subsection \<open>Texts\<close>

fun sentinel_text :: "(go_error \<Rightarrow> string) \<Rightarrow> sentinel \<Rightarrow> string" where
  "sentinel_text foreign ErrShutdown = ''service shutdown''"
| "sentinel_text foreign ErrInvalidConfig = ''invalid service configuration''"
| "sentinel_text foreign ErrInvalidState = ''invalid service state''"
| "sentinel_text foreign ErrSignal = ''service signal''"
| "sentinel_text foreign ErrMaintenance = ''service maintenance failure''"
| "sentinel_text foreign ErrInvalidDefinition = ''invalid service definition''"
| "sentinel_text foreign ErrResourceNotStarted = ''owned resource not started''"
| "sentinel_text foreign ErrResourceAlreadyStarted = ''owned resource already started''"
| "sentinel_text foreign ErrResourceClosed = ''owned resource closed''"
| "sentinel_text foreign ErrResourceNil = ''owned resource open returned nil''"
| "sentinel_text foreign ErrHandlersUnjoined = ''HTTP handlers remain unjoined''"
| "sentinel_text foreign HTTPInvalidConfig = ''invalid HTTP server configuration''"
| "sentinel_text foreign HTTPInvalidState = ''invalid HTTP server state''"
| "sentinel_text foreign HealthInvalidConfig = ''invalid health probe configuration''"
| "sentinel_text foreign s = foreign (Sentinel s)"

definition maintenance_operation :: "string \<Rightarrow> string" where
  "maintenance_operation operation =
     (if operation \<in> {''load'', ''enable'', ''disable'', ''status''} then operation else ''operation'')"

text \<open>\<^verbatim>\<open>errors.Join\<close> puts one text on each line.\<close>

fun lines :: "string list \<Rightarrow> string" where
  "lines [] = []"
| "lines [t] = t"
| "lines (t # u # ts) = t @ [char_of (10 :: nat)] @ lines (u # ts)"

fun error_text :: "(string \<Rightarrow> string) \<Rightarrow> (go_error \<Rightarrow> string) \<Rightarrow> go_error \<Rightarrow> string" where
  "error_text q foreign NilErr = ''<nil>''"
| "error_text q foreign (Sentinel s) = sentinel_text foreign s"
| "error_text q foreign (ErrorString _ message) = message"
| "error_text q foreign (ConfigError _ field reason) =
     field @ '': '' @ reason @ '': '' @ sentinel_text foreign ErrInvalidConfig"
| "error_text q foreign (StateError _ operation state) =
     ''cannot '' @ operation @ '' service in '' @ state_string state @ '' state: '' @ sentinel_text foreign ErrInvalidState"
| "error_text q foreign (ComponentError _ component operation _) = operation @ '' component '' @ q component @ '' failed''"
| "error_text q foreign (PanicError _ component operation _) = operation @ '' component '' @ q component @ '' panicked''"
| "error_text q foreign (StartupError _ component _ undone) =
     (if undone = [] then ''start component '' @ q component @ '' failed''
      else ''start component '' @ q component @ '' failed; rollback failed with '' @ itoa (length undone) @ '' error(s)'')"
| "error_text q foreign (ShutdownError _ failures) =
     ''service shutdown failed with '' @ itoa (length failures) @ '' error(s)''"
| "error_text q foreign (SignalError _ _) = sentinel_text foreign ErrSignal"
| "error_text q foreign (DefinitionError _ field reason) =
     field @ '': '' @ reason @ '': '' @ sentinel_text foreign ErrInvalidDefinition"
| "error_text q foreign (ConfigurationError _ command _) = ''load '' @ command @ '' configuration failed''"
| "error_text q foreign (ConstructionError _ command _) = ''construct '' @ command @ '' failed''"
| "error_text q foreign (ShutdownTimeoutError _ _) = ''service shutdown deadline exceeded''"
| "error_text q foreign (MaintenanceError _ operation _) =
     ''maintenance '' @ maintenance_operation operation @ '' failed: '' @ sentinel_text foreign ErrMaintenance"
| "error_text q foreign (HTTPConfigError _ field reason) =
     field @ '': '' @ reason @ '': '' @ sentinel_text foreign HTTPInvalidConfig"
| "error_text q foreign (HTTPStateError _ operation state) =
     ''cannot '' @ operation @ '' HTTP server in '' @ state @ '' state: '' @ sentinel_text foreign HTTPInvalidState"
| "error_text q foreign (ServeError _ err) = ''serve HTTP: '' @ error_text q foreign err"
| "error_text q foreign (RunError _ failures) = ''stop HTTP server failed with '' @ itoa (length failures) @ '' error(s)''"
| "error_text q foreign (JoinError _ errs) = lines (map (error_text q foreign) errs)"
| "error_text q foreign (CliErr a kind w) = foreign (CliErr a kind w)"
| "error_text q foreign (AppErr a shape targets stored w) = foreign (AppErr a shape targets stored w)"

definition renderError :: "(string \<Rightarrow> string) \<Rightarrow> (go_error \<Rightarrow> string) \<Rightarrow> go_error \<Rightarrow> string" where
  "renderError q foreign err = error_text q foreign err @ [char_of (10 :: nat)]"

subsection \<open>Command results\<close>

text \<open>
  What the \<^verbatim>\<open>Is\<close> and \<^verbatim>\<open>As\<close> methods of \<^verbatim>\<open>commandResultError\<close> accept: the targets and the values that the
  bounded walk finds in its cause. The error itself has no \<^verbatim>\<open>Unwrap\<close>.
\<close>

fun hook_targets :: "go_error \<Rightarrow> go_error list" where
  "hook_targets (AppErr _ _ targets _ _) = targets"
| "hook_targets _ = []"

fun hook_values :: "go_error \<Rightarrow> go_error list" where
  "hook_values (AppErr _ _ _ stored _) = stored"
| "hook_values _ = []"

definition result_targets :: "go_error \<Rightarrow> go_error list" where
  "result_targets cause =
     concat (map (\<lambda>t. (if comparable t then [t] else []) @ filter (\<lambda>x. x \<noteq> NilErr) (hook_targets t)) (preorder cause))"

definition result_values :: "go_error \<Rightarrow> go_error list" where
  "result_values cause = concat (map (\<lambda>t. t # hook_values t) (preorder cause))"

definition commandResultError :: "addr \<Rightarrow> go_error \<Rightarrow> go_error" where
  "commandResultError a cause = AppErr a ComparableShape (result_targets cause) (result_values cause) NoUnwrap"

definition commandResultError_text :: string where
  "commandResultError_text = ''service command failed''"

text \<open>The wrapped handler: the error it leaves in the execution state and the error the library gets.\<close>

definition wrapped_handler :: "addr \<Rightarrow> go_error \<Rightarrow> go_error \<times> go_error" where
  "wrapped_handler a err = (err, if err = NilErr then NilErr else commandResultError a err)"

subsection \<open>Causes stay out of diagnostics\<close>

text \<open>
  An error with its callback causes, panic values and failures replaced by nothing; how many
  failures there were is kept.
\<close>

fun redact :: "go_error \<Rightarrow> go_error" where
  "redact (ComponentError a c operation _) = ComponentError a c operation NilErr"
| "redact (PanicError a c operation _) = PanicError a c operation 0"
| "redact (StartupError a c _ undone) = StartupError a c NilErr (map (\<lambda>_. NilErr) undone)"
| "redact (ShutdownError a failures) = ShutdownError a (map (\<lambda>_. NilErr) failures)"
| "redact (SignalError a _) = SignalError a Interrupt"
| "redact (ConfigurationError a c _) = ConfigurationError a c NilErr"
| "redact (ConstructionError a c _) = ConstructionError a c NilErr"
| "redact (ShutdownTimeoutError a _) = ShutdownTimeoutError a NilErr"
| "redact (MaintenanceError a operation _) = MaintenanceError a operation NilErr"
| "redact (RunError a failures) = RunError a (map (\<lambda>_. NilErr) failures)"
| "redact (JoinError a errs) = JoinError a (map redact errs)"
| "redact e = e"

text \<open>The errors whose text is the module's own: no error of another package and no \<^verbatim>\<open>ServeError\<close> at the top.\<close>

fun own_text :: "go_error \<Rightarrow> bool" where
  "own_text (ServeError _ _) = False"
| "own_text (CliErr _ _ _) = False"
| "own_text (AppErr _ _ _ _ _) = False"
| "own_text (Sentinel s) = (s \<notin> {ErrServerClosed, NetErrClosed, Canceled, DeadlineExceeded})"
| "own_text (JoinError _ errs) = list_all own_text errs"
| "own_text _ = True"

lemma sentinel_own:
  "s \<notin> {ErrServerClosed, NetErrClosed, Canceled, DeadlineExceeded} \<Longrightarrow> sentinel_text foreign s = sentinel_text foreign' s"
  by (cases s) auto

lemma error_text_redacted: "own_text e \<Longrightarrow> error_text q foreign e = error_text q foreign' (redact e)"
proof (induction e rule: redact.induct)
  case (11 a errs)
  then have "map (error_text q foreign) errs = map (error_text q foreign') (map redact errs)"
    by (simp add: list_all_iff)
  then show ?case by (simp only: error_text.simps redact.simps)
qed (auto intro: sentinel_own)

lemma find_concat: "find P (concat xss) = (case find (\<lambda>xs. find P xs \<noteq> None) xss of None \<Rightarrow> None | Some xs \<Rightarrow> find P xs)"
  by (induction xss) (auto simp: find_append split: option.splits)

lemma as_hook_values: "as_hook t ty = find ty (hook_values t)"
  by (cases t) simp_all

lemma is_hook_targets: "is_hook t target \<longleftrightarrow> target \<in> set (hook_targets t)"
  by (cases t) simp_all

lemma find_map: "find P (map f xs) = map_option f (find (P \<circ> f) xs)"
  by (induction xs) auto

lemma find_result_values: "find ty (result_values cause) = classificationAs ty cause"
proof -
  have hit: "find ty (t # hook_values t) \<noteq> None \<longleftrightarrow> ty t \<or> as_hook t ty \<noteq> None" for t
    by (auto simp: as_hook_values)
  show ?thesis
    unfolding result_values_def find_concat find_map classificationAs_def walk_finds_first comp_def hit
    by (auto simp: as_hook_values split: option.splits)
qed

lemma preorder_result: "preorder (commandResultError a cause) = [commandResultError a cause]"
  by (simp add: commandResultError_def preorder_node children_def)

lemma result_As:
  assumes "\<not> ty (commandResultError a cause)"
  shows "classificationAs ty (commandResultError a cause) = classificationAs ty cause"
proof -
  have hook: "as_hook (commandResultError a cause) ty = classificationAs ty cause"
    by (simp add: commandResultError_def find_result_values)
  show ?thesis
    using assms unfolding classificationAs_def[of ty "commandResultError a cause"] walk_finds_first preorder_result hook
    by (simp add: hook split: option.splits)
qed

lemma result_Is:
  assumes "cause \<noteq> NilErr" and "target \<noteq> NilErr"
  shows "classificationIs (commandResultError a cause) target \<longleftrightarrow>
    target = commandResultError a cause \<or> classificationIs cause target"
proof -
  have present: "commandResultError a cause \<noteq> NilErr" "comparable (commandResultError a cause)"
    by (simp_all add: commandResultError_def)
  have hook: "is_hook (commandResultError a cause) target \<longleftrightarrow> classificationIs cause target"
    unfolding classificationIs_iff[OF assms]
    using assms(2) by (auto simp: commandResultError_def result_targets_def is_hook_targets)
  show ?thesis
    unfolding classificationIs_iff[OF present(1) assms(2)] preorder_result using hook present(2) by auto
qed


text \<open>\<^bold>\<open>Diagnostics of the module never show what a callback failed with.\<close> The text of every error of the
  module's own types, joins of them included, is the text of the same error without its causes,
  panic values and failures: it depends on names, fields, reasons and the number of failures only,
  whatever the errors of applications and other packages say.\<close>

theorem diagnostics_hide_causes:
  assumes "own_text err" and "own_text err'" and "redact err = redact err'"
  shows "renderError q foreign err = renderError q foreign' err'"
  using error_text_redacted[OF assms(1), of q foreign foreign'] error_text_redacted[OF assms(2), of q foreign' foreign'] assms(3)
  by (simp add: renderError_def)

theorem diagnostics_hide_causes_witness:
  "renderError (\<lambda>s. s) (\<lambda>_. ''password'') (ConfigurationError 1 ''serve'' (AppErr 2 OpaqueShape [] [] NoUnwrap)) =
   renderError (\<lambda>s. s) (\<lambda>_. ''other'') (ConfigurationError 1 ''serve'' (ErrorString 3 ''different''))"
  using diagnostics_hide_causes[of "ConfigurationError 1 ''serve'' (AppErr 2 OpaqueShape [] [] NoUnwrap)"
      "ConfigurationError 1 ''serve'' (ErrorString 3 ''different'')"] by simp

subsection \<open>The command boundary keeps the classification\<close>

lemma not_result_type:
  "\<not> is_ShutdownTimeoutError (commandResultError a e)" "\<not> is_ShutdownError (commandResultError a e)"
  "\<not> is_SignalError (commandResultError a e)" "\<not> is_ConfigurationError (commandResultError a e)"
  "\<not> is_StartupError (commandResultError a e)" "\<not> is_MaintenanceError (commandResultError a e)"
  "\<not> is_ConstructionError (commandResultError a e)" "\<not> is_CliErr (commandResultError a e)"
  "commandResultError a e \<noteq> Sentinel s" "commandResultError a e \<noteq> NilErr"
  by (simp_all add: commandResultError_def)

lemma result_urgency: "cause \<noteq> NilErr \<Longrightarrow> urgency (commandResultError a cause) = urgency cause"
  using not_result_type(9)[of a cause ErrInvalidDefinition]
  by (auto simp: urgency_def asks_def result_As not_result_type(1-8) result_Is)

lemma cli_preorder: "preorder (CliErr b kind (UnwrapOne e)) = CliErr b kind (UnwrapOne e) # preorder e"
  by (cases "e = NilErr") (simp_all add: preorder_node children_def)

lemma cli_As: "\<not> ty (CliErr b kind (UnwrapOne e)) \<Longrightarrow> classificationAs ty (CliErr b kind (UnwrapOne e)) = classificationAs ty e"
  by (simp add: classificationAs_def walk_finds_first cli_preorder)

lemma cli_Is:
  "e \<noteq> NilErr \<Longrightarrow> target \<noteq> NilErr \<Longrightarrow> target \<noteq> CliErr b kind (UnwrapOne e) \<Longrightarrow>
     classificationIs (CliErr b kind (UnwrapOne e)) target \<longleftrightarrow> classificationIs e target"
  by (simp add: classificationIs_iff cli_preorder)

lemma cli_urgency: "e \<noteq> NilErr \<Longrightarrow> urgency (CliErr b kind (UnwrapOne e)) = min (urgency e) 8"
proof -
  assume e: "e \<noteq> NilErr"
  have As: "classificationAs is_CliErr (CliErr b kind (UnwrapOne e)) = Some (CliErr b kind (UnwrapOne e))"
    by (rule As_direct) simp_all
  show ?thesis
    using e by (auto simp: urgency_def asks_def cli_As cli_Is As)
qed

lemma boundary_exit:
  assumes "err \<noteq> NilErr" and "comparable err"
  shows "Execute c True True True NilErr CtxActive \<lparr>ex_selected = selected, ex_commandErr = err\<rparr>
      \<lparr>cr_Err = CliErr b ErrorKindCommand (UnwrapOne (commandResultError a err)), cr_ExitCode = code\<rparr> = exitCodeWithDefault err 1"
proof -
  let ?returned = "commandResultError a err"
  let ?cli = "CliErr b ErrorKindCommand (UnwrapOne ?returned)"
  have self: "classificationIs err err"
    using assms by (simp add: classificationIs_iff preorder_node)
  have "classificationIs ?returned err" using result_Is[OF assms(1,1), of a] self by simp
  then have found: "classificationIs ?cli err"
    using assms(1) not_result_type(10)[of a err] by (auto simp: classificationIs_iff cli_preorder)
  have "Execute c True True True NilErr CtxActive \<lparr>ex_selected = selected, ex_commandErr = err\<rparr> \<lparr>cr_Err = ?cli, cr_ExitCode = code\<rparr> =
      exitCode (errors_join c [err, ?cli])"
    using assms(1) found by (simp add: Execute_def)
  also have "\<dots> = (if urgency err \<le> urgency ?cli then exitCodeWithDefault err 70 else exitCodeWithDefault ?cli 70)"
    unfolding exitCode_def using join_exit[OF assms(1)] by simp
  also have "\<dots> = exitCodeWithDefault err 1"
  proof -
    have cli: "urgency ?cli = min (urgency err) 8"
      using cli_urgency[of ?returned b ErrorKindCommand] result_urgency[OF assms(1), of a] not_result_type(10)[of a err] by simp
    show ?thesis
    proof (cases "urgency err \<le> 8")
      case True
      then show ?thesis using cli by (simp add: exit_by_urgency class_code_def)
    next
      case False
      have "classificationAs is_CliErr ?cli = Some ?cli" by (rule As_direct) simp_all
      with False cli show ?thesis by (simp add: exit_by_urgency class_code_def cli_exit_def)
    qed
  qed
  finally show ?thesis .
qed

text \<open>\<^bold>\<open>The command-line library sees only that the command failed, and the exit code is still the
  command's own.\<close> The error a handler hands to the library has a fixed text and no causes to unwrap,
  yet every bounded search through it finds what it finds in the handler's error. When the library
  reports it as a failed command and the caller's context is active, \<^verbatim>\<open>Execute\<close> returns the exit code
  of the handler's error, and 1 for an error of no known class.\<close>

theorem command_boundary_keeps_classification:
  assumes "err \<noteq> NilErr" and "comparable err" and "wrapped_handler a err = (commandErr, returned)"
    and "target \<noteq> NilErr" and "target \<noteq> returned" and "\<not> ty returned"
    and "result = \<lparr>cr_Err = CliErr b ErrorKindCommand (UnwrapOne returned), cr_ExitCode = code\<rparr>"
  shows "unwrap returned = NoUnwrap \<and>
    (classificationIs returned target \<longleftrightarrow> classificationIs err target) \<and>
    classificationAs ty returned = classificationAs ty err \<and>
    Execute c True True True NilErr CtxActive \<lparr>ex_selected = selected, ex_commandErr = commandErr\<rparr> result =
      exitCodeWithDefault err 1"
proof -
  have wrapped: "commandErr = err" "returned = commandResultError a err"
    using assms(1,3) by (auto simp: wrapped_handler_def)
  show ?thesis
    using boundary_exit[OF assms(1,2)] wrapped assms(7) result_Is[OF assms(1,4), of a] result_As[of ty a err] assms(5,6)
    by (simp add: commandResultError_def)
qed

theorem command_boundary_keeps_classification_witness:
  "Execute 9 True True True NilErr CtxActive \<lparr>ex_selected = Some CommandKindOneShot, ex_commandErr = ConfigurationError 1 ''serve'' NilErr\<rparr>
     \<lparr>cr_Err = CliErr 2 ErrorKindCommand (UnwrapOne (commandResultError 3 (ConfigurationError 1 ''serve'' NilErr))), cr_ExitCode = 1\<rparr> = 78"
proof -
  let ?err = "ConfigurationError 1 ''serve'' NilErr"
  have "wrapped_handler 3 ?err = (?err, commandResultError 3 ?err)" by (simp add: wrapped_handler_def)
  from command_boundary_keeps_classification[OF _ _ this _ _ _ refl, where target = "Sentinel Canceled" and ty = "\<lambda>_. False"]
  have "Execute 9 True True True NilErr CtxActive \<lparr>ex_selected = Some CommandKindOneShot, ex_commandErr = ?err\<rparr>
     \<lparr>cr_Err = CliErr 2 ErrorKindCommand (UnwrapOne (commandResultError 3 ?err)), cr_ExitCode = 1\<rparr> = exitCodeWithDefault ?err 1"
    by (simp add: commandResultError_def)
  then show ?thesis
    by (simp add: exitCodeWithDefault_def classificationAs_def classificationIs_def walk_finds_first preorder_node children_def)
qed

end
