(* ===== verification/Adoption.thy ===== *)
theory Adoption
  imports Plan
begin

section \<open>The adopting services\<close>

text \<open>
  Models \<^verbatim>\<open>integration/adoption/{postal,track,location}.go\<close>: the definitions three services hand to the platform. A command is
  its registration with its build function, from what its load callback did to a plan; the plans,
  components and tasks are the applications' own.
\<close>

record 'c adopted_command =
  ac_registration :: registration
  ac_build :: "addr \<Rightarrow> 'c Commands.call \<Rightarrow> go_error + plan"

text \<open>\<^verbatim>\<open>service.CommandFor\<close> on a specification whose build callback returns a captured plan.\<close>

definition role_command :: "string \<Rightarrow> string \<Rightarrow> command_kind \<Rightarrow> bool \<Rightarrow> plan \<Rightarrow> 'c adopted_command" where
  "role_command name summary kind load captured =
     \<lparr>ac_registration = CommandFor name summary kind [] load True,
      ac_build = (\<lambda>a loaded. command_build a name loaded (\<lambda>_. CallReturned (Inr captured)))\<rparr>"

record 'c adopted =
  ad_Identity :: identity
  ad_Management :: management_config
  ad_Serve :: "'c adopted_command option"
  ad_Worker :: "'c adopted_command option"
  ad_Schedule :: "'c adopted_command option"
  ad_Migrate :: "'c adopted_command option"
  ad_Custom :: "'c adopted_command option list"

definition adopted_commands :: "'c adopted \<Rightarrow> commands" where
  "adopted_commands d =
     \<lparr>cmd_Serve = map_option ac_registration (ad_Serve d), cmd_Worker = map_option ac_registration (ad_Worker d),
      cmd_Schedule = map_option ac_registration (ad_Schedule d), cmd_Migrate = map_option ac_registration (ad_Migrate d),
      cmd_Custom = map (map_option ac_registration) (ad_Custom d)\<rparr>"

definition empty_plan :: plan where
  "empty_plan =
     \<lparr>pl_ShutdownTimeout = 0, pl_ComponentStopTimeout = 0, pl_StartupTimeout = 0, pl_RollbackTimeout = 0,
      pl_Components = [], pl_Tasks = [], pl_HTTP = None, pl_Readiness = [], pl_Management = False,
      pl_ManagementConfig = None\<rparr>"

subsection \<open>Postal\<close>

record 'c postal =
  po_Identity :: identity
  po_Load :: bool
  po_Management :: management_config
  po_Serve :: plan
  po_Worker :: plan
  po_Schedule :: plan
  po_Migrate :: "'c adopted_command option"

definition PostalDefinition :: "'c postal \<Rightarrow> 'c adopted" where
  "PostalDefinition input =
     \<lparr>ad_Identity = po_Identity input, ad_Management = po_Management input,
      ad_Serve = Some (role_command ''serve'' ''serve Postal JSON-RPC search'' CommandKindLongRunning (po_Load input) (po_Serve input)),
      ad_Worker = Some (role_command ''worker'' ''run Postal queue work'' CommandKindLongRunning (po_Load input) (po_Worker input)),
      ad_Schedule = Some (role_command ''schedule'' ''run Postal schedules'' CommandKindLongRunning (po_Load input) (po_Schedule input)),
      ad_Migrate = po_Migrate input, ad_Custom = []\<rparr>"

subsection \<open>Track\<close>

record track =
  tr_Identity :: identity
  tr_Load :: bool
  tr_Management :: management_config
  tr_Telemetry :: component
  tr_Postgres :: component
  tr_PostgresReadiness :: named_callback
  tr_Kafka :: component
  tr_KafkaReadiness :: named_callback
  tr_HTTP :: http_plan
  tr_Worker :: named_callback

definition track_components :: "track \<Rightarrow> component list" where
  "track_components input = [tr_Telemetry input, tr_Postgres input, tr_Kafka input]"

definition track_readiness :: "track \<Rightarrow> named_callback list" where
  "track_readiness input =
     (if nc_Run (tr_PostgresReadiness input) then [tr_PostgresReadiness input] else []) @
     (if nc_Run (tr_KafkaReadiness input) then [tr_KafkaReadiness input] else [])"

definition track_serve_plan :: "track \<Rightarrow> plan" where
  "track_serve_plan input =
     empty_plan\<lparr>pl_Components := track_components input, pl_HTTP := Some (tr_HTTP input), pl_Readiness := track_readiness input\<rparr>"

definition track_worker_plan :: "track \<Rightarrow> plan" where
  "track_worker_plan input =
     empty_plan\<lparr>pl_Components := track_components input, pl_Tasks := [tr_Worker input], pl_Readiness := track_readiness input\<rparr>"

definition TrackDefinition :: "track \<Rightarrow> unit adopted" where
  "TrackDefinition input =
     \<lparr>ad_Identity = tr_Identity input, ad_Management = tr_Management input,
      ad_Serve = Some (role_command ''serve'' ''serve Track HTTP and RPC traffic'' CommandKindLongRunning (tr_Load input) (track_serve_plan input)),
      ad_Worker = Some (role_command ''worker'' ''run Track carrier work'' CommandKindLongRunning (tr_Load input) (track_worker_plan input)),
      ad_Schedule = None, ad_Migrate = None, ad_Custom = []\<rparr>"

subsection \<open>Location\<close>

record location =
  lo_Identity :: identity
  lo_Load :: bool
  lo_Management :: management_config
  lo_API :: plan
  lo_Worker :: plan
  lo_Schedule :: plan
  lo_Migrate :: "unit adopted_command option"
  lo_OnlineMigrate :: named_callback
  lo_Activate :: named_callback

definition LocationDefinition :: "location \<Rightarrow> unit adopted" where
  "LocationDefinition input =
     \<lparr>ad_Identity = lo_Identity input, ad_Management = lo_Management input,
      ad_Serve = Some (role_command ''serve'' ''serve Location lookup traffic'' CommandKindLongRunning (lo_Load input) (lo_API input)),
      ad_Worker = Some (role_command ''worker'' ''run Location catalogue work'' CommandKindLongRunning (lo_Load input) (lo_Worker input)),
      ad_Schedule = Some (role_command ''schedule'' ''run Location schedules'' CommandKindLongRunning (lo_Load input) (lo_Schedule input)),
      ad_Migrate = lo_Migrate input,
      ad_Custom =
        [Some (role_command ''online-migrate'' ''reconcile Location data online'' CommandKindOneShot (lo_Load input)
           (empty_plan\<lparr>pl_Tasks := [lo_OnlineMigrate input]\<rparr>)),
         Some (role_command ''activate'' ''activate a reconciled Location catalogue'' CommandKindOneShot (lo_Load input)
           (empty_plan\<lparr>pl_Tasks := [lo_Activate input]\<rparr>))]\<rparr>"

subsection \<open>The definitions compile\<close>

lemma role_names:
  "validCommandName ''serve'' \<and> validCommandName ''worker'' \<and> validCommandName ''schedule'' \<and> validCommandName ''migrate'' \<and>
   validCommandName ''activate''"
  by (simp add: validCommandName_iff kebab_letters lower_def)

lemma online_migrate_name: "validCommandName ''online-migrate''"
proof -
  have "kebab_case ''online-migrate''"
    unfolding kebab_case_def
    by (rule exI[of _ "[''online'', ''migrate'']"]) (simp add: kebab_word_def lower_def)
  then show ?thesis by (simp add: validCommandName_iff)
qed

text \<open>What the owning module's migrate command must be: the standard one-shot command, complete.\<close>

definition migrate_ok :: "'c adopted_command option \<Rightarrow> bool" where
  "migrate_ok m =
     (case m of
        None \<Rightarrow> True
      | Some c \<Rightarrow> reg_name (ac_registration c) = ''migrate'' \<and> reg_kind (ac_registration c) = CommandKindOneShot \<and>
          reg_invalid (ac_registration c) = [])"

lemmas adoption_defs =
  PostalDefinition_def TrackDefinition_def LocationDefinition_def adopted_commands_def role_command_def
  definitionCommands_def standard_commands_def CommandFor_def isStandardCommand_def migrate_ok_def

text \<open>\<^bold>\<open>The adopted definitions offer exactly their roles.\<close> With a load callback and, where there is one, a
  complete migrate command, the platform accepts the command tables of all three services and
  registers the roles in the documented order; without a load callback it rejects each of them.\<close>

theorem adopted_roles_register:
  "(migrate_ok (po_Migrate p) \<longrightarrow> (case definitionCommands a (adopted_commands (PostalDefinition p)) of
      Inr regs \<Rightarrow> po_Load p \<and> map reg_name regs = [''serve'', ''worker'', ''schedule''] @ (if po_Migrate p = None then [] else [''migrate''])
    | Inl err \<Rightarrow> \<not> po_Load p)) \<and>
   (case definitionCommands a (adopted_commands (TrackDefinition t)) of
      Inr regs \<Rightarrow> tr_Load t \<and> map reg_name regs = [''serve'', ''worker'']
    | Inl err \<Rightarrow> \<not> tr_Load t) \<and>
   (migrate_ok (lo_Migrate l) \<longrightarrow> (case definitionCommands a (adopted_commands (LocationDefinition l)) of
      Inr regs \<Rightarrow> lo_Load l \<and> map reg_name regs =
        [''serve'', ''worker'', ''schedule''] @ (if lo_Migrate l = None then [] else [''migrate'']) @ [''online-migrate'', ''activate'']
    | Inl err \<Rightarrow> \<not> lo_Load l))"
proof (intro conjI impI)
  assume "migrate_ok (po_Migrate p)"
  then show "case definitionCommands a (adopted_commands (PostalDefinition p)) of
      Inr regs \<Rightarrow> po_Load p \<and> map reg_name regs = [''serve'', ''worker'', ''schedule''] @ (if po_Migrate p = None then [] else [''migrate''])
    | Inl err \<Rightarrow> \<not> po_Load p"
    using role_names by (cases "po_Migrate p") (simp_all add: adoption_defs Let_def)
next
  show "case definitionCommands a (adopted_commands (TrackDefinition t)) of
      Inr regs \<Rightarrow> tr_Load t \<and> map reg_name regs = [''serve'', ''worker'']
    | Inl err \<Rightarrow> \<not> tr_Load t"
    using role_names by (simp add: adoption_defs Let_def)
next
  assume "migrate_ok (lo_Migrate l)"
  then show "case definitionCommands a (adopted_commands (LocationDefinition l)) of
      Inr regs \<Rightarrow> lo_Load l \<and> map reg_name regs =
        [''serve'', ''worker'', ''schedule''] @ (if lo_Migrate l = None then [] else [''migrate'']) @ [''online-migrate'', ''activate'']
    | Inl err \<Rightarrow> \<not> lo_Load l"
    using role_names online_migrate_name by (cases "lo_Migrate l") (simp_all add: adoption_defs Let_def)
qed

subsection \<open>Each role runs its own plan\<close>

lemma role_build:
  "ac_build (role_command name summary kind load captured) a loaded =
     (case contained a name ''load configuration'' loaded of
        Inl err \<Rightarrow> Inl (ConfigurationError a name err) | Inr _ \<Rightarrow> Inr captured)"
  by (auto simp: role_command_def command_build_def loadCommandConfiguration_def buildCommandPlan_def split: sum.splits)

lemma planned_components:
  "plan_service a configured maintained command p = Inr s \<Longrightarrow> components s = plan_components (reg_kind command) maintained p"
  by (auto simp: plan_service_Inr New_Inr plan_config_def)

text \<open>\<^bold>\<open>Track starts its infrastructure before it serves.\<close> Whatever the load callback returned, a serve plan the
  platform accepts is Track's own: behind the management listener and the maintenance state it
  starts telemetry, PostgreSQL and Kafka, in this order, and the business server last, so they stop
  in the reverse order; the worker role has the same infrastructure, its one task and no server;
  and both check readiness of exactly the dependencies that have a check.\<close>

theorem track_roles_ordered:
  assumes "ac_build (the (ad_Serve (TrackDefinition t))) a loaded = Inr served"
    and "plan_service a configured maintained (ac_registration (the (ad_Serve (TrackDefinition t)))) served = Inr s"
    and "ac_build (the (ad_Worker (TrackDefinition t))) a loaded = Inr worked"
  shows "components s = management_component # (if maintained then [maintenance_component] else []) @
      [tr_Telemetry t, tr_Postgres t, tr_Kafka t, business_component (tr_HTTP t)] \<and>
    pl_Components worked = [tr_Telemetry t, tr_Postgres t, tr_Kafka t] \<and> pl_Tasks worked = [tr_Worker t] \<and> pl_HTTP worked = None \<and>
    pl_Readiness served = filter nc_Run [tr_PostgresReadiness t, tr_KafkaReadiness t] \<and> pl_Readiness worked = pl_Readiness served"
proof -
  have "served = track_serve_plan t" "worked = track_worker_plan t"
    using assms(1,3) by (auto simp: TrackDefinition_def role_build split: sum.splits)
  then show ?thesis
    using planned_components[OF assms(2)]
    by (auto simp: TrackDefinition_def role_command_def CommandFor_def track_serve_plan_def track_worker_plan_def empty_plan_def
        track_components_def track_readiness_def plan_components_def)
qed

end
