(* ===== verification/Reference_Platform.thy ===== *)
theory Reference_Platform
  imports Adoption Http_Handlers
begin

section \<open>The platform reference\<close>

text \<open>
  Models \<^verbatim>\<open>integration/reference-platform/reference.go\<close> and the process around it: validation, the definition, the registered
  handlers, the dependency check and the probe of temporary storage. The URL parser, the HTTP
  client, the operating system and the JSON encoder are arguments.
\<close>

definition platform_ErrInvalidConfig :: go_error where
  "platform_ErrInvalidConfig = ErrorString 941 ''reference platform config is invalid''"

definition platform_ErrDependencyUnavailable :: go_error where
  "platform_ErrDependencyUnavailable = ErrorString 942 ''reference platform dependency is unavailable''"

record reference_platform_config =
  rp_BusinessAddress :: string
  rp_ManagementAddress :: string
  rp_BusinessListener :: "listener option"
  rp_ManagementListener :: "listener option"
  rp_DependencyURL :: string
  rp_Client :: bool

text \<open>\<open>parse\<close> is \<^verbatim>\<open>url.Parse\<close>: scheme and host.\<close>

definition validate :: "(string \<Rightarrow> go_error + string \<times> string) \<Rightarrow> reference_platform_config \<Rightarrow> go_error" where
  "validate parse config =
     (if \<not> rp_Client config \<or> (rp_BusinessAddress config = [] \<and> rp_BusinessListener config = None) \<or>
         (rp_ManagementAddress config = [] \<and> rp_ManagementListener config = None) then platform_ErrInvalidConfig
      else case parse (rp_DependencyURL config) of
        Inl err \<Rightarrow> platform_ErrInvalidConfig
      | Inr (scheme, host) \<Rightarrow> if scheme \<noteq> ''https'' \<or> host = [] then platform_ErrInvalidConfig else NilErr)"

subsection \<open>The dependency check\<close>

text \<open>\<open>answered\<close> is what the client did with the request: an error, or the status of the response, the body of which is drained and closed.\<close>

definition checkDependency :: "go_error \<Rightarrow> go_error + int \<Rightarrow> go_error" where
  "checkDependency requestErr answered =
     (if requestErr \<noteq> NilErr then platform_ErrDependencyUnavailable
      else case answered of
        Inl err \<Rightarrow> platform_ErrDependencyUnavailable
      | Inr status \<Rightarrow> if status < 200 \<or> 300 \<le> status then platform_ErrDependencyUnavailable else NilErr)"

subsection \<open>Temporary storage\<close>

record storage_calls =
  st_create :: "string option"
  st_write :: bool
  st_close :: bool
  st_remove :: bool

text \<open>The answer with the closes and removals of the created file; both are attempted on every path after creation.\<close>

datatype storage_act = CloseFile | RemoveFile

definition verifyTemporaryStorage :: "storage_calls \<Rightarrow> bool \<times> storage_act list" where
  "verifyTemporaryStorage c =
     (case st_create c of
        None \<Rightarrow> (False, [])
      | Some name \<Rightarrow>
          if \<not> st_write c then (False, [CloseFile, RemoveFile])
          else (st_close c \<and> st_remove c, [CloseFile, RemoveFile]))"

subsection \<open>Reports and handlers\<close>

record runtime_report =
  rr_GOOS :: string
  rr_GOARCH :: string
  rr_EffectiveUserID :: int
  rr_EffectiveGroupID :: int
  rr_TemporaryStorage :: bool

record resource_report =
  rs_HeapAllocBytes :: nat
  rs_HeapSysBytes :: nat
  rs_Goroutines :: int
  rs_OpenFileDescriptors :: int

text \<open>\<open>descriptors\<close> is the listing of \<^verbatim>\<open>/proc/self/fd\<close>, \<open>None\<close> where there is none.\<close>

definition currentResourceReport :: "nat \<Rightarrow> nat \<Rightarrow> int \<Rightarrow> string list option \<Rightarrow> resource_report" where
  "currentResourceReport heapAlloc heapSys goroutines descriptors =
     \<lparr>rs_HeapAllocBytes = heapAlloc, rs_HeapSysBytes = heapSys, rs_Goroutines = goroutines,
      rs_OpenFileDescriptors = (case descriptors of None \<Rightarrow> -1 | Some entries \<Rightarrow> int (length entries))\<rparr>"

text \<open>
  The patterns with their handlers in the order of registration. \<open>checked\<close> is the dependency check of the
  request, \<open>runtime_json\<close> and \<open>resources_json\<close> the encoded reports.
\<close>

definition platform_routes :: "(http_request \<Rightarrow> go_error) \<Rightarrow> (http_request \<Rightarrow> string) \<Rightarrow> (http_request \<Rightarrow> string) \<Rightarrow> (string \<times> handler) list" where
  "platform_routes checked runtime_json resources_json =
     [(''GET /'', \<lambda>_. EditHeader (header_set ''Content-Type'' ''text/plain; charset=utf-8'')
         (SendBody (''reference-platform'' @ [char_of (10 :: nat)]) Return)),
      (''GET /dependencyz'', \<lambda>request.
         if checked request \<noteq> NilErr then error_program ''dependency unavailable'' 503 else SendHeader 204 Return),
      (''GET /runtimez'', \<lambda>request. EditHeader (header_set ''Content-Type'' ''application/json'') (SendBody (runtime_json request) Return)),
      (''GET /resourcesz'', \<lambda>request. EditHeader (header_set ''Content-Type'' ''application/json'') (SendBody (resources_json request) Return))]"

subsection \<open>The definition\<close>

definition platform_plan :: "reference_platform_config \<Rightarrow> plan" where
  "platform_plan config =
     empty_plan\<lparr>pl_HTTP := Some \<lparr>ht_Address = rp_BusinessAddress config, ht_Listener = rp_BusinessListener config,
         ht_Handler = True, ht_JoinHandlers = False\<rparr>,
       pl_Readiness := [\<lparr>nc_Name = ''tls-dependency'', nc_Run = True\<rparr>]\<rparr>"

definition platform_New :: "(string \<Rightarrow> go_error + string \<times> string) \<Rightarrow> reference_platform_config \<Rightarrow> go_error + unit adopted" where
  "platform_New parse config =
     (if validate parse config \<noteq> NilErr then Inl (validate parse config)
      else Inr \<lparr>ad_Identity = \<lparr>id_Name = ''reference-platform'', id_Version = ''1.0.0'', id_Commit = [], id_BuildTime = [],
          id_GoVersion = [], id_Environment = ''assurance'', id_Instance = []\<rparr>,
        ad_Management = \<lparr>mg_Address = rp_ManagementAddress config, mg_Listener = rp_ManagementListener config\<rparr>,
        ad_Serve = Some (role_command ''serve'' ''run the platform reference service'' CommandKindLongRunning True (platform_plan config)),
        ad_Worker = None, ad_Schedule = None, ad_Migrate = None, ad_Custom = []\<rparr>)"

text \<open>\<^verbatim>\<open>main\<close>: an environment variable or its fallback, and the exit status.\<close>

definition environment :: "(string \<Rightarrow> string) \<Rightarrow> string \<Rightarrow> string \<Rightarrow> string" where
  "environment getenv name fallback = (if getenv name \<noteq> [] then getenv name else fallback)"

definition platform_main :: "(string \<Rightarrow> go_error + string \<times> string) \<Rightarrow> (string \<Rightarrow> string) \<Rightarrow> (unit adopted \<Rightarrow> int) \<Rightarrow> int" where
  "platform_main parse getenv service_Main =
     (case platform_New parse
        \<lparr>rp_BusinessAddress = environment getenv ''LISTEN_ADDRESS'' ''0.0.0.0:8080'',
         rp_ManagementAddress = environment getenv ''MANAGEMENT_ADDRESS'' ''0.0.0.0:8081'',
         rp_BusinessListener = None, rp_ManagementListener = None,
         rp_DependencyURL = getenv ''DEPENDENCY_URL'', rp_Client = True\<rparr> of
        Inl err \<Rightarrow> 2
      | Inr d \<Rightarrow> service_Main d)"

subsection \<open>What the reference promises\<close>

lemma checkDependency_iff:
  "checkDependency requestErr answered = NilErr \<longleftrightarrow> requestErr = NilErr \<and> (\<exists>status. answered = Inr status \<and> 200 \<le> status \<and> status < 300)"
  by (auto simp: checkDependency_def platform_ErrDependencyUnavailable_def split: sum.splits)

text \<open>
  The dependency endpoint answers 204 exactly for a 2xx dependency and otherwise 503, with a body
  that says nothing about the failure.
\<close>

lemma dependencyz_answers:
  assumes "(''GET /dependencyz'', h) \<in> set (platform_routes checked runtime_json resources_json)"
  shows "respond (h request) fresh_writer =
    (if checked request = NilErr then http_WriteHeader 204 fresh_writer else http_Error ''dependency unavailable'' 503 fresh_writer, None)"
  using assms by (auto simp: platform_routes_def)

text \<open>Temporary storage is confirmed only when the file was written, closed and removed, and a created file is always closed and removed.\<close>

lemma temporary_storage_cleaned:
  "verifyTemporaryStorage c = (ok, acts) \<Longrightarrow>
     (ok \<longleftrightarrow> st_create c \<noteq> None \<and> st_write c \<and> st_close c \<and> st_remove c) \<and>
     (st_create c \<noteq> None \<longrightarrow> acts = [CloseFile, RemoveFile]) \<and> (st_create c = None \<longrightarrow> acts = [])"
  by (auto simp: verifyTemporaryStorage_def split: option.splits if_splits)

text \<open>The definition a valid configuration gives registers its one command, and its plan serves HTTP on what was configured.\<close>

lemma platform_definition_registers:
  assumes "platform_New parse config = Inr d"
  shows "(\<exists>r. definitionCommands a (adopted_commands d) = Inr [r] \<and> reg_name r = ''serve'') \<and>
    ac_build (the (ad_Serve d)) a (CallReturned (Inr ())) = Inr (platform_plan config)"
  using assms role_names
  by (auto simp: platform_New_def role_build adoption_defs Let_def split: if_splits)
    (simp add: command_build_def loadCommandConfiguration_def buildCommandPlan_def)

end
