(* ===== verification/Reference_Base.thy ===== *)
theory Reference_Base
  imports Go_Errors
begin

section \<open>What the reference integrations share\<close>

text \<open>
  Reads through \<^verbatim>\<open>io.ReadAll(io.LimitReader(r, n))\<close>, the interface of a reader that refuses what is too long,
  and functions that stop at the first constructor that fails.
\<close>

subsection \<open>Bounded reads\<close>

text \<open>
  A stream is the bytes it delivers and the error after them, nil for the end. A limited reader
  stops at \<open>n\<close> bytes, before the error of a longer stream; a limit that is not positive reads nothing.
\<close>

type_synonym byte_stream = "string \<times> go_error"

definition io_ReadAll :: "int \<Rightarrow> byte_stream \<Rightarrow> go_error + string" where
  "io_ReadAll n stream =
     (if n \<le> int (length (fst stream)) then Inr (take (nat n) (fst stream))
      else if snd stream \<noteq> NilErr then Inl (snd stream)
      else Inr (fst stream))"

text \<open>
  The callers read one byte more than they accept and refuse when they get it.
\<close>

definition read_bounded :: "go_error \<Rightarrow> int \<Rightarrow> byte_stream \<Rightarrow> go_error + string" where
  "read_bounded exceeded limit stream =
     (case io_ReadAll (limit + 1) stream of
        Inl err \<Rightarrow> Inl err
      | Inr contents \<Rightarrow> if int (length contents) > limit then Inl exceeded else Inr contents)"

locale bounded_reader =
  fixes accept :: "byte_stream \<Rightarrow> go_error + string" and limit :: int
  assumes whole: "int (length bytes) \<le> limit \<Longrightarrow> accept (bytes, NilErr) = Inr bytes"
    and broken: "int (length bytes) \<le> limit \<Longrightarrow> err \<noteq> NilErr \<Longrightarrow> accept (bytes, err) = Inl err"
    and oversized: "limit < int (length bytes) \<Longrightarrow> \<exists>err. accept (bytes, e) = Inl err \<and> err \<noteq> NilErr"
begin

lemma accepted_iff: "accept stream = Inr contents \<longleftrightarrow> stream = (contents, NilErr) \<and> int (length contents) \<le> limit"
proof (cases stream)
  case (Pair bytes err)
  consider "limit < int (length bytes)" | "int (length bytes) \<le> limit" "err = NilErr" | "int (length bytes) \<le> limit" "err \<noteq> NilErr"
    by fastforce
  then show ?thesis
  proof cases
    case 1
    then show ?thesis using Pair oversized[of bytes err] by auto
  qed (use Pair whole broken in auto)
qed

lemma refused_nonnil: "accept stream = Inl err \<Longrightarrow> err \<noteq> NilErr"
proof (cases stream)
  case (Pair bytes e)
  assume "accept stream = Inl err"
  then show ?thesis using Pair oversized[of bytes e] whole[of bytes] broken[of bytes e] by (metis Inl_inject Inr_Inl_False linorder_not_le)
qed

end

lemma read_bounded_reader:
  assumes "exceeded \<noteq> NilErr"
  shows "bounded_reader (read_bounded exceeded limit) limit"
  using assms by unfold_locales (auto simp: read_bounded_def io_ReadAll_def min_def)

subsection \<open>Constructors in sequence\<close>

fun first_error :: "go_error list \<Rightarrow> go_error" where
  "first_error [] = NilErr"
| "first_error (err # errs) = (if err \<noteq> NilErr then err else first_error errs)"

lemma first_error_Nil [simp]: "first_error errs = NilErr \<longleftrightarrow> (\<forall>err \<in> set errs. err = NilErr)"
  by (induction errs) auto

lemma first_error_member: "first_error errs \<noteq> NilErr \<Longrightarrow> first_error errs \<in> set errs"
  by (induction errs) (auto split: if_splits)

end
