(* ===== verification/Reference_External.thy ===== *)
theory Reference_External
  imports Reference_Base Prelude
begin

section \<open>The outbound reference\<close>

text \<open>
  Models \<^verbatim>\<open>integration/reference-external/reference.go\<close>: construction, admission and closing of the reference, one bounded
  fetch and the policies around it, hedging, the stored secrets and the webhook. The policy
  libraries, the HTTP client, the filesystem and the envelope service are arguments of the
  definitions that call them.
\<close>

definition maximumPayloadBytes :: int where "maximumPayloadBytes = 2 ^ 20"

definition external_ErrInvalidConfig :: go_error where
  "external_ErrInvalidConfig = ErrorString 911 ''reference external config is invalid''"

definition external_ErrClosed :: go_error where
  "external_ErrClosed = ErrorString 912 ''reference external service is closed''"

subsection \<open>Construction\<close>

datatype reflect_kind =
    KindChan | KindFunc | KindInterface | KindMap | KindPointer | KindSlice | KindStruct | KindOther

text \<open>An \<^verbatim>\<open>any\<close>: nil, or a value's kind and whether its representation is nil.\<close>

type_synonym any_value = "(reflect_kind \<times> bool) option"

definition isNil :: "any_value \<Rightarrow> bool" where
  "isNil v =
     (case v of
        None \<Rightarrow> True
      | Some (kind, null) \<Rightarrow>
          if kind \<in> {KindChan, KindFunc, KindInterface, KindMap, KindPointer, KindSlice} then null else False)"

record external_config =
  ec_Storage :: any_value
  ec_Envelopes :: bool
  ec_WebhookEndpoint :: "string option"
  ec_WebhookSigner :: bool
  ec_WebhookPolicy :: any_value

text \<open>
  The policy constructors in the order of the calls, the last one's error returned as it is:
  rate store, rate policy, rate key, bulkhead, breaker, limiter, throttle policy, throttler, retry policy.
\<close>

datatype policy_part =
    RateStorePart | RatePolicyPart | RateKeyPart | BulkheadPart | BreakerPart | LimiterPart | AdaptivePart | ThrottlerPart | RetryPart

definition buildPolicies :: "(policy_part \<Rightarrow> go_error) \<Rightarrow> go_error" where
  "buildPolicies constructed =
     first_error (map constructed
       [RateStorePart, RatePolicyPart, RateKeyPart, BulkheadPart, BreakerPart, LimiterPart, AdaptivePart, ThrottlerPart, RetryPart])"

record external_reference =
  er_webhookEndpoint :: string
  er_closed :: bool

text \<open>The second component is whether the HTTP client was closed again.\<close>

definition external_New :: "external_config \<Rightarrow> go_error \<Rightarrow> (policy_part \<Rightarrow> go_error) \<Rightarrow> (go_error + external_reference) \<times> bool" where
  "external_New config clientErr constructed =
     (case (isNil (ec_Storage config) \<or> \<not> ec_Envelopes config \<or> ec_WebhookEndpoint config = None \<or>
            \<not> ec_WebhookSigner config \<or> isNil (ec_WebhookPolicy config), ec_WebhookEndpoint config) of
        (False, Some endpoint) \<Rightarrow>
          if clientErr \<noteq> NilErr then (Inl clientErr, False)
          else if buildPolicies constructed \<noteq> NilErr then (Inl (buildPolicies constructed), True)
          else (Inr \<lparr>er_webhookEndpoint = endpoint, er_closed = False\<rparr>, False)
      | _ \<Rightarrow> (Inl external_ErrInvalidConfig, False))"

subsection \<open>Admission and closing\<close>

definition external_admit :: "external_reference option \<Rightarrow> ctx_state option \<Rightarrow> go_error" where
  "external_admit reference ctx =
     (case (reference, ctx) of
        (Some reference, Some ctx) \<Rightarrow>
          if ctx_err ctx \<noteq> NilErr then ctx_err ctx
          else if er_closed reference then external_ErrClosed else NilErr
      | _ \<Rightarrow> external_ErrInvalidConfig)"

datatype external_release = RateStore | BulkheadClose | BulkheadDrain | BreakerShutdown | ClientClose

text \<open>\<open>cleaned\<close> gives the error of each release; the last component lists the releases in order.\<close>

definition external_Close ::
    "addr \<Rightarrow> (external_release \<Rightarrow> go_error) \<Rightarrow> ctx_state option \<Rightarrow> external_reference option \<Rightarrow>
     external_reference option \<times> go_error \<times> external_release list" where
  "external_Close a cleaned ctx reference =
     (case (reference, ctx) of
        (Some r, Some _) \<Rightarrow>
          if er_closed r then (reference, NilErr, [])
          else
            let released = [RateStore, BulkheadClose, BulkheadDrain, BreakerShutdown, ClientClose]
            in (Some (r\<lparr>er_closed := True\<rparr>), errors_join a (map cleaned released), released)
      | _ \<Rightarrow> (reference, external_ErrInvalidConfig, []))"

text \<open>Calls of \<^verbatim>\<open>Close\<close> in the order in which they take the mutex.\<close>

fun external_closes ::
    "addr \<Rightarrow> ((external_release \<Rightarrow> go_error) \<times> ctx_state option) list \<Rightarrow> external_reference option \<Rightarrow>
     external_reference option \<times> (go_error \<times> external_release list) list" where
  "external_closes a [] reference = (reference, [])"
| "external_closes a ((cleaned, ctx) # rest) reference =
     (let (reference, err, released) = external_Close a cleaned ctx reference;
          (reference, outcomes) = external_closes a rest reference
      in (reference, (err, released) # outcomes))"

subsection \<open>One fetch\<close>

record http_answer =
  ha_status :: int
  ha_body :: byte_stream

text \<open>\<open>after\<close> is the state of the context when the client returned an error.\<close>

definition fetchOnce ::
    "addr \<Rightarrow> (go_error \<Rightarrow> go_error) \<Rightarrow> go_error \<Rightarrow> go_error + http_answer \<Rightarrow> ctx_state \<Rightarrow> go_error + string" where
  "fetchOnce a retryable requestErr answer after =
     (if requestErr \<noteq> NilErr then Inl requestErr
      else case answer of
        Inl err \<Rightarrow> if ctx_err after \<noteq> NilErr then Inl (ctx_err after) else Inl (retryable err)
      | Inr response \<Rightarrow>
          if 500 \<le> ha_status response then Inl (retryable (ErrorString a ''dependency status''))
          else read_bounded (ErrorString a ''dependency response exceeds 1048576 bytes'') maximumPayloadBytes (ha_body response))"

text \<open>
  The layers are arguments: a layer takes the operation's result and returns its own; \<open>retried\<close> takes
  the result of each attempt and returns the result with the number of attempts.
\<close>

type_synonym layer = "go_error + string \<Rightarrow> go_error + string"

record external_policies =
  ep_admit :: "go_error + bool"
  ep_rejected :: go_error
  ep_throttle :: layer
  ep_bulkhead :: layer
  ep_retry :: "(nat \<Rightarrow> go_error + string) \<Rightarrow> (go_error + string) \<times> nat"
  ep_breaker :: "nat \<Rightarrow> layer"
  ep_limiter :: "nat \<Rightarrow> layer"

definition Fetch ::
    "external_policies \<Rightarrow> external_reference option \<Rightarrow> ctx_state option \<Rightarrow> (nat \<Rightarrow> go_error + string) \<Rightarrow> (go_error + string) \<times> nat" where
  "Fetch p reference ctx attempt =
     (if external_admit reference ctx \<noteq> NilErr then (Inl (external_admit reference ctx), 0)
      else case ep_admit p of
        Inl err \<Rightarrow> (Inl err, 0)
      | Inr allowed \<Rightarrow>
          if \<not> allowed then (Inl (ep_rejected p), 0)
          else
            let (result, attempts) = ep_retry p (\<lambda>i. ep_breaker p i (ep_limiter p i (attempt i)))
            in (ep_throttle p (ep_bulkhead p result), attempts))"

subsection \<open>Hedging\<close>

definition hedge_endpoint :: "string list \<Rightarrow> bool \<Rightarrow> string" where
  "hedge_endpoint endpoints hedged = endpoints ! (if hedged then 1 else 0)"

definition hedge_success :: "go_error + string \<Rightarrow> bool" where
  "hedge_success result = (case result of Inl _ \<Rightarrow> False | Inr _ \<Rightarrow> True)"

text \<open>\<open>run_hedge\<close> is \<^verbatim>\<open>hedge.Do\<close>: it is given the classifier and each attempt's endpoint and result.\<close>

definition HedgedFetch ::
    "((go_error + string \<Rightarrow> bool) \<Rightarrow> (bool \<Rightarrow> string \<times> (go_error + string)) \<Rightarrow> go_error + string) \<Rightarrow> go_error \<Rightarrow> go_error \<Rightarrow>
     (string \<Rightarrow> go_error + string) \<Rightarrow> external_reference option \<Rightarrow> ctx_state option \<Rightarrow> string list \<Rightarrow> int \<Rightarrow> go_error + string" where
  "HedgedFetch run_hedge budgetErr policyErr fetch reference ctx endpoints delay =
     (if external_admit reference ctx \<noteq> NilErr then Inl (external_admit reference ctx)
      else if length endpoints \<noteq> 2 \<or> delay \<le> 0 then Inl external_ErrInvalidConfig
      else if budgetErr \<noteq> NilErr then Inl budgetErr
      else if policyErr \<noteq> NilErr then Inl policyErr
      else run_hedge hedge_success
        (\<lambda>hedged. let endpoint = hedge_endpoint endpoints hedged in (endpoint, fetch endpoint)))"

subsection \<open>Stored secrets\<close>

record ('store, 'envelope, 'binding) secret_services =
  ss_open :: "'store \<Rightarrow> string \<Rightarrow> go_error + byte_stream"
  ss_write :: "'store \<Rightarrow> string \<Rightarrow> string \<Rightarrow> go_error \<times> 'store"
  ss_encrypt :: "string \<Rightarrow> string \<Rightarrow> 'binding \<Rightarrow> go_error + 'envelope"
  ss_marshal :: "'envelope \<Rightarrow> go_error + string"
  ss_parse :: "string \<Rightarrow> go_error + 'envelope"
  ss_decrypt :: "'envelope \<Rightarrow> 'binding \<Rightarrow> go_error + string"

definition StoreSecret ::
    "('store, 'envelope, 'binding) secret_services \<Rightarrow> external_reference option \<Rightarrow> ctx_state option \<Rightarrow>
     string \<Rightarrow> string \<Rightarrow> string \<Rightarrow> 'binding \<Rightarrow> 'store \<Rightarrow> go_error \<times> 'store" where
  "StoreSecret s reference ctx object plaintext keyReference binding store =
     (if external_admit reference ctx \<noteq> NilErr then (external_admit reference ctx, store)
      else case ss_encrypt s plaintext keyReference binding of
        Inl err \<Rightarrow> (err, store)
      | Inr envelope \<Rightarrow>
          (case ss_marshal s envelope of
             Inl err \<Rightarrow> (err, store)
           | Inr encoded \<Rightarrow> ss_write s store object encoded))"

definition stored_exceeds :: "addr \<Rightarrow> go_error" where
  "stored_exceeds a = ErrorString a ''stored object exceeds 1048576 bytes''"

definition OpenStored ::
    "addr \<Rightarrow> ('store, 'envelope, 'binding) secret_services \<Rightarrow> external_reference option \<Rightarrow> ctx_state option \<Rightarrow> string \<Rightarrow> 'store \<Rightarrow> go_error + string" where
  "OpenStored a s reference ctx object store =
     (if external_admit reference ctx \<noteq> NilErr then Inl (external_admit reference ctx)
      else case ss_open s store object of
        Inl err \<Rightarrow> Inl err
      | Inr stream \<Rightarrow> read_bounded (stored_exceeds a) maximumPayloadBytes stream)"

definition LoadSecret ::
    "addr \<Rightarrow> ('store, 'envelope, 'binding) secret_services \<Rightarrow> external_reference option \<Rightarrow> ctx_state option \<Rightarrow> string \<Rightarrow> 'binding \<Rightarrow> 'store \<Rightarrow> go_error + string" where
  "LoadSecret a s reference ctx object binding store =
     (case OpenStored a s reference ctx object store of
        Inl err \<Rightarrow> Inl err
      | Inr encoded \<Rightarrow>
          (case ss_parse s encoded of
             Inl err \<Rightarrow> Inl err
           | Inr envelope \<Rightarrow> ss_decrypt s envelope binding))"

subsection \<open>The webhook\<close>

text \<open>The identifiers the generator returns: the counter is incremented before it is printed.\<close>

definition webhook_id :: "nat \<Rightarrow> string \<times> nat" where
  "webhook_id sequence = (let sequence = sequence + 1 in (''reference-'' @ itoa sequence, sequence))"

text \<open>\<open>deliver\<close> is \<^verbatim>\<open>Deliverer.Deliver\<close>, given the endpoint's copy, the body, the event and its idempotency key.\<close>

definition DeliverWebhook ::
    "go_error \<Rightarrow> (string \<Rightarrow> string \<Rightarrow> string \<Rightarrow> string \<Rightarrow> go_error + 'result) \<Rightarrow> external_reference option \<Rightarrow> ctx_state option \<Rightarrow>
     string \<Rightarrow> string \<Rightarrow> go_error + 'result" where
  "DeliverWebhook delivererErr deliver reference ctx payload eventID =
     (if external_admit reference ctx \<noteq> NilErr then Inl (external_admit reference ctx)
      else if delivererErr \<noteq> NilErr then Inl delivererErr
      else case reference of None \<Rightarrow> Inl external_ErrInvalidConfig
        | Some r \<Rightarrow> deliver (er_webhookEndpoint r) payload eventID eventID)"

subsection \<open>Reads are bounded\<close>

interpretation stored: bounded_reader "read_bounded (stored_exceeds a) maximumPayloadBytes" maximumPayloadBytes for a
  by (rule read_bounded_reader) (simp add: stored_exceeds_def)

interpretation dependency: bounded_reader
  "read_bounded (ErrorString a ''dependency response exceeds 1048576 bytes'') maximumPayloadBytes" maximumPayloadBytes for a
  by (rule read_bounded_reader) simp

lemma fetchOnce_body:
  "fetchOnce a retryable requestErr answer after = Inr body \<longleftrightarrow>
     requestErr = NilErr \<and> (\<exists>response. answer = Inr response \<and> ha_status response < 500 \<and>
       ha_body response = (body, NilErr) \<and> int (length body) \<le> maximumPayloadBytes)"
  by (auto simp: fetchOnce_def dependency.accepted_iff split: sum.splits if_splits)

text \<open>\<^bold>\<open>A fetched body came whole from one answer below 500, within 1 MiB and two attempts.\<close> Given the
  documented behaviour of the layers, that a value they return is the operation's, and of the
  retry policy, that its value is that of one of the at most two attempts it reports: a body that
  \<^verbatim>\<open>Fetch\<close> returns is the complete body of the response to one of these attempts; and without admission
  nothing is attempted.\<close>

theorem fetch_bounded:
  assumes layers: "\<And>x v. ep_throttle p x = Inr v \<Longrightarrow> x = Inr v" "\<And>x v. ep_bulkhead p x = Inr v \<Longrightarrow> x = Inr v"
      "\<And>i x v. ep_breaker p i x = Inr v \<Longrightarrow> x = Inr v" "\<And>i x v. ep_limiter p i x = Inr v \<Longrightarrow> x = Inr v"
    and retries: "\<And>f r n. ep_retry p f = (r, n) \<Longrightarrow> n \<le> 2 \<and> (\<forall>v. r = Inr v \<longrightarrow> (\<exists>i < n. f i = Inr v))"
    and fetched: "Fetch p reference ctx (\<lambda>i. fetchOnce a retryable (requestErr i) (answer i) (after i)) = (result, attempts)"
  shows "attempts \<le> 2 \<and>
    (external_admit reference ctx \<noteq> NilErr \<longrightarrow> attempts = 0 \<and> result = Inl (external_admit reference ctx)) \<and>
    (\<forall>body. result = Inr body \<longrightarrow> int (length body) \<le> maximumPayloadBytes \<and>
       (\<exists>i response. i < attempts \<and> answer i = Inr response \<and> ha_status response < 500 \<and> ha_body response = (body, NilErr)))"
proof (cases "external_admit reference ctx = NilErr \<and> ep_admit p = Inr True")
  case False
  then show ?thesis using fetched by (auto simp: Fetch_def split: sum.splits if_splits)
next
  case True
  obtain r n where r: "ep_retry p (\<lambda>i. ep_breaker p i (ep_limiter p i (fetchOnce a retryable (requestErr i) (answer i) (after i)))) = (r, n)"
    by fastforce
  have result: "result = ep_throttle p (ep_bulkhead p r)" "attempts = n" using fetched True r by (auto simp: Fetch_def)
  have "\<exists>i < n. fetchOnce a retryable (requestErr i) (answer i) (after i) = Inr body" if "result = Inr body" for body
  proof -
    have "ep_throttle p (ep_bulkhead p r) = Inr body" using that result(1) by simp
    then have "r = Inr body" by (rule layers(2)[OF layers(1)])
    then obtain i where "i < n" "ep_breaker p i (ep_limiter p i (fetchOnce a retryable (requestErr i) (answer i) (after i))) = Inr body"
      using retries[OF r] by auto
    then show ?thesis using layers(3,4) by blast
  qed
  then have "int (length body) \<le> maximumPayloadBytes \<and>
      (\<exists>i response. i < attempts \<and> answer i = Inr response \<and> ha_status response < 500 \<and> ha_body response = (body, NilErr))"
    if "result = Inr body" for body
    using that result(2) unfolding fetchOnce_body by blast
  then show ?thesis using True retries[OF r] result(2) by blast
qed

definition sample_policies :: external_policies where
  "sample_policies = \<lparr>ep_admit = Inr True, ep_rejected = NilErr, ep_throttle = (\<lambda>x. x), ep_bulkhead = (\<lambda>x. x),
     ep_retry = (\<lambda>f. case f 0 of Inr v \<Rightarrow> (Inr v, 1) | Inl _ \<Rightarrow> (f 1, 2)), ep_breaker = (\<lambda>_ x. x), ep_limiter = (\<lambda>_ x. x)\<rparr>"

theorem fetch_bounded_witness:
  "int (length ''ok'') \<le> maximumPayloadBytes \<and>
   Fetch sample_policies (Some \<lparr>er_webhookEndpoint = [], er_closed = False\<rparr>) (Some CtxActive)
     (\<lambda>i. fetchOnce 1 id NilErr (Inr \<lparr>ha_status = (if i = 0 then 503 else 200), ha_body = (''ok'', NilErr)\<rparr>) CtxActive) = (Inr ''ok'', 2)"
proof -
  let ?answer = "\<lambda>i :: nat. Inr \<lparr>ha_status = (if i = 0 then 503 else 200), ha_body = (''ok'', NilErr)\<rparr>"
  have fetched: "Fetch sample_policies (Some \<lparr>er_webhookEndpoint = [], er_closed = False\<rparr>) (Some CtxActive)
      (\<lambda>i. fetchOnce 1 id NilErr (?answer i) CtxActive) = (Inr ''ok'', 2)"
    by (simp add: Fetch_def sample_policies_def external_admit_def fetchOnce_def read_bounded_def io_ReadAll_def maximumPayloadBytes_def)
  have retries: "n \<le> 2 \<and> (\<forall>v. r = Inr v \<longrightarrow> (\<exists>i < n. f i = Inr v))" if "ep_retry sample_policies f = (r, n)" for f r n
  proof (cases "f 0")
    case (Inl e)
    then show ?thesis using that by (auto simp: sample_policies_def numeral_2_eq_2)
  qed (use that in \<open>auto simp: sample_policies_def\<close>)
  have layers: "ep_throttle sample_policies x = Inr v \<Longrightarrow> x = Inr v" "ep_bulkhead sample_policies x = Inr v \<Longrightarrow> x = Inr v"
    "ep_breaker sample_policies i x = Inr v \<Longrightarrow> x = Inr v" "ep_limiter sample_policies i x = Inr v \<Longrightarrow> x = Inr v" for x v i
    by (simp_all add: sample_policies_def)
  have "int (length ''ok'') \<le> maximumPayloadBytes"
    by (rule fetch_bounded[OF _ _ _ _ _ fetched, THEN conjunct2, THEN conjunct2, rule_format, THEN conjunct1])
      (erule layers | erule retries | rule refl)+
  then show ?thesis using fetched by blast
qed

subsection \<open>Secrets round trip\<close>

text \<open>C40. \<^bold>\<open>A stored secret loads again exactly when its envelope fits 1 MiB.\<close> Given that a successful write
  stores the whole object, that an envelope parses from its encoding and decrypts under its binding,
  and an open reference: after \<^verbatim>\<open>StoreSecret\<close> succeeded, \<^verbatim>\<open>LoadSecret\<close> returns the plaintext when the encoded
  envelope has at most 1 MiB and the limit's error otherwise, since storing applies no limit.\<close>

theorem secret_roundtrip:
  assumes storage: "\<And>store store' object bytes. ss_write s store object bytes = (NilErr, store') \<Longrightarrow>
        ss_open s store' object = Inr (bytes, NilErr)"
    and codec: "\<And>envelope bytes. ss_marshal s envelope = Inr bytes \<Longrightarrow> ss_parse s bytes = Inr envelope"
    and cipher: "\<And>text key b envelope. ss_encrypt s text key b = Inr envelope \<Longrightarrow> ss_decrypt s envelope b = Inr text"
    and nonnil: "\<And>text key b err. ss_encrypt s text key b = Inl err \<Longrightarrow> err \<noteq> NilErr"
      "\<And>envelope err. ss_marshal s envelope = Inl err \<Longrightarrow> err \<noteq> NilErr"
    and stored: "StoreSecret s reference ctx object plaintext key binding store = (NilErr, store')"
    and admitted: "external_admit reference later = NilErr"
  shows "\<exists>envelope encoded. ss_encrypt s plaintext key binding = Inr envelope \<and> ss_marshal s envelope = Inr encoded \<and>
    LoadSecret a s reference later object binding store' =
      (if int (length encoded) \<le> maximumPayloadBytes then Inr plaintext else Inl (stored_exceeds a))"
proof -
  have "external_admit reference ctx = NilErr" using stored by (auto simp: StoreSecret_def split: if_splits)
  then obtain envelope encoded where envelope: "ss_encrypt s plaintext key binding = Inr envelope"
    and encoded: "ss_marshal s envelope = Inr encoded" and written: "ss_write s store object encoded = (NilErr, store')"
    using stored nonnil by (auto simp: StoreSecret_def split: sum.splits)
  have "read_bounded (stored_exceeds a) maximumPayloadBytes (encoded, NilErr) =
      (if int (length encoded) \<le> maximumPayloadBytes then Inr encoded else Inl (stored_exceeds a))"
    by (auto simp: read_bounded_def io_ReadAll_def maximumPayloadBytes_def min_def)
  then show ?thesis
    using envelope encoded admitted storage[OF written] codec[OF encoded] cipher[OF envelope]
    by (auto simp: LoadSecret_def OpenStored_def)
qed

text \<open>A service for the witness: the envelope is the plaintext with its binding, stored in a map.\<close>

definition sample_services :: "(string \<Rightarrow> string option, string \<times> string, string) secret_services" where
  "sample_services = \<lparr>ss_open = (\<lambda>m p. case m p of None \<Rightarrow> Inl (ErrorString 1 ''absent'') | Some b \<Rightarrow> Inr (b, NilErr)),
     ss_write = (\<lambda>m p b. (NilErr, m(p \<mapsto> b))),
     ss_encrypt = (\<lambda>t k b. if b = ''b'' then Inr (t, b) else Inl (ErrorString 1 ''binding'')),
     ss_marshal = (\<lambda>(t, b). if b = ''b'' then Inr t else Inl (ErrorString 1 ''binding'')),
     ss_parse = (\<lambda>t. Inr (t, ''b'')), ss_decrypt = (\<lambda>(t, b') b. if b = b' then Inr t else Inl (ErrorString 1 ''binding''))\<rparr>"

theorem secret_roundtrip_witness:
  "LoadSecret 1 sample_services (Some \<lparr>er_webhookEndpoint = [], er_closed = False\<rparr>) (Some CtxActive) ''o'' ''b''
     (snd (StoreSecret sample_services (Some \<lparr>er_webhookEndpoint = [], er_closed = False\<rparr>) (Some CtxActive) ''o'' ''secret'' ''k'' ''b'' Map.empty)) =
   Inr ''secret''"
proof -
  let ?r = "Some \<lparr>er_webhookEndpoint = [], er_closed = False\<rparr>"
  let ?m = "Map.empty(''o'' \<mapsto> ''secret'')"
  have stored: "StoreSecret sample_services ?r (Some CtxActive) ''o'' ''secret'' ''k'' ''b'' Map.empty = (NilErr, ?m)"
    by (simp add: StoreSecret_def external_admit_def sample_services_def)
  have admitted: "external_admit ?r (Some CtxActive) = NilErr" by (simp add: external_admit_def)
  have laws: "ss_write sample_services m p b = (NilErr, m') \<Longrightarrow> ss_open sample_services m' p = Inr (b, NilErr)"
    "ss_marshal sample_services e = Inr b \<Longrightarrow> ss_parse sample_services b = Inr e"
    "ss_encrypt sample_services t k x = Inr e \<Longrightarrow> ss_decrypt sample_services e x = Inr t"
    "ss_encrypt sample_services t k x = Inl err \<Longrightarrow> err \<noteq> NilErr"
    "ss_marshal sample_services e = Inl err \<Longrightarrow> err \<noteq> NilErr" for m m' p b e t k x err
    by (auto simp: sample_services_def split: if_splits prod.splits)
  have "ss_encrypt sample_services ''secret'' ''k'' ''b'' = Inr (''secret'', ''b'')"
    "ss_marshal sample_services (''secret'', ''b'') = Inr ''secret''"
    by (simp_all add: sample_services_def)
  then show ?thesis
    using secret_roundtrip[OF laws stored admitted, where a = 1] stored by (simp add: maximumPayloadBytes_def)
qed

subsection \<open>Closing once\<close>

text \<open>\<^bold>\<open>Only the first \<^verbatim>\<open>Close\<close> releases, and nothing is admitted after it.\<close> For calls of \<^verbatim>\<open>Close\<close> with a
  context, in whatever order they take the mutex: the first releases the rate store, the bulkhead,
  the breaker and the client, in this order, and returns the join of their errors; every later one
  releases nothing and returns nil, also where the first failed; and afterwards every operation
  under a live context is refused with \<^verbatim>\<open>ErrClosed\<close>.\<close>

theorem external_closes_once:
  assumes "external_closes a ((cleaned, Some ctx) # rest) (Some r) = (closed, outcomes)" and "\<not> er_closed r"
    and "list_all (\<lambda>(_, c). c \<noteq> None) rest"
  shows "outcomes = (errors_join a (map cleaned [RateStore, BulkheadClose, BulkheadDrain, BreakerShutdown, ClientClose]),
       [RateStore, BulkheadClose, BulkheadDrain, BreakerShutdown, ClientClose]) # replicate (length rest) (NilErr, []) \<and>
    external_admit closed (Some CtxActive) = external_ErrClosed"
proof -
  have later: "external_closes a rest (Some r) = (Some r, replicate (length rest) (NilErr, []))" if "er_closed r" for r
    using assms(3) that by (induction rest) (auto simp: external_Close_def)
  show ?thesis
    using assms(1,2) later[of "r\<lparr>er_closed := True\<rparr>"] by (auto simp: external_Close_def external_admit_def Let_def)
qed

theorem external_closes_once_witness:
  "length (snd (external_closes 1 [(\<lambda>_. NilErr, Some CtxActive), (\<lambda>_. NilErr, Some CtxActive)]
     (Some \<lparr>er_webhookEndpoint = [], er_closed = False\<rparr>))) = 2"
proof -
  obtain closed outcomes where call: "external_closes 1 [(\<lambda>_. NilErr, Some CtxActive), (\<lambda>_. NilErr, Some CtxActive)]
     (Some \<lparr>er_webhookEndpoint = [], er_closed = False\<rparr>) = (closed, outcomes)" by fastforce
  from external_closes_once[OF call] call show ?thesis by simp
qed

end
