(* ===== verification/Reference_HTTP.thy ===== *)
theory Reference_HTTP
  imports Reference_Base Http_Handlers "HOL-Library.Word"
begin

section \<open>The HTTP reference\<close>

text \<open>
  Models \<^verbatim>\<open>integration/reference-http/reference.go\<close>: validation and construction with its cleanup, the capability given to
  each request, the keys of the signature profiles, the middleware that checks a capability, the
  request that is authorized and the audited echo method. Signing, verification, authentication,
  tenancy, audit storage and the JSON-RPC dispatcher are arguments.
\<close>

subsection \<open>Configuration\<close>

definition http_ErrInvalidConfig :: go_error where
  "http_ErrInvalidConfig = ErrorString 921 ''reference HTTP config is invalid''"

record reference_http_config =
  rh_ServiceName :: string
  rh_Version :: string
  rh_Environment :: string
  rh_BearerToken :: string
  rh_PrincipalID :: string
  rh_TenantID :: string
  rh_BusinessListener :: bool
  rh_ManagementListener :: bool
  rh_TrustTenant :: bool
  rh_Readiness :: bool
  rh_ClientTransport :: bool

definition validateConfig :: "addr \<Rightarrow> (string \<Rightarrow> go_error) \<Rightarrow> reference_http_config \<Rightarrow> go_error" where
  "validateConfig a parseTenant input =
     (if rh_ServiceName input = [] \<or> rh_Version input = [] \<or> rh_Environment input = [] \<or>
         rh_BearerToken input = [] \<or> rh_PrincipalID input = [] \<or> rh_TenantID input = [] \<or>
         \<not> rh_BusinessListener input \<or> \<not> rh_ManagementListener input \<or> \<not> rh_TrustTenant input \<or> \<not> rh_Readiness input
      then http_ErrInvalidConfig
      else if parseTenant (rh_TenantID input) \<noteq> NilErr
      then AppErr a ComparableShape [] [] (UnwrapOne http_ErrInvalidConfig) else NilErr)"

subsection \<open>Construction\<close>

text \<open>The fallible calls of each part of the construction, in order; the first error is returned.\<close>

datatype construction_call =
    ProgrammaticDefaults | ConfigServiceNew
  | MemoryNew | NewRedactor | NewRecorder | NewBuilder
  | ReadCapabilityMaterial | ReadSignatureMaterial | NewCapabilitySigner | NewCapabilityVerifier | NewKeySet
  | NewCapabilityHTTP | NewHMACKey | NewSigningProfile | NewVerificationProfile | NewSignatureMiddleware
  | NewDigestMiddleware | NewSigningRoundTripper | NewDigestRoundTripper
  | TenantNew | NewExtractor | NewStaticBearer | NewChallenge | NewAuthenticationMiddleware
  | NewRBAC | NewSnapshot | NewEngine | RegisterEcho | NewAuthorizationHandler
  | MiddlewareNew | ChainHandler | NewTelemetryHandler | RegisterRoute | CompileRoutes
  | NewCorrelationFactory

type_synonym construction = "construction_call \<Rightarrow> go_error"

definition newConfigLoader :: "construction \<Rightarrow> go_error" where
  "newConfigLoader c = first_error (map c [ProgrammaticDefaults, ConfigServiceNew])"

definition newAudit :: "construction \<Rightarrow> go_error" where
  "newAudit c = first_error (map c [MemoryNew, NewRedactor, NewRecorder, NewBuilder])"

text \<open>The two signature profiles: \<open>None\<close> for a field that the configuration leaves out.\<close>

datatype parameter_rule = ParameterRequired | ParameterForbidden

record signature_profile =
  sp_Algorithms :: "string list"
  sp_Components :: "string list"
  sp_Created :: "parameter_rule option"
  sp_Expires :: parameter_rule
  sp_AlgorithmParameter :: parameter_rule
  sp_Nonce :: parameter_rule
  sp_Tag :: parameter_rule
  sp_Window :: duration
  sp_ClockSkew :: "duration option"
  sp_ResolveTimeout :: duration
  sp_KeyID :: string

definition signed_components :: "string list" where
  "signed_components = [''@method'', ''@authority'', ''content-digest'']"

definition signingProfile :: signature_profile where
  "signingProfile = \<lparr>sp_Algorithms = [''hmac-sha256''], sp_Components = signed_components, sp_Created = None,
     sp_Expires = ParameterRequired, sp_AlgorithmParameter = ParameterRequired, sp_Nonce = ParameterForbidden,
     sp_Tag = ParameterForbidden, sp_Window = minute, sp_ClockSkew = None, sp_ResolveTimeout = second,
     sp_KeyID = ''reference-signature''\<rparr>"

definition verificationProfile :: signature_profile where
  "verificationProfile = \<lparr>sp_Algorithms = [''hmac-sha256''], sp_Components = signed_components, sp_Created = Some ParameterRequired,
     sp_Expires = ParameterRequired, sp_AlgorithmParameter = ParameterRequired, sp_Nonce = ParameterForbidden,
     sp_Tag = ParameterForbidden, sp_Window = minute, sp_ClockSkew = Some second, sp_ResolveTimeout = second,
     sp_KeyID = ''reference-signature''\<rparr>"

definition newRequestSecurity :: "construction \<Rightarrow> go_error" where
  "newRequestSecurity c =
     first_error (map c [ReadCapabilityMaterial, ReadSignatureMaterial, NewCapabilitySigner, NewCapabilityVerifier, NewKeySet,
       NewCapabilityHTTP, NewHMACKey, NewSigningProfile, NewVerificationProfile, NewSignatureMiddleware,
       NewDigestMiddleware, NewSigningRoundTripper, NewDigestRoundTripper])"

text \<open>The response of both verification middlewares to a request they refuse.\<close>

definition mapSignatureError :: response_program where
  "mapSignatureError = error_program ''invalid signed request'' 401"

definition newAuthorizer :: "construction \<Rightarrow> go_error" where
  "newAuthorizer c = first_error (map c [NewRBAC, NewSnapshot, NewEngine])"

definition reference_newHandler :: "construction \<Rightarrow> go_error" where
  "reference_newHandler c =
     first_error (map c [TenantNew, NewExtractor, NewStaticBearer, NewChallenge, NewAuthenticationMiddleware] @ [newAuthorizer c] @
       map c [RegisterEcho, NewAuthorizationHandler, MiddlewareNew, ChainHandler, NewTelemetryHandler, RegisterRoute, CompileRoutes])"

text \<open>The result with whether the telemetry harness was created and whether it was shut down again.\<close>

definition http_New :: "addr \<Rightarrow> (string \<Rightarrow> go_error) \<Rightarrow> construction \<Rightarrow> reference_http_config \<Rightarrow> go_error \<times> bool \<times> bool" where
  "http_New a parseTenant c input =
     (if validateConfig a parseTenant input \<noteq> NilErr then (validateConfig a parseTenant input, False, False)
      else if newConfigLoader c \<noteq> NilErr then (newConfigLoader c, False, False)
      else if newAudit c \<noteq> NilErr then (newAudit c, False, False)
      else if newRequestSecurity c \<noteq> NilErr then (newRequestSecurity c, True, True)
      else if reference_newHandler c \<noteq> NilErr then (reference_newHandler c, True, True)
      else if c NewCorrelationFactory \<noteq> NilErr then (c NewCorrelationFactory, True, True)
      else (NilErr, True, False))"

record runtime_config =
  rt_ServiceName :: string
  rt_Version :: string
  rt_Environment :: string

text \<open>The serve command's build callback, before it returns the plan.\<close>

definition serve_build :: "addr \<Rightarrow> reference_http_config \<Rightarrow> runtime_config \<Rightarrow> go_error" where
  "serve_build a input loaded =
     (if rt_ServiceName loaded \<noteq> rh_ServiceName input \<or> rt_Version loaded \<noteq> rh_Version input \<or>
         rt_Environment loaded \<noteq> rh_Environment input
      then AppErr a ComparableShape [] [] (UnwrapOne http_ErrInvalidConfig) else NilErr)"

subsection \<open>Capabilities for requests\<close>

record capability_payload =
  cp_Audience :: string
  cp_IssuedAt :: int
  cp_NotBefore :: int
  cp_ExpiresAt :: int
  cp_ID :: string

record prepared_request =
  pr_Method :: string
  pr_RequestURI :: string
  pr_RawQuery :: string

text \<open>
  The serial is incremented by \<^verbatim>\<open>atomic.Uint64.Add\<close> and wraps. \<open>now\<close> is in nanoseconds; \<open>sign\<close> returns the signed
  URL and \<open>parse\<close> its raw query.
\<close>

definition capability_id :: "nat \<Rightarrow> 64 word \<Rightarrow> string" where
  "capability_id now serial = ''reference-'' @ itoa now @ ''-'' @ itoa (unat serial)"

definition PrepareRequest ::
    "(capability_payload \<Rightarrow> string \<Rightarrow> string \<Rightarrow> go_error + string) \<Rightarrow> (string \<Rightarrow> go_error + string) \<Rightarrow> string \<Rightarrow> nat \<Rightarrow>
     64 word \<Rightarrow> prepared_request option \<Rightarrow> 64 word \<times> prepared_request option \<times> go_error" where
  "PrepareRequest sign parse audience now serial request =
     (case request of
        None \<Rightarrow> (serial, None, http_ErrInvalidConfig)
      | Some r \<Rightarrow>
          let serial = serial + 1;
              payload = \<lparr>cp_Audience = audience, cp_IssuedAt = int now, cp_NotBefore = int now - second,
                cp_ExpiresAt = int now + minute, cp_ID = capability_id now serial\<rparr>
          in case sign payload (pr_Method r) (pr_RequestURI r) of
               Inl err \<Rightarrow> (serial, request, err)
             | Inr signedURL \<Rightarrow>
                 (case parse signedURL of
                    Inl err \<Rightarrow> (serial, request, err)
                  | Inr query \<Rightarrow> (serial, Some (r\<lparr>pr_RawQuery := query\<rparr>), NilErr)))"

text \<open>The identifiers of the payloads of a sequence of prepared requests, at the given times.\<close>

fun prepared_ids :: "nat list \<Rightarrow> 64 word \<Rightarrow> string list" where
  "prepared_ids [] serial = []"
| "prepared_ids (now # rest) serial = capability_id now (serial + 1) # prepared_ids rest (serial + 1)"

subsection \<open>Signature keys\<close>

record signature_key =
  sg_Material :: string
  sg_NotBefore :: int
  sg_NotAfter :: int
  sg_FreshUntil :: int

definition provider_SigningKey :: "int \<Rightarrow> signature_key \<Rightarrow> signature_key" where
  "provider_SigningKey now key = key\<lparr>sg_NotBefore := now - hour, sg_NotAfter := now + hour\<rparr>"

definition resolver_Resolve :: "go_error \<Rightarrow> int \<Rightarrow> string \<Rightarrow> signature_key \<Rightarrow> string \<Rightarrow> go_error + signature_key" where
  "resolver_Resolve notFound now ownID key keyID =
     (if keyID \<noteq> ownID then Inl notFound
      else Inr (key\<lparr>sg_NotBefore := now - hour, sg_NotAfter := now + hour, sg_FreshUntil := now + minute\<rparr>))"

subsection \<open>The capability middleware\<close>

record capability_use =
  cu_Issuer :: string
  cu_Audience :: string
  cu_Resource :: string
  cu_Operation :: string

definition capabilityAuthorization ::
    "(http_request \<Rightarrow> (capability_use \<Rightarrow> go_error) option) \<Rightarrow> string \<Rightarrow> handler \<Rightarrow> handler" where
  "capabilityAuthorization grantOf audience next =
     (\<lambda>request.
        case grantOf request of
          None \<Rightarrow> error_program ''capability denied'' 403
        | Some authorize \<Rightarrow>
            if authorize \<lparr>cu_Issuer = ''reference-http'', cu_Audience = audience, cu_Resource = req_path request,
                 cu_Operation = req_Method request\<rparr> \<noteq> NilErr
            then error_program ''capability denied'' 403 else next request)"

subsection \<open>Authorization\<close>

record authorization_request =
  ar_Subject :: string
  ar_Action :: string
  ar_ResourceType :: string
  ar_Tenant :: string

text \<open>\<open>subjectOf\<close> is \<^verbatim>\<open>authn.Subject\<close>, \<open>tenant\<close> what \<^verbatim>\<open>tenancy.RequireTenant\<close> returned for the request's context.\<close>

definition mapAuthorizationRequest ::
    "go_error \<Rightarrow> string option \<Rightarrow> (string \<Rightarrow> go_error + string) \<Rightarrow> go_error + string \<Rightarrow> go_error + authorization_request" where
  "mapAuthorizationRequest invalidPrincipal authenticated subjectOf tenant =
     (case authenticated of
        None \<Rightarrow> Inl invalidPrincipal
      | Some p \<Rightarrow>
          (case subjectOf p of
             Inl err \<Rightarrow> Inl err
           | Inr subject \<Rightarrow>
               (case tenant of
                  Inl err \<Rightarrow> Inl err
                | Inr t \<Rightarrow> Inr \<lparr>ar_Subject = subject, ar_Action = ''reference.echo'',
                    ar_ResourceType = ''reference-service'', ar_Tenant = t\<rparr>)))"

subsection \<open>The echo method\<close>

record echo_result =
  eo_Message :: string
  eo_Principal :: string
  eo_Tenant :: string
  eo_CorrelationID :: string
  eo_RequestID :: string

record audit_record =
  au_Action :: string
  au_Actor :: string
  au_Tenant :: string
  au_CorrelationID :: string
  au_RequestID :: string
  au_SourceService :: string
  au_SourceVersion :: string
  au_Environment :: string

datatype rpc_error = DecodeFailed go_error | InvalidParams go_error | InternalError go_error

record echo_context =
  ex_principal :: "string option"
  ex_tenant :: "go_error + string"
  ex_identifiers :: "(string \<times> string) option"

text \<open>
  The result with the audit records handed to the recorder: \<open>build\<close> and \<open>submit\<close> are the builder's and the
  recorder's errors for a record.
\<close>

definition echoHandler ::
    "reference_http_config \<Rightarrow> (string \<Rightarrow> go_error + string) \<Rightarrow> (string \<Rightarrow> go_error) \<Rightarrow> (audit_record \<Rightarrow> go_error) \<Rightarrow> (audit_record \<Rightarrow> go_error) \<Rightarrow>
     echo_context \<Rightarrow> string \<Rightarrow> (rpc_error + echo_result) \<times> audit_record list" where
  "echoHandler input decode validate build submit ctx raw =
     (case decode raw of
        Inl err \<Rightarrow> (Inl (DecodeFailed err), [])
      | Inr message \<Rightarrow>
          if validate message \<noteq> NilErr then (Inl (InvalidParams (validate message)), [])
          else case ex_principal ctx of
            None \<Rightarrow> (Inl (InternalError NilErr), [])
          | Some actor \<Rightarrow>
              (case ex_tenant ctx of
                 Inl err \<Rightarrow> (Inl (InternalError err), [])
               | Inr tenant \<Rightarrow>
                   (case ex_identifiers ctx of
                      None \<Rightarrow> (Inl (InternalError NilErr), [])
                    | Some (correlationID, requestID) \<Rightarrow>
                        let rec = \<lparr>au_Action = ''reference.echo'', au_Actor = actor, au_Tenant = tenant,
                              au_CorrelationID = correlationID, au_RequestID = requestID,
                              au_SourceService = rh_ServiceName input, au_SourceVersion = rh_Version input,
                              au_Environment = rh_Environment input\<rparr>
                        in if build rec \<noteq> NilErr then (Inl (InternalError (build rec)), [])
                           else if submit rec \<noteq> NilErr then (Inl (InternalError (submit rec)), [rec])
                           else (Inr \<lparr>eo_Message = message, eo_Principal = actor, eo_Tenant = tenant,
                                   eo_CorrelationID = correlationID, eo_RequestID = requestID\<rparr>, [rec]))))"

subsection \<open>Capability identifiers are unique\<close>

definition atoi :: "string \<Rightarrow> nat" where
  "atoi s = foldl (\<lambda>n c. n * 10 + (of_char c - 48)) 0 s"

lemma atoi_itoa [simp]: "atoi (itoa n) = n"
proof (induction n rule: itoa.induct)
  case (1 n)
  show ?case
  proof (cases "n < 10")
    case True
    then show ?thesis by (subst itoa.simps) (simp add: atoi_def)
  next
    case False
    have "n mod 10 < 10" by simp
    then show ?thesis using False 1 by (subst itoa.simps) (simp add: atoi_def)
  qed
qed

lemma itoa_digits: "c \<in> set (itoa n) \<Longrightarrow> c \<noteq> CHR ''-''"
proof (induction n rule: itoa.induct)
  case (1 n)
  have digit: "k < 10 \<Longrightarrow> char_of (48 + k) \<noteq> CHR ''-''" for k :: nat
  proof
    assume "k < 10" "char_of (48 + k) = CHR ''-''"
    then have "(of_char (char_of (48 + k) :: char) :: nat) = of_char (CHR ''-'')" by simp
    then show False using \<open>k < 10\<close> by simp
  qed
  show ?case
  proof (cases "n < 10")
    case True
    then show ?thesis using 1(2) digit by (subst (asm) itoa.simps) auto
  next
    case False
    then show ?thesis using 1 digit[of "n mod 10"] by (subst (asm) (2) itoa.simps) auto
  qed
qed

lemma capability_id_serial:
  assumes "capability_id n s = capability_id m t"
  shows "s = t"
proof -
  have same: "itoa n @ CHR ''-'' # itoa (unat s) = itoa m @ CHR ''-'' # itoa (unat t)"
    using assms by (simp add: capability_id_def)
  have split: "drop 1 (dropWhile (\<lambda>c. c \<noteq> CHR ''-'') (itoa n @ CHR ''-'' # rest)) = rest" for n and rest :: string
    using itoa_digits[of _ n] by (subst dropWhile_append2) auto
  have "itoa (unat s) = itoa (unat t)" using split[of n "itoa (unat s)"] split[of m "itoa (unat t)"] same by simp
  then have "unat s = unat t" by (metis atoi_itoa)
  then show ?thesis by (simp add: word_unat_eq_iff)
qed

lemma prepared_ids_nth: "i < length ticks \<Longrightarrow> prepared_ids ticks s ! i = capability_id (ticks ! i) (s + of_nat (Suc i))"
proof (induction ticks arbitrary: i s)
  case (Cons t ticks)
  then show ?case by (cases i) (auto simp: algebra_simps)
qed simp

lemma prepared_ids_length [simp]: "length (prepared_ids ticks s) = length ticks"
  by (induction ticks arbitrary: s) auto

text \<open>\<^bold>\<open>Capabilities are unique.\<close> Up to the wrap-around of the 64-bit serial, no two requests prepared by one
  reference get a capability of the same identifier, whatever the clock shows, also when it stands
  still or goes back.\<close>

theorem capability_ids_distinct:
  assumes "length ticks \<le> 2 ^ 64"
  shows "distinct (prepared_ids ticks serial)"
  unfolding distinct_conv_nth
proof (intro allI impI)
  fix i j
  assume ij: "i < length (prepared_ids ticks serial)" "j < length (prepared_ids ticks serial)" "i \<noteq> j"
  have "(of_nat (Suc i) :: 64 word) \<noteq> of_nat (Suc j)"
  proof
    assume "(of_nat (Suc i) :: 64 word) = of_nat (Suc j)"
    then have "(of_nat i :: 64 word) = of_nat j" by simp
    then have "unat (of_nat i :: 64 word) = unat (of_nat j :: 64 word)" by simp
    then show False using ij assms by (simp add: unat_of_nat take_bit_nat_eq_self)
  qed
  then show "prepared_ids ticks serial ! i \<noteq> prepared_ids ticks serial ! j"
    using ij by (auto simp: prepared_ids_nth dest: capability_id_serial)
qed

theorem capability_ids_distinct_witness: "distinct (prepared_ids [7, 7, 3] (- 1))"
  by (rule capability_ids_distinct) simp

subsection \<open>Echoes are audited\<close>

text \<open>\<^bold>\<open>No echo without its audit record.\<close> The method answers with a result only after exactly one record
  was accepted by the recorder, and that record names the principal, the tenant, the correlation
  and the request of the answer; a request that is rejected before that submits no record; and a
  record the recorder refuses makes the answer an internal error.\<close>

theorem echo_audited:
  assumes "echoHandler input decode validate build submit ctx raw = (answer, records)"
  shows "case answer of
      Inr r \<Rightarrow> \<exists>entry. records = [entry] \<and> submit entry = NilErr \<and> build entry = NilErr \<and> validate (eo_Message r) = NilErr \<and>
        decode raw = Inr (eo_Message r) \<and> ex_principal ctx = Some (eo_Principal r) \<and> ex_tenant ctx = Inr (eo_Tenant r) \<and>
        au_Actor entry = eo_Principal r \<and> au_Tenant entry = eo_Tenant r \<and>
        au_CorrelationID entry = eo_CorrelationID r \<and> au_RequestID entry = eo_RequestID r
    | Inl err \<Rightarrow> records = [] \<or> (\<exists>entry. records = [entry] \<and> submit entry \<noteq> NilErr \<and> err = InternalError (submit entry))"
  using assms by (auto simp: echoHandler_def Let_def split: sum.splits option.splits if_splits)

theorem echo_audited_witness:
  "length (snd (echoHandler \<lparr>rh_ServiceName = ''r'', rh_Version = ''1'', rh_Environment = ''t'', rh_BearerToken = ''b'', rh_PrincipalID = ''p'',
     rh_TenantID = ''t'', rh_BusinessListener = True, rh_ManagementListener = True, rh_TrustTenant = True, rh_Readiness = True,
     rh_ClientTransport = False\<rparr> Inr (\<lambda>_. NilErr) (\<lambda>_. NilErr) (\<lambda>_. NilErr)
     \<lparr>ex_principal = Some ''p'', ex_tenant = Inr ''t'', ex_identifiers = Some (''c'', ''q'')\<rparr> ''hello'')) = 1"
proof -
  let ?input = "\<lparr>rh_ServiceName = ''r'', rh_Version = ''1'', rh_Environment = ''t'', rh_BearerToken = ''b'', rh_PrincipalID = ''p'',
     rh_TenantID = ''t'', rh_BusinessListener = True, rh_ManagementListener = True, rh_TrustTenant = True, rh_Readiness = True,
     rh_ClientTransport = False\<rparr>"
  let ?ctx = "\<lparr>ex_principal = Some ''p'', ex_tenant = Inr ''t'', ex_identifiers = Some (''c'', ''q'')\<rparr>"
  obtain answer records where call: "echoHandler ?input Inr (\<lambda>_. NilErr) (\<lambda>_. NilErr) (\<lambda>_. NilErr) ?ctx ''hello'' = (answer, records)"
    by fastforce
  then have "\<exists>r. answer = Inr r" by (auto simp: echoHandler_def)
  then show ?thesis using echo_audited[OF call] call by auto
qed

subsection \<open>The other checks\<close>

text \<open>Behind the capability check, the next handler runs only for a granted use of this path and method.\<close>

lemma capability_guards:
  "capabilityAuthorization grantOf audience next request =
     (if \<exists>authorize. grantOf request = Some authorize \<and>
           authorize \<lparr>cu_Issuer = ''reference-http'', cu_Audience = audience, cu_Resource = req_path request,
             cu_Operation = req_Method request\<rparr> = NilErr
      then next request else error_program ''capability denied'' 403)"
  by (auto simp: capabilityAuthorization_def split: option.splits)

text \<open>A failed construction has shut down the telemetry it created; a successful one leaves it to the caller.\<close>

lemma http_New_telemetry:
  "http_New a parseTenant c input = (err, created, stopped) \<Longrightarrow> stopped \<longleftrightarrow> created \<and> err \<noteq> NilErr"
  by (auto simp: http_New_def split: if_splits)

text \<open>
  What the client signs is what the server demands: the same algorithms, components and parameter
  rules under one key, and a signature never outlives the server's maximal age.
\<close>

lemma profiles_agree:
  "sp_Algorithms signingProfile = sp_Algorithms verificationProfile \<and>
   sp_Components signingProfile = sp_Components verificationProfile \<and>
   sp_Expires signingProfile = sp_Expires verificationProfile \<and> sp_Nonce signingProfile = sp_Nonce verificationProfile \<and>
   sp_Tag signingProfile = sp_Tag verificationProfile \<and> sp_KeyID signingProfile = sp_KeyID verificationProfile \<and>
   sp_Window signingProfile \<le> sp_Window verificationProfile"
  by (simp add: signingProfile_def verificationProfile_def)

text \<open>A resolved key is valid now and stays fresh for a minute within its validity.\<close>

lemma resolved_key_valid:
  "resolver_Resolve notFound now ownID key keyID = Inr k \<Longrightarrow>
     keyID = ownID \<and> sg_NotBefore k \<le> now \<and> now < sg_FreshUntil k \<and> sg_FreshUntil k \<le> sg_NotAfter k"
  by (auto simp: resolver_Resolve_def split: if_splits)

end
