(* ===== verification/Load_Harness.thy ===== *)
theory Load_Harness
  imports Go_Errors
begin

section \<open>The load harness\<close>

text \<open>
  Models \<^verbatim>\<open>integration/reference-platform/cmd/platform-load/main.go\<close>: the lock-free maximum, the worker
  pool of \<^verbatim>\<open>run\<close>, the percentiles and the checks of settings and responses. Requests, the clock, URL
  parsing and JSON decoding are arguments; the maxima of resource samples use the same lock-free
  routine. Counters are 64-bit in the code and never exceed the number of requests.
\<close>

subsection \<open>updateMaximum\<close>

text \<open>
  A call with its candidate: about to load, about to swap against the value it loaded, returned.
  \<open>max_thread\<close> is one atomic operation of a call on the shared value.
\<close>

datatype max_pc = MaxLoad | MaxSwap int | MaxDone

fun max_thread :: "int \<Rightarrow> int \<Rightarrow> max_pc \<Rightarrow> (int \<times> max_pc) option" where
  "max_thread candidate target MaxLoad = Some (target, if candidate > target then MaxSwap target else MaxDone)"
| "max_thread candidate target (MaxSwap current) =
     (if target = current then Some (candidate, MaxDone) else Some (target, MaxLoad))"
| "max_thread candidate target MaxDone = None"

record max_sys =
  mx_value :: int
  mx_pcs :: "max_pc list"

inductive max_step :: "int list \<Rightarrow> max_sys \<Rightarrow> max_sys \<Rightarrow> bool" for candidates where
  "i < length (mx_pcs s) \<Longrightarrow> i < length candidates \<Longrightarrow>
   max_thread (candidates ! i) (mx_value s) (mx_pcs s ! i) = Some (v, pc) \<Longrightarrow>
   max_step candidates s (s\<lparr>mx_value := v, mx_pcs := (mx_pcs s)[i := pc]\<rparr>)"

definition max_start :: "int \<Rightarrow> int list \<Rightarrow> max_sys \<Rightarrow> bool" where
  "max_start initial candidates s \<longleftrightarrow> s = \<lparr>mx_value = initial, mx_pcs = map (\<lambda>_. MaxLoad) candidates\<rparr>"

fun pc_ok :: "int \<Rightarrow> int \<Rightarrow> max_pc \<Rightarrow> bool" where
  "pc_ok v candidate MaxLoad = True"
| "pc_ok v candidate (MaxSwap current) = (current \<le> v \<and> current < candidate)"
| "pc_ok v candidate MaxDone = (candidate \<le> v)"

definition max_inv :: "int \<Rightarrow> int list \<Rightarrow> max_sys \<Rightarrow> bool" where
  "max_inv initial candidates s \<longleftrightarrow>
     length (mx_pcs s) = length candidates \<and> initial \<le> mx_value s \<and> mx_value s \<in> insert initial (set candidates) \<and>
     (\<forall>i < length candidates. pc_ok (mx_value s) (candidates ! i) (mx_pcs s ! i))"

lemma max_thread_ok:
  "pc_ok v c pc \<Longrightarrow> max_thread c v pc = Some (v', pc') \<Longrightarrow> v \<le> v' \<and> v' \<in> {v, c} \<and> pc_ok v' c pc'"
  by (cases pc) (auto split: if_splits)

lemma pc_ok_mono: "pc_ok v c pc \<Longrightarrow> v \<le> v' \<Longrightarrow> pc_ok v' c pc"
  by (cases pc) auto

lemma max_own:
  assumes "max_inv initial candidates s" and "i < length candidates"
    and "max_thread (candidates ! i) (mx_value s) (mx_pcs s ! i) = Some (v, pc)"
  shows "mx_value s \<le> v \<and> v \<in> {mx_value s, candidates ! i} \<and> pc_ok v (candidates ! i) pc"
  using max_thread_ok[OF _ assms(3)] assms(1,2) by (simp add: max_inv_def)

lemma max_inv_step:
  assumes "max_inv initial candidates s" and "max_step candidates s t"
  shows "max_inv initial candidates t"
  using assms(2)
proof (cases rule: max_step.cases)
  case (1 i v pc)
  have own: "mx_value s \<le> v \<and> v \<in> {mx_value s, candidates ! i} \<and> pc_ok v (candidates ! i) pc"
    by (rule max_own[OF assms(1) 1(3,4)])
  then show ?thesis
    using assms(1) 1(1-3) by (auto simp: max_inv_def nth_list_update intro: pc_ok_mono)
qed

interpretation maximum: safe_system "max_start initial candidates" "max_step candidates" "max_inv initial candidates"
  for initial candidates
proof unfold_locales
  fix s
  assume "max_start initial candidates s"
  then show "max_inv initial candidates s" by (simp add: max_start_def max_inv_def)
qed (rule max_inv_step)

text \<open>
  The work left: each swap that succeeds raises the value past a candidate that was above it; a call
  that must retry has seen such a swap since it loaded.
\<close>

definition above :: "int list \<Rightarrow> int \<Rightarrow> nat" where
  "above candidates v = card {c \<in> set candidates. v < c}"

fun pc_work :: "int \<Rightarrow> max_pc \<Rightarrow> nat" where
  "pc_work v MaxLoad = 2"
| "pc_work v (MaxSwap current) = (if current = v then 1 else 3)"
| "pc_work v MaxDone = 0"

definition max_work :: "int list \<Rightarrow> max_sys \<Rightarrow> nat" where
  "max_work candidates s =
     (3 * length candidates + 1) * above candidates (mx_value s) + sum_list (map (pc_work (mx_value s)) (mx_pcs s))"

lemma above_less: "v < c \<Longrightarrow> c \<in> set candidates \<Longrightarrow> above candidates c < above candidates v"
  unfolding above_def by (rule psubset_card_mono) auto

lemma pc_work_le: "pc_work v pc \<le> 3"
  by (cases pc) auto

lemma sum_work_le: "sum_list (map (pc_work v) pcs) \<le> 3 * length pcs"
  by (induction pcs) (use pc_work_le in \<open>auto intro: add_mono\<close>)

lemma sum_list_map_update:
  "i < length xs \<Longrightarrow> sum_list (map f (xs[i := y])) + f (xs ! i) = sum_list (map f xs) + (f y :: nat)"
proof (induction xs arbitrary: i)
  case (Cons x xs)
  then show ?case by (cases i) auto
qed simp

lemma max_work_step:
  assumes "max_inv initial candidates s" and "max_step candidates s t"
  shows "max_work candidates t < max_work candidates s"
  using assms(2)
proof (cases rule: max_step.cases)
  case (1 i v pc)
  have len: "length (mx_pcs s) = length candidates" using assms(1) by (simp add: max_inv_def)
  show ?thesis
  proof (cases "v = mx_value s")
    case True
    have "pc_work v pc < pc_work v (mx_pcs s ! i)"
      using 1(4) True by (cases "mx_pcs s ! i") (auto split: if_splits)
    then show ?thesis
      using sum_list_map_update[OF 1(2), of "pc_work v" pc] True 1(1) by (simp add: max_work_def)
  next
    case False
    moreover have "mx_value s \<le> v \<and> v \<in> {mx_value s, candidates ! i}"
      using max_own[OF assms(1) 1(3,4)] by blast
    ultimately have swap: "v = candidates ! i" "mx_value s < v" by auto
    have "above candidates v < above candidates (mx_value s)"
      using above_less[OF swap(2)] swap(1) 1(3) by simp
    then have "(3 * length candidates + 1) * above candidates v + (3 * length candidates + 1)
        \<le> (3 * length candidates + 1) * above candidates (mx_value s)"
      by (metis Suc_leI add.commute mult_Suc_right mult_le_mono2)
    moreover have "sum_list (map (pc_work v) ((mx_pcs s)[i := pc])) \<le> 3 * length candidates"
      using sum_work_le[of v "(mx_pcs s)[i := pc]"] len by simp
    ultimately show ?thesis unfolding 1(1) max_work_def by simp
  qed
qed

lemma max_can_step:
  assumes "max_inv initial candidates s" and "mx_pcs s ! i \<noteq> MaxDone" and "i < length candidates"
  shows "\<exists>t. max_step candidates s t"
proof -
  obtain v pc where "max_thread (candidates ! i) (mx_value s) (mx_pcs s ! i) = Some (v, pc)"
    using assms(2) by (cases "mx_pcs s ! i"; cases "mx_pcs s ! i = MaxSwap (mx_value s)") fastforce+
  then show ?thesis using assms(1,3) max_step.intros[of i s candidates v pc] by (auto simp: max_inv_def)
qed

text \<open>\<^bold>\<open>Concurrent maximum updates are lock-free and lose no candidate.\<close> However the loads and swaps of
  concurrent \<^verbatim>\<open>updateMaximum\<close> calls interleave: every step lowers a measure, so the calls together
  take a bounded number of steps and a state in which no call can step is one in which all returned;
  the value is always the initial one or a candidate and never below a candidate whose call
  returned, and when all returned it is the maximum of the initial value and the candidates.\<close>

theorem maximum_lock_free:
  assumes "reachable (max_start initial candidates) (max_step candidates) s"
  shows "(max_step candidates s t \<longrightarrow> max_work candidates t < max_work candidates s) \<and>
    ((\<nexists>t. max_step candidates s t) \<longrightarrow> mx_pcs s = replicate (length candidates) MaxDone) \<and>
    (i < length candidates \<longrightarrow> mx_pcs s ! i = MaxDone \<longrightarrow> candidates ! i \<le> mx_value s) \<and>
    (mx_pcs s = replicate (length candidates) MaxDone \<longrightarrow> mx_value s = Max (insert initial (set candidates)))"
proof -
  have inv: "max_inv initial candidates s" using assms by (rule maximum.reachable_inv)
  then have len: "length (mx_pcs s) = length candidates" by (simp add: max_inv_def)
  have stuck: "mx_pcs s = replicate (length candidates) MaxDone" if "\<nexists>t. max_step candidates s t"
    using that max_can_step[OF inv] len by (auto simp: list_eq_iff_nth_eq)
  have returned: "candidates ! i \<le> mx_value s" if "i < length candidates" "mx_pcs s ! i = MaxDone" for i
    using inv that unfolding max_inv_def by (metis pc_ok.simps(3))
  have "mx_value s = Max (insert initial (set candidates))" if "mx_pcs s = replicate (length candidates) MaxDone"
  proof (rule Max_eqI[symmetric])
    show "y \<le> mx_value s" if "y \<in> insert initial (set candidates)" for y
      using that returned \<open>mx_pcs s = _\<close> inv by (auto simp: in_set_conv_nth max_inv_def)
  qed (use inv in \<open>auto simp: max_inv_def\<close>)
  then show ?thesis using max_work_step[OF inv] stuck returned by blast
qed

theorem maximum_lock_free_witness:
  "0 \<le> mx_value \<lparr>mx_value = 0, mx_pcs = [MaxLoad]\<rparr> \<and> max_step [5] \<lparr>mx_value = 0, mx_pcs = [MaxLoad]\<rparr> \<lparr>mx_value = 0, mx_pcs = [MaxSwap 0]\<rparr> \<and>
   max_work [5] \<lparr>mx_value = 0, mx_pcs = [MaxSwap 0]\<rparr> < max_work [5] \<lparr>mx_value = 0, mx_pcs = [MaxLoad]\<rparr>"
proof -
  let ?s = "\<lparr>mx_value = 0, mx_pcs = [MaxLoad]\<rparr>"
  have "reachable (max_start 0 [5]) (max_step [5]) ?s" by (rule reachable_init) (simp add: max_start_def)
  moreover have "max_step [5] ?s \<lparr>mx_value = 0, mx_pcs = [MaxSwap 0]\<rparr>"
    using max_step.intros[of 0 ?s "[5]" 0 "MaxSwap 0"] by simp
  ultimately show ?thesis using maximum_lock_free by simp
qed

subsection \<open>Settings and responses\<close>

record load_config =
  lc_Endpoint :: string
  lc_ResourcesEndpoint :: string
  lc_Requests :: int
  lc_Concurrency :: int
  lc_RequestTimeout :: duration
  lc_SampleInterval :: duration

text \<open>\<open>parse\<close> gives the scheme and the host of a URL, or an error.\<close>

definition validEndpoint :: "(string \<Rightarrow> (string \<times> string) option) \<Rightarrow> string \<Rightarrow> bool" where
  "validEndpoint parse endpoint =
     (case parse endpoint of None \<Rightarrow> False | Some (scheme, host) \<Rightarrow> (scheme = ''http'' \<or> scheme = ''https'') \<and> host \<noteq> [])"

definition valid_settings :: "(string \<Rightarrow> (string \<times> string) option) \<Rightarrow> bool \<Rightarrow> load_config \<Rightarrow> bool" where
  "valid_settings parse ctx_present settings \<longleftrightarrow>
     \<not> (\<not> ctx_present \<or> lc_Requests settings < 1 \<or> lc_Concurrency settings < 1 \<or>
        lc_Concurrency settings > lc_Requests settings \<or> lc_RequestTimeout settings \<le> 0 \<or>
        lc_SampleInterval settings \<le> 0 \<or> \<not> validEndpoint parse (lc_Endpoint settings) \<or>
        \<not> validEndpoint parse (lc_ResourcesEndpoint settings))"

text \<open>An answer of the client: an error, or a status with the body and whether reading it failed.\<close>

datatype load_answer = NoAnswer | Answer int string bool

definition performRequest :: "load_answer \<Rightarrow> bool" where
  "performRequest answer = (case answer of
     NoAnswer \<Rightarrow> False
   | Answer status body readFailed \<Rightarrow>
       \<not> readFailed \<and> status = 200 \<and> take 1024 body = ''reference-platform'' @ [char_of (10 :: nat)])"

record resource_maxima =
  rm_heapAlloc :: int
  rm_heapSys :: int
  rm_goroutines :: int
  rm_descriptors :: int

text \<open>\<open>decode\<close> is the JSON decoder on the first 4 KiB of the body.\<close>

definition sampleResources ::
    "(string \<Rightarrow> (int \<times> int \<times> int \<times> int) option) \<Rightarrow> load_answer \<Rightarrow> resource_maxima \<Rightarrow> resource_maxima option" where
  "sampleResources decode answer maxima = (case answer of
     NoAnswer \<Rightarrow> None
   | Answer status body readFailed \<Rightarrow>
       if status \<noteq> 200 then None
       else case decode (take 4096 body) of
         None \<Rightarrow> None
       | Some (heapAlloc, heapSys, goroutines, descriptors) \<Rightarrow>
           Some \<lparr>rm_heapAlloc = max (rm_heapAlloc maxima) heapAlloc, rm_heapSys = max (rm_heapSys maxima) heapSys,
             rm_goroutines = max (rm_goroutines maxima) goroutines, rm_descriptors = max (rm_descriptors maxima) descriptors\<rparr>)"

subsection \<open>The worker pool\<close>

text \<open>
  A worker between the statements of its loop; the boolean is whether the request failed. The
  maximum is raised in one step, as \<open>maximum_lock_free\<close> allows.
\<close>

datatype worker =
    WorkerIdle | WorkerReceived | WorkerCounted int | WorkerRequesting | WorkerTimed bool | WorkerUncounted bool | WorkerDone

record load_sys =
  ld_workers :: "worker list"
  ld_toSend :: nat
  ld_closed :: bool
  ld_cancelled :: bool
  ld_inFlight :: int
  ld_maxInFlight :: int
  ld_completed :: nat
  ld_failed :: nat
  ld_latencies :: "duration list"

text \<open>What the request of a worker did and how long it took is the environment's choice.\<close>

fun worker_thread :: "bool \<Rightarrow> duration \<Rightarrow> worker \<Rightarrow> load_sys \<Rightarrow> (load_sys \<times> worker) option" where
  "worker_thread f d WorkerIdle s = (if ld_closed s then Some (s, WorkerDone) else None)"
| "worker_thread f d WorkerReceived s = Some (s\<lparr>ld_inFlight := ld_inFlight s + 1\<rparr>, WorkerCounted (ld_inFlight s + 1))"
| "worker_thread f d (WorkerCounted current) s =
     Some (s\<lparr>ld_maxInFlight := max (ld_maxInFlight s) current\<rparr>, WorkerRequesting)"
| "worker_thread f d WorkerRequesting s = Some (s\<lparr>ld_latencies := ld_latencies s @ [d]\<rparr>, WorkerTimed f)"
| "worker_thread f d (WorkerTimed g) s = Some (s\<lparr>ld_inFlight := ld_inFlight s - 1\<rparr>, WorkerUncounted g)"
| "worker_thread f d (WorkerUncounted g) s =
     Some (if g then s\<lparr>ld_failed := ld_failed s + 1\<rparr> else s\<lparr>ld_completed := ld_completed s + 1\<rparr>, WorkerIdle)"
| "worker_thread f d WorkerDone s = None"

text \<open>
  The main goroutine hands a job to a waiting worker, closes the channel after the last job, or
  leaves the loop when its context is done.
\<close>

inductive load_step :: "load_sys \<Rightarrow> load_sys \<Rightarrow> bool" where
  load_worker: "i < length (ld_workers s) \<Longrightarrow> worker_thread f d (ld_workers s ! i) s = Some (t, w) \<Longrightarrow>
    load_step s (t\<lparr>ld_workers := (ld_workers s)[i := w]\<rparr>)"
| load_send: "i < length (ld_workers s) \<Longrightarrow> ld_workers s ! i = WorkerIdle \<Longrightarrow> \<not> ld_closed s \<Longrightarrow> ld_toSend s = Suc n \<Longrightarrow>
    load_step s (s\<lparr>ld_toSend := n, ld_workers := (ld_workers s)[i := WorkerReceived]\<rparr>)"
| load_close: "\<not> ld_closed s \<Longrightarrow> ld_toSend s = 0 \<Longrightarrow> load_step s (s\<lparr>ld_closed := True\<rparr>)"
| load_cancel: "\<not> ld_closed s \<Longrightarrow> ld_toSend s \<noteq> 0 \<Longrightarrow> load_step s (s\<lparr>ld_closed := True, ld_cancelled := True\<rparr>)"

definition load_start :: "nat \<Rightarrow> nat \<Rightarrow> load_sys \<Rightarrow> bool" where
  "load_start requests concurrency s \<longleftrightarrow>
     s = \<lparr>ld_workers = replicate concurrency WorkerIdle, ld_toSend = requests, ld_closed = False, ld_cancelled = False,
          ld_inFlight = 0, ld_maxInFlight = 0, ld_completed = 0, ld_failed = 0, ld_latencies = []\<rparr>"

definition count_of :: "('a \<Rightarrow> bool) \<Rightarrow> 'a list \<Rightarrow> nat" where
  "count_of P xs = length (filter P xs)"

lemma count_of_update:
  "i < length xs \<Longrightarrow> count_of P (xs[i := y]) + (if P (xs ! i) then 1 else 0) = count_of P xs + (if P y then 1 else 0)"
  unfolding count_of_def
proof (induction xs arbitrary: i)
  case (Cons x xs)
  then show ?case by (cases i) auto
qed simp

lemma count_of_le: "count_of P xs \<le> length xs"
  by (simp add: count_of_def)

fun in_flight :: "worker \<Rightarrow> bool" where
  "in_flight (WorkerCounted _) = True"
| "in_flight WorkerRequesting = True"
| "in_flight (WorkerTimed _) = True"
| "in_flight _ = False"

fun holds_job :: "worker \<Rightarrow> bool" where
  "holds_job WorkerIdle = False"
| "holds_job WorkerDone = False"
| "holds_job _ = True"

fun timed :: "worker \<Rightarrow> bool" where
  "timed (WorkerTimed _) = True"
| "timed (WorkerUncounted _) = True"
| "timed _ = False"

fun worker_ok :: "nat \<Rightarrow> worker \<Rightarrow> bool" where
  "worker_ok n (WorkerCounted current) = (current \<le> int n)"
| "worker_ok n _ = True"

definition load_inv :: "nat \<Rightarrow> nat \<Rightarrow> load_sys \<Rightarrow> bool" where
  "load_inv requests concurrency s \<longleftrightarrow>
     length (ld_workers s) = concurrency \<and>
     ld_inFlight s = int (count_of in_flight (ld_workers s)) \<and>
     ld_maxInFlight s \<le> int concurrency \<and> list_all (worker_ok concurrency) (ld_workers s) \<and>
     ld_toSend s + count_of holds_job (ld_workers s) + ld_completed s + ld_failed s = requests \<and>
     length (ld_latencies s) = ld_completed s + ld_failed s + count_of timed (ld_workers s) \<and>
     (ld_closed s \<and> \<not> ld_cancelled s \<longrightarrow> ld_toSend s = 0)"

lemma list_all_update: "list_all P xs \<Longrightarrow> P y \<Longrightarrow> list_all P (xs[i := y])"
  by (auto simp: list_all_iff dest!: set_update_subset_insert[THEN subsetD])

lemma load_inv_worker:
  assumes "load_inv requests concurrency s" and "i < length (ld_workers s)"
    and "worker_thread f d (ld_workers s ! i) s = Some (t, w)"
  shows "load_inv requests concurrency (t\<lparr>ld_workers := (ld_workers s)[i := w]\<rparr>)"
proof -
  note counts = count_of_update[OF assms(2), of _ w]
  have ok: "list_all (worker_ok concurrency) (ld_workers s)" "worker_ok concurrency (ld_workers s ! i)"
    using assms(1,2) by (auto simp: load_inv_def list_all_length)
  have room: "count_of in_flight (ld_workers s) < concurrency" if "\<not> in_flight (ld_workers s ! i)"
    using counts[of in_flight] that count_of_le[of in_flight "(ld_workers s)[i := WorkerRequesting]"]
      count_of_update[OF assms(2), of in_flight WorkerRequesting] assms(1) by (simp add: load_inv_def)
  show ?thesis
    using assms(1,3) counts[of in_flight] counts[of holds_job] counts[of timed] ok room
    by (cases "ld_workers s ! i") (auto simp: load_inv_def list_all_update split: if_splits)
qed

lemma load_inv_step:
  assumes "load_inv requests concurrency s" and "load_step s t"
  shows "load_inv requests concurrency t"
  using assms(2)
proof (cases rule: load_step.cases)
  case (load_worker i f d u w)
  then show ?thesis using load_inv_worker[OF assms(1)] by simp
next
  case (load_send i n)
  then show ?thesis
    using assms(1) count_of_update[OF load_send(2), of in_flight WorkerReceived]
      count_of_update[OF load_send(2), of holds_job WorkerReceived] count_of_update[OF load_send(2), of timed WorkerReceived]
    by (auto simp: load_inv_def list_all_update)
qed (use assms(1) in \<open>auto simp: load_inv_def\<close>)

interpretation pool: safe_system "load_start requests concurrency" load_step "load_inv requests concurrency"
  for requests concurrency
proof unfold_locales
  fix s
  assume "load_start requests concurrency s"
  then show "load_inv requests concurrency s"
    by (simp add: load_start_def load_inv_def count_of_def list_all_length)
qed (rule load_inv_step)

fun worker_work :: "worker \<Rightarrow> nat" where
  "worker_work WorkerReceived = 6"
| "worker_work (WorkerCounted _) = 5"
| "worker_work WorkerRequesting = 4"
| "worker_work (WorkerTimed _) = 3"
| "worker_work (WorkerUncounted _) = 2"
| "worker_work WorkerIdle = 1"
| "worker_work WorkerDone = 0"

definition load_work :: "load_sys \<Rightarrow> nat" where
  "load_work s = 6 * ld_toSend s + sum_list (map worker_work (ld_workers s)) + (if ld_closed s then 0 else 1)"

lemma load_work_step:
  assumes "load_step s t"
  shows "load_work t < load_work s"
  using assms
proof (cases rule: load_step.cases)
  case (load_worker i f d u w)
  have "worker_work w < worker_work (ld_workers s ! i) \<and> ld_toSend u = ld_toSend s \<and> ld_closed u = ld_closed s"
    using load_worker(3) by (cases "ld_workers s ! i") (auto split: if_splits)
  then show ?thesis
    using sum_list_map_update[OF load_worker(2), of worker_work w] load_worker(1) by (simp add: load_work_def)
next
  case (load_send i n)
  then show ?thesis
    using sum_list_map_update[OF load_send(2), of worker_work WorkerReceived] by (simp add: load_work_def)
qed (auto simp: load_work_def)

lemma load_stuck:
  assumes "\<nexists>t. load_step s t"
  shows "ld_closed s \<and> ld_workers s = replicate (length (ld_workers s)) WorkerDone"
proof -
  have closed: "ld_closed s" using assms load_close[of s] load_cancel[of s] by blast
  have "ld_workers s ! i = WorkerDone" if "i < length (ld_workers s)" for i
  proof (rule ccontr)
    assume "ld_workers s ! i \<noteq> WorkerDone"
    then have "worker_thread False 0 (ld_workers s ! i) s \<noteq> None"
      using closed by (cases "ld_workers s ! i") auto
    then show False using assms load_worker[OF that] by fast
  qed
  then show ?thesis using closed by (auto simp: list_eq_iff_nth_eq)
qed

text \<open>C38. \<^bold>\<open>The worker pool loses no request, respects its concurrency and always ends.\<close> In every interleaving of
  the workers with the dispatching loop: at most the configured number of requests are in flight,
  also by the recorded maximum; the latency buffer always has room for the value a worker is about
  to send, so the send never blocks; every step lowers a measure; and where nothing can step every
  worker has returned, and unless the campaign was cancelled each request was counted once as
  completed or failed, with one latency each.\<close>

theorem load_pool_accounts:
  assumes "reachable (load_start requests concurrency) load_step s"
  shows "ld_inFlight s \<le> int concurrency \<and> ld_maxInFlight s \<le> int concurrency \<and>
    (WorkerRequesting \<in> set (ld_workers s) \<longrightarrow> length (ld_latencies s) < requests) \<and>
    (load_step s t \<longrightarrow> load_work t < load_work s) \<and>
    ((\<nexists>t. load_step s t) \<longrightarrow> ld_workers s = replicate concurrency WorkerDone \<and>
      (\<not> ld_cancelled s \<longrightarrow> ld_completed s + ld_failed s = requests \<and> length (ld_latencies s) = requests))"
proof -
  have inv: "load_inv requests concurrency s" using assms by (rule pool.reachable_inv)
  have room: "length (ld_latencies s) < requests" if "WorkerRequesting \<in> set (ld_workers s)"
  proof -
    have "count_of timed ws < count_of holds_job ws" if "WorkerRequesting \<in> set ws" for ws
      using that
    proof (induction ws)
      case (Cons w ws)
      have "count_of timed ws \<le> count_of holds_job ws"
        unfolding count_of_def by (induction ws) (auto elim: timed.elims)
      then show ?case using Cons by (cases w) (auto simp: count_of_def)
    qed simp
    from this[OF that] show ?thesis using inv by (simp add: load_inv_def)
  qed
  have ended: "ld_workers s = replicate concurrency WorkerDone \<and>
      (\<not> ld_cancelled s \<longrightarrow> ld_completed s + ld_failed s = requests \<and> length (ld_latencies s) = requests)"
    if "\<nexists>t. load_step s t"
    using load_stuck[OF that] inv by (auto simp: load_inv_def count_of_def)
  have "ld_inFlight s \<le> int concurrency"
    using inv count_of_le[of in_flight "ld_workers s"] by (simp add: load_inv_def)
  then show ?thesis using inv room load_work_step ended by (auto simp: load_inv_def)
qed

definition idle_pool :: load_sys where
  "idle_pool = \<lparr>ld_workers = [WorkerIdle], ld_toSend = 1, ld_closed = False, ld_cancelled = False,
     ld_inFlight = 0, ld_maxInFlight = 0, ld_completed = 0, ld_failed = 0, ld_latencies = []\<rparr>"

theorem load_pool_accounts_witness:
  "ld_inFlight idle_pool \<le> 1 \<and> load_work (idle_pool\<lparr>ld_closed := True, ld_cancelled := True\<rparr>) < load_work idle_pool"
proof -
  have "reachable (load_start 1 1) load_step idle_pool"
    by (rule reachable_init) (simp add: load_start_def idle_pool_def)
  moreover have "load_step idle_pool (idle_pool\<lparr>ld_closed := True, ld_cancelled := True\<rparr>)"
    by (rule load_cancel) (simp_all add: idle_pool_def)
  ultimately show ?thesis using load_pool_accounts[of 1 1 idle_pool] by auto
qed

subsection \<open>Percentiles\<close>

text \<open>\<open>None\<close> is an index out of range. The product stays far below 64 bits.\<close>

definition percentile :: "duration list \<Rightarrow> int \<Rightarrow> duration option" where
  "percentile values p =
     (if values = [] then Some 0
      else let index = (int (length values) * p + 99) div 100;
               index = (if index < 1 then 1 else index)
           in if index \<le> int (length values) then Some (values ! nat (index - 1)) else None)"

lemma sorted_at_most:
  assumes "sorted xs" and "j < length xs"
  shows "j < count_of (\<lambda>x. x \<le> xs ! j) xs"
proof -
  have "filter (\<lambda>x. x \<le> xs ! j) (take (Suc j) xs) = take (Suc j) xs"
    using assms by (auto simp: filter_id_conv in_set_conv_nth sorted_iff_nth_mono)
  then have "Suc j \<le> length (filter (\<lambda>x. x \<le> xs ! j) (take (Suc j) xs @ drop (Suc j) xs))"
    using assms(2) by (simp only: filter_append length_append length_take)
  then show ?thesis unfolding count_of_def by (simp only: append_take_drop_id)
qed

lemma sorted_below:
  assumes "sorted xs" and "j < length xs"
  shows "count_of (\<lambda>x. x < xs ! j) xs \<le> j"
proof -
  have "filter (\<lambda>x. x < xs ! j) (drop j xs) = []"
    using assms by (auto simp: filter_empty_conv in_set_conv_nth sorted_iff_nth_mono not_less)
  then have "length (filter (\<lambda>x. x < xs ! j) (take j xs @ drop j xs)) \<le> length (take j xs)"
    by (simp only: filter_append append_Nil2 length_filter_le)
  then show ?thesis unfolding count_of_def using assms(2) by (simp only: append_take_drop_id) simp
qed

lemma rank_bounds:
  "k \<le> c \<Longrightarrow> d \<le> k - 1 \<Longrightarrow> m \<le> 100 * k \<Longrightarrow> 100 * (k - 1) < m \<Longrightarrow> m \<le> 100 * c \<and> 100 * d < (m :: int)"
  by auto

text \<open>\<^bold>\<open>The percentile is the nearest-rank percentile.\<close> For sorted latencies that are not empty and a
  percentage from 1 to 100 the index is in range, and the value is the smallest latency with at
  least that share of the latencies at or below it.\<close>

theorem percentile_nearest_rank:
  assumes "sorted values" and "values \<noteq> []" and "1 \<le> p" and "p \<le> 100"
  shows "\<exists>v. percentile values p = Some v \<and> v \<in> set values \<and>
    p * int (length values) \<le> 100 * int (count_of (\<lambda>x. x \<le> v) values) \<and>
    100 * int (count_of (\<lambda>x. x < v) values) < p * int (length values)"
proof -
  let ?n = "int (length values)" and ?index = "(int (length values) * p + 99) div 100"
  have n: "1 \<le> ?n" using assms(2) by (cases "values") auto
  have product: "1 \<le> ?n * p" "?n * p \<le> ?n * 100" using n assms(3,4) mult_mono[of 1 ?n 1 p] mult_left_mono[of p 100 ?n] by auto
  have low: "1 \<le> ?index" and high: "?index \<le> ?n" using product by linarith+
  have rank: "p * ?n \<le> 100 * ?index" "100 * (?index - 1) < p * ?n" by (simp_all add: mult.commute)
  let ?j = "nat (?index - 1)"
  have j: "?j < length values" "int ?j = ?index - 1" using low high by linarith+
  have "?index \<le> int (count_of (\<lambda>x. x \<le> values ! ?j) values)" using sorted_at_most[OF assms(1) j(1)] j(2) by linarith
  moreover have "int (count_of (\<lambda>x. x < values ! ?j) values) \<le> ?index - 1" using sorted_below[OF assms(1) j(1)] j(2) by linarith
  ultimately have "p * ?n \<le> 100 * int (count_of (\<lambda>x. x \<le> values ! ?j) values) \<and>
      100 * int (count_of (\<lambda>x. x < values ! ?j) values) < p * ?n"
    using rank_bounds[OF _ _ rank] by blast
  moreover have "percentile values p = Some (values ! ?j)"
    using assms(2) low high by (simp add: percentile_def Let_def)
  ultimately show ?thesis using nth_mem[OF j(1)] by blast
qed

theorem percentile_nearest_rank_witness:
  "percentile [10, 20, 30, 40] 50 = Some 20 \<and> (\<exists>v. percentile [10, 20, 30, 40] 99 = Some v \<and> v \<in> {10, 20, 30, 40})"
  using percentile_nearest_rank[of "[10, 20, 30, 40]" 99] by (auto simp: percentile_def)

end
