(* ===== verification/Queue_Skew.thy ===== *)
theory Queue_Skew
  imports Go_Errors
begin

section \<open>The queue skew probe\<close>

text \<open>
  Models \<^verbatim>\<open>integration/reference-durability/cmd/queue-skew-probe/main.go\<close>: the checks of its flags and of the
  build, the validation of a message, the publishing loop and the consuming loop. The queue client,
  the JSON codec and the files are arguments: what each call returned, round by round.
\<close>

subsection \<open>Checks\<close>

record skew_args =
  sk_mode :: string
  sk_version :: string
  sk_address :: string
  sk_stream :: string
  sk_consumer :: string
  sk_prefix :: string
  sk_ready :: string
  sk_release :: string
  sk_count :: int
  sk_first :: int
  sk_reclaim :: bool
  sk_timeout :: duration
  sk_NArg :: int

record build_dependency =
  bd_Path :: string
  bd_Version :: string
  bd_Replaced :: bool

definition verifyQueueVersion :: "addr \<Rightarrow> build_dependency list option \<Rightarrow> string \<Rightarrow> go_error" where
  "verifyQueueVersion a info expected =
     (if (case info of None \<Rightarrow> False | Some deps \<Rightarrow>
            (expected = ''v1.1.0'' \<or> expected = ''v1.1.2'') \<and>
            list_ex (\<lambda>d. bd_Path d = ''github.com/faustbrian/go-queue'' \<and> bd_Version d = expected \<and> \<not> bd_Replaced d) deps)
      then NilErr
      else ErrorString a ''queue skew: exact public Queue build identity required; replacements or MVS drift are forbidden'')"

definition skew_bounds :: "addr \<Rightarrow> skew_args \<Rightarrow> go_error" where
  "skew_bounds a args =
     (if sk_NArg args \<noteq> 0 \<or> sk_count args < 1 \<or> sk_count args > 8 \<or> sk_first args < 0 \<or>
         sk_first args + sk_count args > 8 \<or> sk_timeout args \<le> 0 \<or> sk_timeout args > 30 * second
      then ErrorString a ''queue skew: invalid bounds'' else NilErr)"

definition skew_scenario :: "addr \<Rightarrow> skew_args \<Rightarrow> go_error" where
  "skew_scenario a args =
     (if sk_address args = [] \<or> sk_stream args = [] \<or> sk_consumer args = [] \<or> sk_prefix args = [] \<or> length (sk_prefix args) > 64
      then ErrorString a ''queue skew: missing scenario boundary''
      else if sk_mode args \<notin> {''publish'', ''hold'', ''consume'', ''compete'', ''verify-ack''}
      then ErrorString a ''queue skew: invalid mode''
      else if (sk_mode args = ''hold'' \<or> sk_mode args = ''compete'') \<and> sk_ready args = []
      then ErrorString a ''queue skew: ready file required''
      else if sk_mode args = ''compete'' \<and> (sk_release args = [] \<or> sk_reclaim args)
      then ErrorString a ''queue skew: live competition requires release barrier and disabled reclaim''
      else NilErr)"

text \<open>The checks before any client is made, in order; the identity mode ends after the build check.\<close>

definition skew_admission :: "addr \<Rightarrow> go_error \<Rightarrow> build_dependency list option \<Rightarrow> skew_args \<Rightarrow> go_error" where
  "skew_admission a parseErr info args =
     (if parseErr \<noteq> NilErr then parseErr
      else if skew_bounds a args \<noteq> NilErr then skew_bounds a args
      else if info = None then ErrorString a ''queue skew: missing build information''
      else if verifyQueueVersion a info (sk_version args) \<noteq> NilErr then verifyQueueVersion a info (sk_version args)
      else if sk_mode args = ''identity'' then NilErr
      else skew_scenario a args)"

text \<open>
  A message: what decoding its payload gives (the identifier, the value, whether data follows), its
  bytes, and whether it must be acknowledged. \<open>common\<close> gives the bytes of the common message.
\<close>

record task_message =
  tm_decoded :: "go_error + string \<times> string \<times> bool"
  tm_Bytes :: string
  tm_AckRequired :: bool

definition validateMessage :: "addr \<Rightarrow> (string \<Rightarrow> string) \<Rightarrow> task_message \<Rightarrow> string \<Rightarrow> go_error + string" where
  "validateMessage a common message cohort =
     (case tm_decoded message of
        Inl err \<Rightarrow> Inl err
      | Inr (ident, body, trailing) \<Rightarrow>
          if trailing then Inl (ErrorString a ''queue skew: trailing payload'')
          else if take (length (cohort @ ''-'')) ident \<noteq> cohort @ ''-'' \<or> body \<noteq> ''queue-common-v1'' \<or>
                  tm_Bytes message \<noteq> common ident
          then Inl (ErrorString a ''queue skew: common payload or execution fields changed'')
          else Inr ident)"

subsection \<open>Publishing\<close>

text \<open>For each index the context's error and what the client's call returned; \<open>left\<close> indices remain.\<close>

fun publish_loop :: "string \<Rightarrow> nat \<Rightarrow> nat \<Rightarrow> (nat \<Rightarrow> go_error \<times> go_error) \<Rightarrow> string list \<times> go_error" where
  "publish_loop cohort index 0 rounds = ([], NilErr)"
| "publish_loop cohort index (Suc left) rounds =
     (let (ctxErr, queueErr) = rounds index in
      if ctxErr \<noteq> NilErr then ([], ctxErr)
      else if queueErr \<noteq> NilErr then ([], queueErr)
      else let (ids, err) = publish_loop cohort (Suc index) left rounds
           in ((cohort @ ''-'' @ itoa index) # ids, err))"

text \<open>
  The publishing branch. Its \<^verbatim>\<open>err\<close> is declared in the block of the \<^verbatim>\<open>if\<close>; the returns assign the result of
  the function, and the deferred join of the shutdown error assigns the variable of the block.
\<close>

record err_variables =
  function_err :: go_error
  block_err :: go_error

definition skew_publish ::
    "addr \<Rightarrow> string \<Rightarrow> nat \<Rightarrow> nat \<Rightarrow> (nat \<Rightarrow> go_error \<times> go_error) \<Rightarrow> go_error \<Rightarrow> go_error \<Rightarrow> go_error \<Rightarrow> err_variables" where
  "skew_publish a cohort start wanted rounds createErr encodeErr shutdownErr =
     (if createErr \<noteq> NilErr then \<lparr>function_err = createErr, block_err = createErr\<rparr>
      else
        let err = snd (publish_loop cohort start wanted rounds);
            returned = (if err \<noteq> NilErr then err else encodeErr)
        in \<lparr>function_err = returned, block_err = errors_join a [NilErr, shutdownErr]\<rparr>)"

subsection \<open>Consuming\<close>

datatype request_outcome = NoTaskInQueue | RequestFailed go_error | Delivered task_message

text \<open>
  One round: the context's error, what the client's request returned, how publishing the ready file
  and waiting for the release ended (in the modes that do so), and what the acknowledgement returned.
\<close>

record skew_round =
  rd_ctx :: go_error
  rd_request :: request_outcome
  rd_barrier :: go_error
  rd_ack :: go_error

datatype skew_end = LoopEnded | LoopFailed go_error | Held go_error | Undecided

definition barrier_round :: "string \<Rightarrow> nat \<Rightarrow> bool" where
  "barrier_round mode delivered \<longleftrightarrow> mode = ''hold'' \<or> mode = ''compete'' \<and> delivered = 1"

text \<open>\<open>ids\<close> are the tasks claimed, \<open>acked\<close> those acknowledged, both in order.\<close>

fun consume_loop ::
    "addr \<Rightarrow> (string \<Rightarrow> string) \<Rightarrow> string \<Rightarrow> string \<Rightarrow> nat \<Rightarrow> skew_round list \<Rightarrow> string list \<Rightarrow> string list \<Rightarrow>
     string list \<times> string list \<times> skew_end" where
  "consume_loop a common mode cohort wanted [] ids acked = (ids, acked, if length ids < wanted then Undecided else LoopEnded)"
| "consume_loop a common mode cohort wanted (r # rounds) ids acked =
     (if \<not> length ids < wanted then (ids, acked, LoopEnded)
      else if rd_ctx r \<noteq> NilErr then (ids, acked, LoopFailed (rd_ctx r))
      else case rd_request r of
        NoTaskInQueue \<Rightarrow>
          if mode = ''compete'' \<and> 0 < length ids then (ids, acked, LoopEnded)
          else (ids, acked, LoopFailed (ErrorString a ''no task in queue''))
      | RequestFailed err \<Rightarrow> (ids, acked, LoopFailed err)
      | Delivered message \<Rightarrow>
          case validateMessage a common message cohort of
            Inl err \<Rightarrow> (ids, acked, LoopFailed err)
          | Inr ident \<Rightarrow>
              if ident \<in> set ids then
                (ids, acked, LoopFailed (ErrorString a ''queue skew: duplicate task claim in one consumer''))
              else
                let ids = ids @ [ident] in
                if \<not> tm_AckRequired message then
                  (ids, acked, LoopFailed (ErrorString a ''queue skew: durable acknowledgement required''))
                else if barrier_round mode (length ids) \<and> mode = ''hold'' then (ids, acked, Held (rd_barrier r))
                else if barrier_round mode (length ids) \<and> rd_barrier r \<noteq> NilErr then (ids, acked, LoopFailed (rd_barrier r))
                else if rd_ack r \<noteq> NilErr then (ids, acked, LoopFailed (rd_ack r))
                else consume_loop a common mode cohort wanted rounds ids (acked @ [ident]))"

record queue_stats =
  qs_Acknowledged :: int
  qs_Reclaimed :: int
  qs_Pending :: int
  qs_Lag :: int
  qs_LagKnown :: bool
  qs_Depth :: int

definition verify_ack :: "addr \<Rightarrow> go_error + queue_stats \<Rightarrow> go_error \<Rightarrow> go_error" where
  "verify_ack a stats encodeErr =
     (case stats of
        Inl err \<Rightarrow> err
      | Inr stats \<Rightarrow>
          if \<not> qs_LagKnown stats \<or> qs_Depth stats \<noteq> 0 \<or> qs_Pending stats \<noteq> 0 \<or> qs_Lag stats \<noteq> 0
          then ErrorString a ''queue skew: acknowledged work remains pending or lagging''
          else encodeErr)"

definition consume_verdict :: "addr \<Rightarrow> bool \<Rightarrow> go_error + queue_stats \<Rightarrow> string list \<Rightarrow> go_error" where
  "consume_verdict a reclaim stats ids =
     (case stats of
        Inl err \<Rightarrow> err
      | Inr stats \<Rightarrow>
          if qs_Acknowledged stats \<noteq> int (length ids) \<or> reclaim \<and> qs_Reclaimed stats \<noteq> int (length ids)
          then ErrorString a ''queue skew: acknowledgement or reclaim outcome differs from delivered tasks''
          else NilErr)"

text \<open>The consuming branch: here the deferred join of the worker's shutdown error assigns the function's result.\<close>

definition consume_branch ::
    "addr \<Rightarrow> (string \<Rightarrow> string) \<Rightarrow> skew_args \<Rightarrow> skew_round list \<Rightarrow> go_error + queue_stats \<Rightarrow> go_error \<Rightarrow> go_error \<Rightarrow>
     string list \<times> string list \<times> go_error" where
  "consume_branch a common args rounds stats encodeErr shutdownErr =
     (case consume_loop a common (sk_mode args) (sk_prefix args) (nat (sk_count args)) rounds [] [] of
        (ids, acked, ended) \<Rightarrow>
          let err = (case ended of
                LoopFailed err \<Rightarrow> err
              | Held err \<Rightarrow> err
              | Undecided \<Rightarrow> NilErr
              | LoopEnded \<Rightarrow>
                  (case consume_verdict a (sk_reclaim args) stats ids of NilErr \<Rightarrow> encodeErr | err \<Rightarrow> err))
          in (ids, acked, errors_join a [err, shutdownErr]))"

subsection \<open>Claims and acknowledgements\<close>

definition claims_ok :: "string \<Rightarrow> nat \<Rightarrow> string list \<Rightarrow> bool" where
  "claims_ok cohort wanted ids \<longleftrightarrow>
     distinct ids \<and> length ids \<le> wanted \<and> list_all (\<lambda>ident. take (length cohort + 1) ident = cohort @ ''-'') ids"

lemma validated_prefix: "validateMessage a common message p = Inr ident \<Longrightarrow> take (length p + 1) ident = p @ ''-''"
  by (auto simp: validateMessage_def split: sum.splits if_splits)

lemma consume_claims:
  assumes "claims_ok p wanted ids" and "acked = ids" and "mode = ''hold'' \<longrightarrow> acked = []"
    and "consume_loop a common mode p wanted rounds ids acked = (claimed, confirmed, ended)"
  shows "claims_ok p wanted claimed \<and> (confirmed = claimed \<or> claimed \<noteq> [] \<and> confirmed = butlast claimed) \<and>
    (ended \<in> {LoopEnded, Undecided, LoopFailed NilErr} \<longrightarrow> confirmed = claimed) \<and> (mode \<noteq> ''hold'' \<longrightarrow> (\<forall>e. ended \<noteq> Held e)) \<and> (mode = ''hold'' \<longrightarrow> confirmed = [])"
  using assms
proof (induction rounds arbitrary: ids acked)
  case (Cons r rounds)
  have more: "claims_ok p wanted (ids @ [ident])"
    if "length ids < wanted" "validateMessage a common message p = Inr ident" "ident \<notin> set ids" for message ident
    using Cons.prems(1) that validated_prefix[OF that(2)] by (simp add: claims_ok_def)
  note IH = Cons.IH[OF more refl]
  show ?case
    using Cons.prems more IH
    by (auto simp: barrier_round_def Let_def split: if_splits request_outcome.splits sum.splits)
qed (auto split: if_splits)

text \<open>\<^bold>\<open>A consumer claims each task once and confirms only what it validated.\<close> Whatever the queue delivers, the
  tasks a consumer reports are distinct, at most the requested number, and all of the cohort; every
  one of them, except at most the last, was acknowledged after its validation, in the order of
  delivery; a holding consumer acknowledges nothing; and a consumer that returns without an error
  in the other modes acknowledged every task it reports.\<close>

theorem skew_claims_confirmed:
  assumes "consume_branch a common args rounds stats encodeErr shutdownErr = (claimed, confirmed, err)"
  shows "claims_ok (sk_prefix args) (nat (sk_count args)) claimed \<and>
    (confirmed = claimed \<or> claimed \<noteq> [] \<and> confirmed = butlast claimed) \<and>
    (sk_mode args = ''hold'' \<longrightarrow> confirmed = []) \<and>
    (sk_mode args \<noteq> ''hold'' \<longrightarrow> err = NilErr \<longrightarrow> confirmed = claimed)"
proof -
  let ?loop = "consume_loop a common (sk_mode args) (sk_prefix args) (nat (sk_count args)) rounds [] []"
  obtain ended where loop: "?loop = (claimed, confirmed, ended)"
    using assms by (auto simp: consume_branch_def Let_def split: prod.splits)
  have empty: "claims_ok (sk_prefix args) (nat (sk_count args)) []" by (simp add: claims_ok_def)
  note facts = consume_claims[OF empty refl _ loop]
  have "ended \<noteq> LoopFailed e" if "err = NilErr" "e \<noteq> NilErr" for e
    using assms loop that by (auto simp: consume_branch_def errors_join_def Let_def)
  then have "confirmed = claimed" if "err = NilErr" "sk_mode args \<noteq> ''hold''"
    using facts that by (cases ended) auto
  then show ?thesis using facts by blast
qed

theorem skew_claims_confirmed_witness:
  "distinct (fst (consume_branch 1 (\<lambda>_. ''b'') \<lparr>sk_mode = ''consume'', sk_version = [], sk_address = [], sk_stream = [], sk_consumer = [],
     sk_prefix = ''c'', sk_ready = [], sk_release = [], sk_count = 2, sk_first = 0, sk_reclaim = False, sk_timeout = 1, sk_NArg = 0\<rparr>
     [] (Inl NilErr) NilErr NilErr))"
proof -
  let ?args = "\<lparr>sk_mode = ''consume'', sk_version = [], sk_address = [], sk_stream = [], sk_consumer = [],
     sk_prefix = ''c'', sk_ready = [], sk_release = [], sk_count = 2, sk_first = 0, sk_reclaim = False, sk_timeout = 1, sk_NArg = 0\<rparr>"
  obtain claimed confirmed err where "consume_branch 1 (\<lambda>_. ''b'') ?args [] (Inl NilErr) NilErr NilErr = (claimed, confirmed, err)"
    by (metis prod_cases3)
  with skew_claims_confirmed[OF this] show ?thesis by (simp add: claims_ok_def)
qed

text \<open>A probe that is let through publishes or claims at most eight tasks, numbered below eight.\<close>

lemma admitted_bounds:
  "skew_admission a parseErr info args = NilErr \<Longrightarrow> 1 \<le> sk_count args \<and> 0 \<le> sk_first args \<and> sk_first args + sk_count args \<le> 8"
  by (auto simp: skew_admission_def skew_bounds_def split: if_splits)

lemma publish_ids:
  "publish_loop cohort start left rounds = (ids, NilErr) \<Longrightarrow> ids = map (\<lambda>i. cohort @ ''-'' @ itoa i) [start..<start + left]"
proof (induction left arbitrary: start ids)
  case (Suc left)
  have "[start..<start + Suc left] = start # [Suc start..<Suc start + left]" by (simp add: upt_conv_Cons del: upt_Suc)
  with Suc show ?case by (fastforce simp del: upt_Suc split: prod.splits if_splits)
qed simp

subsection \<open>The publisher's shutdown\<close>

text \<open>\<^bold>\<open>A failed publisher shutdown is not reported.\<close> The deferred join in the publishing branch assigns an
  \<^verbatim>\<open>err\<close> that shadows the function's result: the probe returns the same whatever the shutdown of the
  publisher returned, and nil when everything before it succeeded.\<close>

theorem publisher_shutdown_error_lost:
  "function_err (skew_publish a cohort start wanted rounds createErr encodeErr shutdownErr) =
     function_err (skew_publish a cohort start wanted rounds createErr encodeErr NilErr) \<and>
   function_err (skew_publish a cohort start 0 rounds NilErr NilErr (Sentinel DeadlineExceeded)) = NilErr"
  by (simp add: skew_publish_def Let_def)

end
