(* ===== verification/Durability_Recovery.thy ===== *)
theory Durability_Recovery
  imports Go_Errors "HOL-Library.Sublist" "HOL-Library.Multiset"
begin

section \<open>The durability recovery fixture\<close>

text \<open>
  Models \<^verbatim>\<open>integration/reference-durability/recovery.go\<close> and the \<^verbatim>\<open>recovery-probe\<close> command: the preparation of an
  abandoned task, its recovery by a fresh process, the ownership of the clients each of them opens,
  and the expectation file between them. PostgreSQL, the idempotency store, the outbox and the queue
  are arguments: what each call returned.
\<close>

subsection \<open>Inputs\<close>

record durability_config =
  dc_DatabaseURL :: string
  dc_ValkeyAddress :: string
  dc_Stream :: string

record recovery_expectation =
  re_EnvelopeID :: string
  re_TaskID :: string
  re_TaskKey :: string

definition operationKey :: string where "operationKey = ''reference-command-1''"
definition resultValue :: string where "resultValue = ''accepted''"

text \<open>The package's sentinels, at addresses of their own.\<close>

definition durability_ErrContextRequired :: go_error where
  "durability_ErrContextRequired = ErrorString 901 ''reference durability: context is required''"

definition durability_ErrInvalidConfig :: go_error where
  "durability_ErrInvalidConfig = ErrorString 902 ''reference durability: invalid configuration''"

definition ErrInvalidRecoveryExpectation :: go_error where
  "ErrInvalidRecoveryExpectation = ErrorString 903 ''reference durability: invalid recovery expectation''"

definition validateRecoveryInput :: "ctx_state option \<Rightarrow> durability_config \<Rightarrow> go_error" where
  "validateRecoveryInput ctx config =
     (case ctx of
        None \<Rightarrow> durability_ErrContextRequired
      | Some ctx \<Rightarrow>
          if dc_DatabaseURL config = [] \<or> dc_ValkeyAddress config = [] \<or> dc_Stream config = []
          then durability_ErrInvalidConfig else ctx_err ctx)"

definition validateRecoveryExpectation :: "recovery_expectation \<Rightarrow> go_error" where
  "validateRecoveryExpectation e =
     (if re_EnvelopeID e = [] \<or> re_TaskID e = [] \<or> re_TaskKey e = [] \<or>
         re_EnvelopeID e \<noteq> re_TaskID e \<or> re_TaskKey e \<noteq> operationKey
      then ErrInvalidRecoveryExpectation else NilErr)"

text \<open>\<^verbatim>\<open>fmt.Errorf\<close> with \<^verbatim>\<open>%w\<close>.\<close>

definition errorf :: "addr \<Rightarrow> go_error \<Rightarrow> go_error" where
  "errorf a err = AppErr a ComparableShape [] [] (UnwrapOne err)"

subsection \<open>Steps that may acquire something\<close>

text \<open>
  A function body as the sequence of its fallible calls: the error of the call, already in the form
  the function returns it, and what the function owns once the call succeeded.
\<close>

datatype client = PoolClient | Transaction | PublisherClient | WorkerClient

type_synonym 'r call_step = "go_error \<times> 'r option"

fun run_steps :: "'r call_step list \<Rightarrow> 'r list \<Rightarrow> 'r list \<times> go_error" where
  "run_steps [] held = (held, NilErr)"
| "run_steps ((err, acquired) # rest) held =
     (if err \<noteq> NilErr then (held, err)
      else run_steps rest (held @ (case acquired of None \<Rightarrow> [] | Some r \<Rightarrow> [r])))"

text \<open>An error of a call is nil or wrapped; a value check is an error of its own.\<close>

definition durability_wrapped :: "addr \<Rightarrow> go_error \<Rightarrow> go_error" where
  "durability_wrapped a err = (if err = NilErr then NilErr else errorf a err)"

definition durability_check :: "addr \<Rightarrow> string \<Rightarrow> bool \<Rightarrow> go_error" where
  "durability_check a message ok = (if ok then NilErr else ErrorString a message)"

definition openRecoveryPool :: "addr \<Rightarrow> go_error \<Rightarrow> go_error \<Rightarrow> go_error \<times> client list" where
  "openRecoveryPool a connectErr migrateErr =
     (if connectErr \<noteq> NilErr then (errorf a connectErr, [])
      else if migrateErr \<noteq> NilErr then (migrateErr, [PoolClient])
      else (NilErr, []))"

text \<open>The store, the key and the fingerprint, each failing with its own wrapped error.\<close>

definition recoveryIdempotency :: "addr \<Rightarrow> go_error \<times> go_error \<times> go_error \<Rightarrow> go_error" where
  "recoveryIdempotency a built =
     (case built of (storeErr, keyErr, fingerprintErr) \<Rightarrow>
        if storeErr \<noteq> NilErr then errorf a storeErr
        else if keyErr \<noteq> NilErr then errorf a keyErr
        else durability_wrapped a fingerprintErr)"

definition recoveryEnvelope :: "addr \<Rightarrow> go_error \<Rightarrow> go_error + string \<Rightarrow> go_error + string" where
  "recoveryEnvelope a builderErr built =
     (if builderErr \<noteq> NilErr then Inl (errorf a builderErr)
      else case built of Inl err \<Rightarrow> Inl (errorf a err) | Inr envelope \<Rightarrow> Inr envelope)"

definition recoveryWorker :: "addr \<Rightarrow> go_error \<Rightarrow> go_error" where
  "recoveryWorker a err = durability_wrapped a err"

subsection \<open>PrepareRecovery\<close>

record prepare_world =
  pw_connect :: go_error
  pw_migrate :: go_error
  pw_idempotency :: "go_error \<times> go_error \<times> go_error"
  pw_acquire :: go_error
  pw_outcome :: string
  pw_builder :: go_error
  pw_envelope :: "go_error + string"
  pw_writer :: go_error
  pw_begin :: go_error
  pw_insert :: go_error
  pw_stage :: go_error
  pw_commit :: go_error
  pw_publisher :: go_error
  pw_worker :: go_error
  pw_queuePublisher :: go_error
  pw_outboxStore :: go_error
  pw_relay :: go_error
  pw_runOnce :: go_error
  pw_delivered :: int
  pw_request :: go_error
  pw_ackRequired :: bool
  pw_decode :: go_error
  pw_taskID :: string
  pw_taskKey :: string

definition sum_error :: "go_error + string \<Rightarrow> go_error" where
  "sum_error r = (case r of Inl err \<Rightarrow> err | Inr _ \<Rightarrow> NilErr)"

definition prepare_expectation :: "prepare_world \<Rightarrow> recovery_expectation" where
  "prepare_expectation w = \<lparr>re_EnvelopeID = (case pw_envelope w of Inl _ \<Rightarrow> [] | Inr envelope \<Rightarrow> envelope), re_TaskID = pw_taskID w, re_TaskKey = pw_taskKey w\<rparr>"

definition prepare_steps :: "addr \<Rightarrow> prepare_world \<Rightarrow> client call_step list" where
  "prepare_steps a w =
     [(fst (openRecoveryPool a (pw_connect w) (pw_migrate w)), Some PoolClient),
      (recoveryIdempotency a (pw_idempotency w), None),
      (durability_wrapped a (pw_acquire w), None),
      (durability_check a ''reference durability: recovery prepare outcome'' (pw_outcome w = ''acquired''), None),
      (sum_error (recoveryEnvelope a (pw_builder w) (pw_envelope w)), None),
      (durability_wrapped a (pw_writer w), None),
      (durability_wrapped a (pw_begin w), Some Transaction),
      (durability_wrapped a (pw_insert w), None),
      (durability_wrapped a (pw_stage w), None),
      (durability_wrapped a (pw_commit w), None),
      (durability_wrapped a (pw_publisher w), Some PublisherClient),
      (recoveryWorker a (pw_worker w), Some WorkerClient),
      (durability_wrapped a (pw_queuePublisher w), None),
      (durability_wrapped a (pw_outboxStore w), None),
      (durability_wrapped a (pw_relay w), None),
      (durability_wrapped a (pw_runOnce w), None),
      (durability_check a ''reference durability: recovery relay delivered'' (pw_delivered w = 1), None),
      (durability_wrapped a (pw_request w), None),
      (durability_check a ''reference durability: recovery task requires durable acknowledgement'' (pw_ackRequired w), None),
      (durability_wrapped a (pw_decode w), None),
      (validateRecoveryExpectation (prepare_expectation w), None)]"

text \<open>
  What the deferred calls release, in order: the transaction is rolled back (without effect after a
  commit), then, unless the session took ownership, worker, publisher and pool.
\<close>

definition release_order :: "client list \<Rightarrow> client list" where
  "release_order held = filter (\<lambda>r. r \<in> set held) [WorkerClient, PublisherClient, PoolClient]"

record recovery_session =
  rs_expectation :: recovery_expectation
  rs_owned :: "client list"
  rs_once :: bool
  rs_err :: go_error

definition PrepareRecovery ::
    "addr \<Rightarrow> ctx_state option \<Rightarrow> durability_config \<Rightarrow> prepare_world \<Rightarrow> (go_error + recovery_session) \<times> client list \<times> client list" where
  "PrepareRecovery a ctx config w =
     (if validateRecoveryInput ctx config \<noteq> NilErr then (Inl (validateRecoveryInput ctx config), [], [])
      else
        let (held, err) = run_steps (prepare_steps a w) [];
            undone = snd (openRecoveryPool a (pw_connect w) (pw_migrate w));
            rolled = filter (\<lambda>r. r = Transaction) held
        in if err \<noteq> NilErr then (Inl err, undone @ held, undone @ rolled @ release_order held)
           else (Inr \<lparr>rs_expectation = prepare_expectation w, rs_owned = release_order held, rs_once = False, rs_err = NilErr\<rparr>,
                 held, rolled))"

text \<open>\<open>cleanupErr\<close> is the join the session's cleanup returns; the result lists what this call releases.\<close>

definition session_Close :: "go_error \<Rightarrow> recovery_session option \<Rightarrow> recovery_session option \<times> go_error \<times> client list" where
  "session_Close cleanupErr session =
     (case session of
        None \<Rightarrow> (None, NilErr, [])
      | Some s \<Rightarrow>
          if rs_once s then (Some s, rs_err s, [])
          else (Some (s\<lparr>rs_once := True, rs_err := cleanupErr\<rparr>), cleanupErr, rs_owned s))"

definition session_Expectation :: "recovery_session option \<Rightarrow> recovery_expectation" where
  "session_Expectation session =
     (case session of None \<Rightarrow> \<lparr>re_EnvelopeID = [], re_TaskID = [], re_TaskKey = []\<rparr> | Some s \<Rightarrow> rs_expectation s)"

subsection \<open>Recover\<close>

record recover_world =
  rw_connect :: go_error
  rw_migrate :: go_error
  rw_idempotency :: "go_error \<times> go_error \<times> go_error"
  rw_acquire :: go_error
  rw_outcome :: string
  rw_result :: string
  rw_countErr :: go_error
  rw_rows :: int
  rw_stateErr :: go_error
  rw_state :: string
  rw_worker :: go_error
  rw_request :: go_error
  rw_decode :: go_error
  rw_taskID :: string
  rw_taskKey :: string
  rw_ackRequired :: bool
  rw_ack :: go_error
  rw_workerShutdown :: go_error
  rw_poolShutdown :: go_error

record recovery_result =
  rr_ReplayOutcome :: string
  rr_BusinessRows :: int
  rr_OutboxState :: string
  rr_TaskID :: string
  rr_TaskKey :: string
  rr_Reclaimed :: bool
  rr_Acknowledged :: bool

definition zero_result :: recovery_result where
  "zero_result = \<lparr>rr_ReplayOutcome = [], rr_BusinessRows = 0, rr_OutboxState = [], rr_TaskID = [], rr_TaskKey = [],
     rr_Reclaimed = False, rr_Acknowledged = False\<rparr>"

text \<open>The calls before and including the acknowledgement.\<close>

definition inspect_steps :: "addr \<Rightarrow> recover_world \<Rightarrow> client call_step list" where
  "inspect_steps a w =
     [(fst (openRecoveryPool a (rw_connect w) (rw_migrate w)), Some PoolClient),
      (recoveryIdempotency a (rw_idempotency w), None),
      (durability_wrapped a (rw_acquire w), None),
      (durability_check a ''reference durability: recovery replay outcome'' (rw_outcome w = ''replayed'' \<and> rw_result w = resultValue), None),
      (durability_wrapped a (rw_countErr w), None),
      (durability_wrapped a (rw_stateErr w), None),
      (durability_check a ''reference durability: inconsistent recovered database state'' (rw_rows w = 1 \<and> rw_state w = ''delivered''), None)]"

definition reclaim_steps :: "addr \<Rightarrow> recovery_expectation \<Rightarrow> recover_world \<Rightarrow> client call_step list" where
  "reclaim_steps a expectation w =
     [(recoveryWorker a (rw_worker w), Some WorkerClient),
      (durability_wrapped a (rw_request w), None),
      (durability_wrapped a (rw_decode w), None),
      (durability_check a ''reference durability: reclaimed unexpected task''
         (rw_taskID w = re_TaskID expectation \<and> rw_taskKey w = re_TaskKey expectation), None),
      (durability_check a ''reference durability: reclaimed task requires durable acknowledgement'' (rw_ackRequired w), None)]"

definition durability_Recover ::
    "addr \<Rightarrow> ctx_state option \<Rightarrow> durability_config \<Rightarrow> recovery_expectation \<Rightarrow> recover_world \<Rightarrow>
     recovery_result \<times> go_error \<times> bool \<times> client list \<times> client list" where
  "durability_Recover a ctx config expectation w =
     (if validateRecoveryInput ctx config \<noteq> NilErr then (zero_result, validateRecoveryInput ctx config, False, [], [])
      else if validateRecoveryExpectation expectation \<noteq> NilErr then
        (zero_result, validateRecoveryExpectation expectation, False, [], [])
      else
        let (held, err) = run_steps (inspect_steps a w @ reclaim_steps a expectation w) [];
            undone = snd (openRecoveryPool a (rw_connect w) (rw_migrate w));
            acked = (err = NilErr);
            err = (if err \<noteq> NilErr then err else durability_wrapped a (rw_ack w));
            result = (if err \<noteq> NilErr then zero_result
              else \<lparr>rr_ReplayOutcome = rw_outcome w, rr_BusinessRows = rw_rows w, rr_OutboxState = rw_state w,
                rr_TaskID = rw_taskID w, rr_TaskKey = rw_taskKey w, rr_Reclaimed = True, rr_Acknowledged = True\<rparr>);
            err = (if WorkerClient \<in> set held then errors_join a [err, rw_workerShutdown w] else err);
            err = (if PoolClient \<in> set held then errors_join a [err, rw_poolShutdown w] else err)
        in (result, err, acked, undone @ held, undone @ release_order held))"

subsection \<open>Verification after a restart\<close>

record worker_stats =
  ws_LagKnown :: bool
  ws_Pending :: int
  ws_Lag :: int
  ws_Depth :: int

definition VerifyRecoveryAcknowledgement ::
    "addr \<Rightarrow> ctx_state option \<Rightarrow> durability_config \<Rightarrow> go_error \<Rightarrow> go_error + worker_stats \<Rightarrow> go_error \<Rightarrow> go_error" where
  "VerifyRecoveryAcknowledgement a ctx config workerErr stats shutdownErr =
     (if validateRecoveryInput ctx config \<noteq> NilErr then validateRecoveryInput ctx config
      else if workerErr \<noteq> NilErr then recoveryWorker a workerErr
      else
        let err = (case stats of
              Inl err \<Rightarrow> durability_wrapped a err
            | Inr s \<Rightarrow> durability_check a ''reference durability: recovered acknowledgement state''
                (ws_LagKnown s \<and> ws_Pending s = 0 \<and> ws_Lag s = 0 \<and> ws_Depth s = 0))
        in errors_join a [err, shutdownErr])"

subsection \<open>Every client is released\<close>

text \<open>What a sequence of calls acquires when none of them fails.\<close>

definition acquires :: "'r call_step list \<Rightarrow> 'r list" where
  "acquires steps = concat (map (\<lambda>(_, r). case r of None \<Rightarrow> [] | Some r \<Rightarrow> [r]) steps)"

lemma acquires_simps [simp]:
  "acquires [] = []"
  "acquires ((e, r) # steps) = (case r of None \<Rightarrow> [] | Some r \<Rightarrow> [r]) @ acquires steps"
  "acquires (xs @ ys) = acquires xs @ acquires ys"
  by (simp_all add: acquires_def)

lemma run_steps_held:
  "run_steps steps held = (got, err) \<Longrightarrow>
     prefix got (held @ acquires steps) \<and>
     (err = NilErr \<longrightarrow> got = held @ acquires steps \<and> list_all (\<lambda>(e, _). e = NilErr) steps)"
proof (induction steps arbitrary: held)
  case (Cons step steps)
  obtain e r where step: "step = (e, r)" by (meson prod.exhaust)
  show ?case
  proof (cases "e = NilErr")
    case True
    then show ?thesis
      using Cons.prems step Cons.IH[of "held @ (case r of None \<Rightarrow> [] | Some r \<Rightarrow> [r])"] by auto
  qed (use Cons.prems step in auto)
qed simp

text \<open>The deferred calls give back exactly what was acquired, however far the function got.\<close>

lemma released_prefix:
  assumes "prefix held [PoolClient, Transaction, PublisherClient, WorkerClient]"
  shows "mset (filter (\<lambda>r. r = Transaction) held @ release_order held) = mset held"
proof -
  have "held \<in> set (prefixes [PoolClient, Transaction, PublisherClient, WorkerClient])" using assms by (auto simp: prefix_Cons)
  then show ?thesis by (auto simp: release_order_def)
qed

lemma acquires_prepare: "acquires (prepare_steps a w) = [PoolClient, Transaction, PublisherClient, WorkerClient]"
  by (simp add: prepare_steps_def)

lemma acquires_recover: "acquires (inspect_steps a w @ reclaim_steps a e w) = [PoolClient, WorkerClient]"
  by (simp add: inspect_steps_def reclaim_steps_def)

text \<open>A preparation whose relay delivered nothing.\<close>

definition sample_prepare :: prepare_world where
  "sample_prepare = \<lparr>pw_connect = NilErr, pw_migrate = NilErr, pw_idempotency = (NilErr, NilErr, NilErr), pw_acquire = NilErr,
     pw_outcome = ''acquired'', pw_builder = NilErr, pw_envelope = Inr ''e1'', pw_writer = NilErr, pw_begin = NilErr,
     pw_insert = NilErr, pw_stage = NilErr, pw_commit = NilErr, pw_publisher = NilErr, pw_worker = NilErr,
     pw_queuePublisher = NilErr, pw_outboxStore = NilErr, pw_relay = NilErr, pw_runOnce = NilErr, pw_delivered = 0,
     pw_request = NilErr, pw_ackRequired = True, pw_decode = NilErr, pw_taskID = ''e1'', pw_taskKey = operationKey\<rparr>"

definition sample_recover :: recover_world where
  "sample_recover = \<lparr>rw_connect = NilErr, rw_migrate = NilErr, rw_idempotency = (NilErr, NilErr, NilErr), rw_acquire = NilErr,
     rw_outcome = ''replayed'', rw_result = resultValue, rw_countErr = NilErr, rw_rows = 1, rw_stateErr = NilErr,
     rw_state = ''delivered'', rw_worker = NilErr, rw_request = NilErr, rw_decode = NilErr, rw_taskID = ''e1'',
     rw_taskKey = operationKey, rw_ackRequired = True, rw_ack = NilErr, rw_workerShutdown = NilErr, rw_poolShutdown = NilErr\<rparr>"

lemma prepare_session:
  assumes "PrepareRecovery a ctx config w = (Inr session, acquired, released)"
  shows "session = \<lparr>rs_expectation = prepare_expectation w, rs_owned = [WorkerClient, PublisherClient, PoolClient],
      rs_once = False, rs_err = NilErr\<rparr>"
    and "acquired = [PoolClient, Transaction, PublisherClient, WorkerClient]" and "released = [Transaction]"
    and "validateRecoveryExpectation (prepare_expectation w) = NilErr"
proof -
  obtain held err where steps: "run_steps (prepare_steps a w) [] = (held, err)" by fastforce
  have "validateRecoveryInput ctx config = NilErr" "err = NilErr"
    using assms steps by (auto simp: PrepareRecovery_def Let_def split: if_splits)
  moreover from this have "held = [PoolClient, Transaction, PublisherClient, WorkerClient]"
    and valid: "validateRecoveryExpectation (prepare_expectation w) = NilErr"
    using run_steps_held[OF steps, unfolded acquires_prepare] by (auto simp: prepare_steps_def)
  ultimately show "session = \<lparr>rs_expectation = prepare_expectation w, rs_owned = [WorkerClient, PublisherClient, PoolClient],
      rs_once = False, rs_err = NilErr\<rparr>"
    "acquired = [PoolClient, Transaction, PublisherClient, WorkerClient]" "released = [Transaction]"
    using assms steps by (auto simp: PrepareRecovery_def release_order_def)
  show "validateRecoveryExpectation (prepare_expectation w) = NilErr" by (rule valid)
qed

lemma prepare_failure:
  assumes "PrepareRecovery a ctx config w = (Inl err, acquired, released)"
  shows "err \<noteq> NilErr \<and> mset released = mset acquired"
proof (cases "validateRecoveryInput ctx config = NilErr")
  case False
  then show ?thesis using assms by (auto simp: PrepareRecovery_def)
next
  case True
  obtain held e where steps: "run_steps (prepare_steps a w) [] = (held, e)" by fastforce
  let ?undone = "snd (openRecoveryPool a (pw_connect w) (pw_migrate w))"
  have "e = err" "err \<noteq> NilErr" "acquired = ?undone @ held"
    "released = ?undone @ filter (\<lambda>r. r = Transaction) held @ release_order held"
    using assms True steps by (auto simp: PrepareRecovery_def Let_def split: if_splits)
  then show ?thesis using released_prefix run_steps_held[OF steps, unfolded acquires_prepare] by simp
qed

text \<open>\<^bold>\<open>Preparing a recovery never leaks a client.\<close> When \<^verbatim>\<open>PrepareRecovery\<close> fails, every client and the
  transaction it acquired was released exactly once; when it succeeds, only the transaction was, the
  session owns the other three and has a valid expectation, its first \<^verbatim>\<open>Close\<close> releases these three
  in the order worker, publisher, pool, and every later \<^verbatim>\<open>Close\<close> releases nothing and returns the first one's error.\<close>

theorem prepare_releases_clients:
  assumes "PrepareRecovery a ctx config w = (outcome, acquired, released)"
  shows "case outcome of
      Inl err \<Rightarrow> err \<noteq> NilErr \<and> mset released = mset acquired
    | Inr session \<Rightarrow>
        released = [Transaction] \<and> mset acquired = mset (released @ [WorkerClient, PublisherClient, PoolClient]) \<and>
        validateRecoveryExpectation (session_Expectation (Some session)) = NilErr \<and>
        (\<exists>closed. session_Close first_err (Some session) = (Some closed, first_err, [WorkerClient, PublisherClient, PoolClient]) \<and>
           session_Close later_err (Some closed) = (Some closed, first_err, []))"
proof (cases outcome)
  case (Inl err)
  then show ?thesis using prepare_failure assms by simp
next
  case (Inr session)
  note facts = prepare_session[OF assms[unfolded Inr]]
  show ?thesis using Inr facts by (auto simp: session_Expectation_def session_Close_def)
qed

theorem prepare_releases_clients_witness:
  "mset (snd (snd (PrepareRecovery 1 (Some CtxActive) \<lparr>dc_DatabaseURL = ''d'', dc_ValkeyAddress = ''v'', dc_Stream = ''s''\<rparr> sample_prepare))) =
     mset [PoolClient, Transaction, PublisherClient, WorkerClient]"
proof -
  have "PrepareRecovery 1 (Some CtxActive) \<lparr>dc_DatabaseURL = ''d'', dc_ValkeyAddress = ''v'', dc_Stream = ''s''\<rparr> sample_prepare =
      (Inl (ErrorString 1 ''reference durability: recovery relay delivered''), [PoolClient, Transaction, PublisherClient, WorkerClient],
       [Transaction, WorkerClient, PublisherClient, PoolClient])"
    by code_simp
  from prepare_releases_clients[OF this] this show ?thesis by simp
qed

text \<open>C39. \<^bold>\<open>Recovery acknowledges only the task it was sent for.\<close> An acknowledgement is sent only after the
  command replayed with the accepted result, exactly one business row and a delivered envelope were
  read, and the reclaimed task is the expected one and requires an acknowledgement; the result says
  \<^verbatim>\<open>Acknowledged\<close> exactly when that acknowledgement succeeded; a nil error adds that both clients shut
  down without error; and on every path each client that was opened was released once.\<close>

theorem recover_acknowledges_expected:
  assumes "durability_Recover a ctx config expectation w = (result, err, acked, acquired, released)"
  shows "mset released = mset acquired \<and>
    (acked \<longrightarrow> rw_outcome w = ''replayed'' \<and> rw_result w = resultValue \<and> rw_rows w = 1 \<and> rw_state w = ''delivered'' \<and>
       rw_taskID w = re_EnvelopeID expectation \<and> rw_taskKey w = operationKey \<and> rw_ackRequired w) \<and>
    (rr_Acknowledged result \<longleftrightarrow> acked \<and> rw_ack w = NilErr) \<and>
    (rr_Acknowledged result \<longrightarrow> rr_TaskID result = re_TaskID expectation \<and> rr_BusinessRows result = 1) \<and>
    (\<not> rr_Acknowledged result \<longrightarrow> result = zero_result \<and> err \<noteq> NilErr) \<and>
    (err = NilErr \<longrightarrow> acked \<and> rw_workerShutdown w = NilErr \<and> rw_poolShutdown w = NilErr)"
proof (cases "validateRecoveryInput ctx config = NilErr \<and> validateRecoveryExpectation expectation = NilErr")
  case False
  then show ?thesis using assms by (auto simp: durability_Recover_def zero_result_def split: if_splits)
next
  case True
  let ?steps = "inspect_steps a w @ reclaim_steps a expectation w"
  let ?open = "openRecoveryPool a (rw_connect w) (rw_migrate w)"
  obtain held e where steps: "run_steps ?steps [] = (held, e)" by fastforce
  note facts = run_steps_held[OF steps, unfolded acquires_recover, simplified]
  have released: "acquired = snd ?open @ held" "released = snd ?open @ release_order held" and acked: "acked \<longleftrightarrow> e = NilErr"
    using assms True steps by (auto simp: durability_Recover_def Let_def)
  have "held \<in> set (prefixes [PoolClient, WorkerClient])" using facts by (auto simp: prefix_Cons)
  then have "mset released = mset acquired" using released by (auto simp: release_order_def)
  moreover have "rr_Acknowledged result \<longleftrightarrow> acked \<and> rw_ack w = NilErr"
    "\<not> rr_Acknowledged result \<longrightarrow> result = zero_result \<and> err \<noteq> NilErr"
    "rr_Acknowledged result \<longrightarrow> rr_TaskID result = rw_taskID w \<and> rr_BusinessRows result = rw_rows w"
    using assms True steps
    by (auto simp: durability_Recover_def Let_def zero_result_def durability_wrapped_def errorf_def split: if_splits)
  moreover have "rw_outcome w = ''replayed'' \<and> rw_result w = resultValue \<and> rw_rows w = 1 \<and> rw_state w = ''delivered'' \<and>
      rw_taskID w = re_TaskID expectation \<and> rw_taskKey w = re_TaskKey expectation \<and> rw_ackRequired w \<and>
      WorkerClient \<in> set held \<and> PoolClient \<in> set held" if acked
    using that acked facts
    by (auto simp: inspect_steps_def reclaim_steps_def durability_check_def split: if_splits)
  moreover have "acked \<and> rw_workerShutdown w = NilErr \<and> rw_poolShutdown w = NilErr" if "err = NilErr"
  proof -
    have "rr_Acknowledged result" using that calculation by blast
    then have "acked" using calculation by blast
    moreover from this have "WorkerClient \<in> set held" "PoolClient \<in> set held" using facts acked by auto
    ultimately show ?thesis using assms True steps that by (auto simp: durability_Recover_def Let_def)
  qed
  moreover have "re_TaskID expectation = re_EnvelopeID expectation" "re_TaskKey expectation = operationKey"
    using True by (auto simp: validateRecoveryExpectation_def ErrInvalidRecoveryExpectation_def split: if_splits)
  ultimately show ?thesis by metis
qed

theorem recover_acknowledges_expected_witness:
  "rr_Acknowledged (fst (durability_Recover 1 (Some CtxActive) \<lparr>dc_DatabaseURL = ''d'', dc_ValkeyAddress = ''v'', dc_Stream = ''s''\<rparr>
     \<lparr>re_EnvelopeID = ''e1'', re_TaskID = ''e1'', re_TaskKey = operationKey\<rparr> sample_recover))"
proof -
  let ?config = "\<lparr>dc_DatabaseURL = ''d'', dc_ValkeyAddress = ''v'', dc_Stream = ''s''\<rparr>"
  let ?e = "\<lparr>re_EnvelopeID = ''e1'', re_TaskID = ''e1'', re_TaskKey = operationKey\<rparr>"
  obtain result err acked acquired released
    where call: "durability_Recover 1 (Some CtxActive) ?config ?e sample_recover = (result, err, acked, acquired, released)"
    by (metis surj_pair)
  have "fst (snd (durability_Recover 1 (Some CtxActive) ?config ?e sample_recover)) = NilErr" by code_simp
  then have "err = NilErr" using call by simp
  then have "rr_Acknowledged result" using recover_acknowledges_expected[OF call] by blast
  then show ?thesis using call by simp
qed

end
