(* ===== verification/Recovery_Probe.thy ===== *)
theory Recovery_Probe
  imports Durability_Recovery
begin

section \<open>The recovery probe\<close>

text \<open>
  Models \<^verbatim>\<open>integration/reference-durability/cmd/recovery-probe/main.go\<close>: the expectation file written by the process
  that is killed and read by the one that recovers, and the three modes of the command. A directory
  is a map from names to contents; the JSON codec, the flag parser and the durability package's
  outcomes are arguments.
\<close>

type_synonym directory = "string \<rightharpoonup> string"

definition expectationLimit :: nat where "expectationLimit = 4096"

subsection \<open>Writing the expectation\<close>

text \<open>
  What each call did: \<open>wc_written\<close> is what reached the temporary file when encoding failed, \<open>wc_removed\<close>
  whether the removal of the temporary file succeeded, whose error is dropped.
\<close>

record write_calls =
  wc_create :: "go_error + string"
  wc_encode :: go_error
  wc_written :: string
  wc_sync :: go_error
  wc_close :: go_error
  wc_rename :: go_error
  wc_removed :: bool

text \<open>
  The result is the error and the directories the call went through, the last one being the
  directory it leaves: a process killed inside the call leaves one of them.
\<close>

definition writeExpectation :: "addr \<Rightarrow> string \<Rightarrow> string \<Rightarrow> write_calls \<Rightarrow> directory \<Rightarrow> go_error \<times> directory list" where
  "writeExpectation a path encoded c dir =
     (case wc_create c of
        Inl err \<Rightarrow> (errorf a err, [dir])
      | Inr temporary \<Rightarrow>
          let created = dir(temporary \<mapsto> []);
              cleanup = (\<lambda>d. if wc_removed c then d(temporary := None) else d)
          in if wc_encode c \<noteq> NilErr then
               let partial = dir(temporary \<mapsto> wc_written c)
               in (errorf a (wc_encode c), [dir, created, partial, cleanup partial])
             else
               let full = dir(temporary \<mapsto> encoded)
               in if wc_sync c \<noteq> NilErr then (errorf a (wc_sync c), [dir, created, full, cleanup full])
                  else if wc_close c \<noteq> NilErr then (errorf a (wc_close c), [dir, created, full, cleanup full])
                  else if wc_rename c \<noteq> NilErr then (errorf a (wc_rename c), [dir, created, full, cleanup full])
                  else (NilErr, [dir, created, full, full(temporary := None, path \<mapsto> encoded)]))"

subsection \<open>Reading it back\<close>

text \<open>\<^verbatim>\<open>json.Decoder.Decode\<close> on what is left of the stream: the next value and the rest, or an error; \<open>DecodedEOF\<close> is \<^verbatim>\<open>io.EOF\<close>.\<close>

datatype 'a decoded = DecodedValue 'a string | DecodedEOF | DecodedError go_error

definition fs_ErrNotExist :: go_error where "fs_ErrNotExist = ErrorString 905 ''file does not exist''"

definition io_EOF :: go_error where "io_EOF = ErrorString 904 ''EOF''"

definition readExpectation ::
    "addr \<Rightarrow> (string \<Rightarrow> recovery_expectation decoded) \<Rightarrow> (string \<Rightarrow> unit decoded) \<Rightarrow> go_error \<Rightarrow> go_error \<Rightarrow> string \<Rightarrow> directory \<Rightarrow>
     go_error + recovery_expectation" where
  "readExpectation a decode decodeEnd rootErr openErr path dir =
     (if rootErr \<noteq> NilErr then Inl (errorf a rootErr)
      else if openErr \<noteq> NilErr then Inl (errorf a openErr)
      else case dir path of
        None \<Rightarrow> Inl (errorf a fs_ErrNotExist)
      | Some contents \<Rightarrow>
          (case decode (take expectationLimit contents) of
             DecodedError err \<Rightarrow> Inl (errorf a err)
           | DecodedEOF \<Rightarrow> Inl (errorf a io_EOF)
           | DecodedValue expectation rest \<Rightarrow>
               (case decodeEnd rest of
                  DecodedEOF \<Rightarrow> Inr expectation
                | _ \<Rightarrow> Inl (ErrorString a ''recovery probe: expectation contains trailing data''))))"

subsection \<open>The three modes\<close>

record probe_args =
  pa_mode :: string
  pa_config :: durability_config
  pa_expectation :: string
  pa_timeout :: int
  pa_NArg :: int

text \<open>
  What \<^verbatim>\<open>run\<close> refuses before any I/O: the flags, the arguments, the mode and a missing path.
\<close>

definition probe_admission :: "addr \<Rightarrow> go_error \<Rightarrow> probe_args \<Rightarrow> go_error" where
  "probe_admission a parseErr args =
     (if parseErr \<noteq> NilErr then errorf a parseErr
      else if pa_NArg args \<noteq> 0 \<or> pa_timeout args \<le> 0 then ErrorString a ''recovery probe: invalid arguments''
      else if pa_mode args = ''prepare'' then
        (if pa_expectation args = [] then ErrorString a ''recovery probe: prepare requires an expectation path'' else NilErr)
      else if pa_mode args = ''recover'' then
        (if pa_expectation args = [] then ErrorString a ''recovery probe: recover requires an expectation path'' else NilErr)
      else if pa_mode args = ''verify-ack'' then NilErr
      else ErrorString a ''recovery probe: mode must be prepare, recover, or verify-ack'')"

text \<open>
  The prepare mode after \<^verbatim>\<open>PrepareRecovery\<close>: the deferred \<^verbatim>\<open>Close\<close> runs on every path, also after the explicit
  one; the result lists what both released.
\<close>

definition probe_prepare ::
    "addr \<Rightarrow> go_error + recovery_session \<Rightarrow> (recovery_expectation \<Rightarrow> go_error) \<Rightarrow> go_error \<Rightarrow> go_error \<times> client list" where
  "probe_prepare a prepared written cleanupErr =
     (case prepared of
        Inl err \<Rightarrow> (err, [])
      | Inr session \<Rightarrow>
          let err = written (session_Expectation (Some session))
          in if err \<noteq> NilErr then
               let (_, _, released) = session_Close cleanupErr (Some session) in (err, released)
             else
               let (closed, err, released) = session_Close cleanupErr (Some session);
                   (_, _, again) = session_Close cleanupErr closed
               in (err, released @ again))"

definition probe_recover ::
    "addr \<Rightarrow> go_error + recovery_expectation \<Rightarrow> (recovery_expectation \<Rightarrow> recovery_result \<times> go_error) \<Rightarrow> go_error \<Rightarrow>
     go_error \<times> recovery_result option" where
  "probe_recover a loaded recover encodeErr =
     (case loaded of
        Inl err \<Rightarrow> (err, None)
      | Inr expectation \<Rightarrow>
          let (result, err) = recover expectation
          in if err \<noteq> NilErr then (err, None) else (encodeErr, Some result))"

definition probe_verify :: "go_error \<Rightarrow> go_error \<Rightarrow> go_error" where
  "probe_verify verifyErr encodeErr = (if verifyErr \<noteq> NilErr then verifyErr else encodeErr)"

text \<open>\<^verbatim>\<open>run\<close> selects one of the three results.\<close>

definition probe_run :: "addr \<Rightarrow> go_error \<Rightarrow> probe_args \<Rightarrow> go_error \<Rightarrow> go_error \<Rightarrow> go_error \<Rightarrow> go_error" where
  "probe_run a parseErr args prepared recovered verified =
     (if probe_admission a parseErr args \<noteq> NilErr then probe_admission a parseErr args
      else if pa_mode args = ''prepare'' then prepared
      else if pa_mode args = ''recover'' then recovered
      else verified)"

subsection \<open>The file is published atomically\<close>

text \<open>\<^bold>\<open>The expectation file is published atomically.\<close> Given that the temporary name differs from the
  path and is not in use: whenever the process is killed inside \<^verbatim>\<open>writeExpectation\<close>, the path holds what it held
  before or the whole expectation; an error leaves the path as it was, and no temporary file where
  the removal succeeded; and a nil error means the whole expectation is at the path and
  nothing else changed.\<close>

theorem expectation_published_atomically:
  assumes "\<And>temporary. wc_create c = Inr temporary \<Longrightarrow> temporary \<noteq> path \<and> dir temporary = None"
    and "writeExpectation a path encoded c dir = (err, states)"
  shows "states \<noteq> [] \<and> (\<forall>d \<in> set states. d path = dir path \<or> d path = Some encoded) \<and>
    (err \<noteq> NilErr \<longrightarrow> last states path = dir path \<and> (wc_removed c \<longrightarrow> last states = dir)) \<and>
    (err = NilErr \<longrightarrow> last states = dir(path \<mapsto> encoded))"
proof (cases "wc_create c")
  case (Inl e)
  then show ?thesis using assms(2) by (auto simp: writeExpectation_def errorf_def)
next
  case (Inr temporary)
  then have "temporary \<noteq> path" "dir temporary = None" using assms(1) by auto
  then show ?thesis using assms(2) Inr
    by (auto simp: writeExpectation_def errorf_def Let_def fun_upd_idem fun_upd_twist split: if_splits)
qed

theorem expectation_published_atomically_witness:
  "last (snd (writeExpectation 1 ''p'' ''x'' \<lparr>wc_create = Inr ''t'', wc_encode = NilErr, wc_written = [], wc_sync = NilErr,
     wc_close = NilErr, wc_rename = NilErr, wc_removed = True\<rparr> Map.empty)) ''p'' = Some ''x''"
proof -
  let ?c = "\<lparr>wc_create = Inr ''t'', wc_encode = NilErr, wc_written = [], wc_sync = NilErr,
     wc_close = NilErr, wc_rename = NilErr, wc_removed = True\<rparr> :: write_calls"
  obtain err states where call: "writeExpectation 1 ''p'' ''x'' ?c Map.empty = (err, states)" by fastforce
  moreover from call have "err = NilErr" by (simp add: writeExpectation_def Let_def)
  ultimately show ?thesis using expectation_published_atomically[OF _ call] by simp
qed

text \<open>\<^bold>\<open>The recovering process reads what the killed one wrote.\<close> For a codec whose decoder reads back an
  encoded expectation and then finds the end of the stream, an expectation whose encoding fits the
  4 KiB limit is read back unchanged after a successful write.\<close>

theorem expectation_roundtrip:
  assumes codec: "decode (encode e) = DecodedValue e rest" "decodeEnd rest = DecodedEOF"
    and fits: "length (encode e) \<le> expectationLimit"
    and fresh: "\<And>temporary. wc_create c = Inr temporary \<Longrightarrow> temporary \<noteq> path \<and> dir temporary = None"
    and written: "writeExpectation a path (encode e) c dir = (NilErr, states)"
  shows "readExpectation a decode decodeEnd NilErr NilErr path (last states) = Inr e"
proof -
  have "last states path = Some (encode e)"
  proof (cases "wc_create c")
    case (Inr temporary)
    then show ?thesis using fresh written by (auto simp: writeExpectation_def errorf_def Let_def split: if_splits)
  qed (use written in \<open>simp add: writeExpectation_def errorf_def\<close>)
  then show ?thesis using codec fits by (simp add: readExpectation_def)
qed

text \<open>
  A codec for the witness: the three fields separated by newlines, none of which holds one.
\<close>

definition line_encode :: "recovery_expectation \<Rightarrow> string" where
  "line_encode e = re_EnvelopeID e @ ''|'' @ re_TaskID e @ ''|'' @ re_TaskKey e"

definition line_decode :: "string \<Rightarrow> recovery_expectation decoded" where
  "line_decode s =
     (let p = (\<lambda>c. c \<noteq> CHR ''|''); r = drop 1 (dropWhile p s)
      in DecodedValue \<lparr>re_EnvelopeID = takeWhile p s, re_TaskID = takeWhile p r, re_TaskKey = drop 1 (dropWhile p r)\<rparr> [])"

theorem expectation_roundtrip_witness:
  "readExpectation 1 line_decode (\<lambda>_. DecodedEOF) NilErr NilErr ''p'' (last (snd (writeExpectation 1 ''p''
     (line_encode \<lparr>re_EnvelopeID = ''e1'', re_TaskID = ''e1'', re_TaskKey = operationKey\<rparr>)
     \<lparr>wc_create = Inr ''t'', wc_encode = NilErr, wc_written = [], wc_sync = NilErr,
     wc_close = NilErr, wc_rename = NilErr, wc_removed = True\<rparr> Map.empty))) =
   Inr \<lparr>re_EnvelopeID = ''e1'', re_TaskID = ''e1'', re_TaskKey = operationKey\<rparr>"
proof -
  let ?e = "\<lparr>re_EnvelopeID = ''e1'', re_TaskID = ''e1'', re_TaskKey = operationKey\<rparr>"
  let ?c = "\<lparr>wc_create = Inr ''t'', wc_encode = NilErr, wc_written = [], wc_sync = NilErr,
     wc_close = NilErr, wc_rename = NilErr, wc_removed = True\<rparr> :: write_calls"
  obtain states where call: "writeExpectation 1 ''p'' (line_encode ?e) ?c Map.empty = (NilErr, states)"
    by (simp add: writeExpectation_def Let_def)
  have decoded: "line_decode (line_encode ?e) = DecodedValue ?e []"
    and fits: "length (line_encode ?e) \<le> expectationLimit" by code_simp+
  show ?thesis
    using expectation_roundtrip[where decode = line_decode and encode = line_encode and decodeEnd = "\<lambda>_. DecodedEOF",
        OF decoded refl fits _ call] call by simp
qed

text \<open>Whatever happens after the preparation, the probe releases the session's clients exactly once.\<close>

lemma probe_prepare_releases_once:
  assumes "PrepareRecovery a ctx config w = (Inr session, acquired, released)"
  shows "snd (probe_prepare a (Inr session) written cleanupErr) = [WorkerClient, PublisherClient, PoolClient]"
  using prepare_session(1)[OF assms] by (simp add: probe_prepare_def session_Close_def Let_def)

end
