(* ===== verification/Durability_Run.thy ===== *)
theory Durability_Run
  imports Durability_Recovery Reference_Base
begin

section \<open>The durability scenario\<close>

text \<open>
  Models \<^verbatim>\<open>integration/reference-durability/reference.go\<close>: the migration source with its limits, the composed migrations, the
  transaction that stages a command, the worker that records its shutdown, and the scenario of
  \<^verbatim>\<open>Run\<close> as the sequence of its calls. PostgreSQL, Valkey, the queue and the service runtime are
  arguments: what each call returned.
\<close>

subsection \<open>Embedded migrations\<close>

definition ErrSourceLimit :: go_error where "ErrSourceLimit = ErrorString 931 ''source limit''"
definition ErrInvalidEncoding :: go_error where "ErrInvalidEncoding = ErrorString 932 ''invalid encoding''"

record directory_limits =
  dl_MaxEntries :: int
  dl_MaxNameBytes :: int
  dl_MaxTotalNameBytes :: int

fun entry_loop :: "directory_limits \<Rightarrow> int \<Rightarrow> (string \<times> bool) list \<Rightarrow> go_error + (string \<times> bool) list" where
  "entry_loop limits totalNameBytes [] = Inr []"
| "entry_loop limits totalNameBytes ((name, isDir) # rest) =
     (if int (length name) > dl_MaxNameBytes limits \<or>
         int (length name) > dl_MaxTotalNameBytes limits - totalNameBytes then Inl ErrSourceLimit
      else case entry_loop limits (totalNameBytes + int (length name)) rest of
        Inl err \<Rightarrow> Inl err
      | Inr entries \<Rightarrow> Inr ((name, isDir) # entries))"

text \<open>\<open>before\<close> and \<open>after\<close> are the context's states at the two places where it is read.\<close>

definition ReadDir ::
    "ctx_state \<Rightarrow> ctx_state \<Rightarrow> directory_limits \<Rightarrow> go_error + (string \<times> bool) list \<Rightarrow> (string \<times> bool) list \<times> go_error" where
  "ReadDir before after limits listing =
     (if ctx_err before \<noteq> NilErr then ([], ctx_err before)
      else case listing of
        Inl err \<Rightarrow> ([], err)
      | Inr entries \<Rightarrow>
          if int (length entries) > dl_MaxEntries limits then ([], ErrSourceLimit)
          else case entry_loop limits 0 entries of
            Inl err \<Rightarrow> ([], err)
          | Inr result \<Rightarrow> (result, ctx_err after))"

definition ReadFile :: "ctx_state \<Rightarrow> ctx_state \<Rightarrow> int \<Rightarrow> go_error + byte_stream \<Rightarrow> string \<times> go_error" where
  "ReadFile before after maxBytes opened =
     (if ctx_err before \<noteq> NilErr then ([], ctx_err before)
      else case opened of
        Inl err \<Rightarrow> ([], err)
      | Inr file \<Rightarrow>
          (case read_bounded ErrInvalidEncoding maxBytes file of
             Inl err \<Rightarrow> ([], err)
           | Inr contents \<Rightarrow> (contents, ctx_err after)))"

record migration =
  mi_Version :: int
  mi_TransactionMode :: string
  mi_Name :: string
  mi_Up :: string
  mi_Down :: string

text \<open>\<open>newMigration\<close> is \<^verbatim>\<open>migrations.NewMigration\<close>'s error for a migration; \<open>loaded\<close> what the outbox source loaded.\<close>

definition composedMigrations ::
    "addr \<Rightarrow> (migration \<Rightarrow> go_error) \<Rightarrow> go_error \<Rightarrow> go_error + (string \<times> string \<times> string) list \<Rightarrow> string \<times> string \<times> string \<Rightarrow> go_error + migration list" where
  "composedMigrations a newMigration sourceErr loaded idempotency =
     (if sourceErr \<noteq> NilErr then Inl sourceErr
      else case loaded of
        Inl err \<Rightarrow> Inl err
      | Inr [(mode, up, down)] \<Rightarrow>
          (let outboxMigration = \<lparr>mi_Version = 1, mi_TransactionMode = mode, mi_Name = ''create_outbox'', mi_Up = up, mi_Down = down\<rparr>;
               canonical = (case idempotency of (name, up, down) \<Rightarrow> \<lparr>mi_Version = 2, mi_TransactionMode = ''default'', mi_Name = name, mi_Up = up, mi_Down = down\<rparr>);
               application = \<lparr>mi_Version = 3, mi_TransactionMode = ''default'', mi_Name = ''create_reference_commands'',
                 mi_Up = ''CREATE TABLE reference_commands (id text PRIMARY KEY, value text NOT NULL)'',
                 mi_Down = ''DROP TABLE reference_commands''\<rparr>;
               err = first_error (map newMigration [outboxMigration, canonical, application])
           in if err \<noteq> NilErr then Inl err else Inr [outboxMigration, canonical, application])
      | Inr _ \<Rightarrow> Inl (ErrorString a ''outbox migration count''))"

text \<open>\<open>staticSource.Load\<close>, and the migration run: the database handle is closed on every path.\<close>

definition static_Load :: "migration list \<Rightarrow> ctx_state \<Rightarrow> go_error + migration list" where
  "static_Load source ctx = (if ctx_err ctx \<noteq> NilErr then Inl (ctx_err ctx) else Inr source)"

definition durability_migrate :: "addr \<Rightarrow> go_error + migration list \<Rightarrow> go_error \<Rightarrow> go_error \<Rightarrow> (migration list \<Rightarrow> go_error) \<Rightarrow> go_error" where
  "durability_migrate a composed backendErr runnerErr up =
     (case composed of
        Inl err \<Rightarrow> errorf a err
      | Inr source \<Rightarrow>
          if backendErr \<noteq> NilErr then errorf a backendErr
          else if runnerErr \<noteq> NilErr then errorf a runnerErr
          else durability_wrapped a (up source))"

subsection \<open>Staging and shutting down\<close>

definition stageCommand :: "addr \<Rightarrow> go_error \<Rightarrow> go_error \<Rightarrow> go_error" where
  "stageCommand a insertErr completeErr =
     (if insertErr \<noteq> NilErr then errorf a insertErr else durability_wrapped a completeErr)"

definition joinShutdown :: "addr \<Rightarrow> go_error \<Rightarrow> go_error \<Rightarrow> go_error" where
  "joinShutdown a current shutdown = (if shutdown = NilErr then current else errors_join a [current, shutdown])"

record tracking_worker =
  tw_shutdownCalls :: nat
  tw_shutdownWhileBusy :: bool

text \<open>\<open>busy\<close> is the coordinator's number of busy workers, \<open>None\<close> before there is a coordinator.\<close>

definition tracking_Shutdown :: "nat option \<Rightarrow> tracking_worker \<Rightarrow> tracking_worker" where
  "tracking_Shutdown busy w =
     \<lparr>tw_shutdownCalls = tw_shutdownCalls w + 1,
      tw_shutdownWhileBusy = (tw_shutdownWhileBusy w \<or> (case busy of None \<Rightarrow> False | Some n \<Rightarrow> n \<noteq> 0))\<rparr>"

subsection \<open>The scenario's calls\<close>

datatype run_resource =
    RunPool | RollbackTx | CommitTx | RunPublisher | RunWorker | WorkerClosed | Reclaimer | RunService

record scenario_world =
  rn_connect :: go_error
  rn_migrate :: go_error
  rn_idempotencyStore :: go_error
  rn_key :: go_error
  rn_fingerprint :: go_error
  rn_acquire :: go_error
  rn_firstOutcome :: string
  rn_builder :: go_error
  rn_build :: go_error
  rn_envelopeID :: string
  rn_writer :: go_error
  rn_beginRollback :: go_error
  rn_stageRollback :: "go_error \<times> go_error"
  rn_rollback :: go_error
  rn_inspect :: go_error
  rn_retained :: string
  rn_countBusiness :: go_error
  rn_rolledBackBusiness :: int
  rn_countOutbox :: go_error
  rn_rolledBackOutbox :: int
  rn_beginCommit :: go_error
  rn_stageCommit :: "go_error \<times> go_error"
  rn_commit :: go_error
  rn_publisher :: go_error
  rn_worker :: go_error
  rn_queuePublisher :: go_error
  rn_outboxStore :: go_error
  rn_relay :: go_error
  rn_runOnce :: go_error
  rn_delivered :: int
  rn_request :: go_error
  rn_ackRequired :: bool
  rn_workerShutdown :: go_error
  rn_reclaimer :: go_error
  rn_coordinator :: go_error
  rn_serviceWorker :: go_error
  rn_service :: go_error
  rn_start :: go_error
  rn_firstPayload :: string
  rn_recovered :: "(string \<times> (go_error + string \<times> string)) option"
  rn_enteredCause :: go_error
  rn_drain :: go_error
  rn_drainState :: string
  rn_busyWorkers :: nat
  rn_callsAtDrain :: nat
  rn_lateRefused :: bool
  rn_earlyAck :: bool
  rn_acknowledged :: bool
  rn_ackCause :: go_error
  rn_stats :: go_error
  rn_statReclaimed :: int
  rn_statAcknowledged :: int
  rn_statPending :: int
  rn_statLagKnown :: bool
  rn_statLag :: int
  rn_stop :: go_error
  rn_finalState :: string
  rn_tracked :: tracking_worker
  rn_replay :: go_error
  rn_replayOutcome :: string
  rn_replayResult :: string
  rn_rowsErr :: go_error
  rn_rows :: int
  rn_stateErr :: go_error
  rn_state :: string

definition admission_withdrawn :: "scenario_world \<Rightarrow> bool" where
  "admission_withdrawn w \<longleftrightarrow> rn_drainState w = ''draining'' \<and> rn_busyWorkers w = 1 \<and>
     rn_callsAtDrain w = 0 \<and> rn_lateRefused w"

text \<open>
  The recovered handler, up to the point where it has entered: the payload of the delivery it got,
  \<open>None\<close> when the context ended first, must be the abandoned one and decode to a task.
\<close>

definition handler_task :: "addr \<Rightarrow> string \<Rightarrow> string \<Rightarrow> go_error + string \<times> string \<Rightarrow> go_error + string \<times> string" where
  "handler_task a firstPayload payload decoded =
     (if payload \<noteq> firstPayload then Inl (ErrorString a ''reference durability: recovered task changed'')
      else case decoded of Inl err \<Rightarrow> Inl (errorf a err) | Inr task \<Rightarrow> Inr task)"

definition entered_task :: "scenario_world \<Rightarrow> (string \<times> string) option" where
  "entered_task w =
     (case rn_recovered w of
        None \<Rightarrow> None
      | Some (payload, decoded) \<Rightarrow>
          (case handler_task 0 (rn_firstPayload w) payload decoded of Inl _ \<Rightarrow> None | Inr task \<Rightarrow> Some task))"

definition result_task :: "scenario_world \<Rightarrow> string \<times> string" where
  "result_task w = (case entered_task w of None \<Rightarrow> ([], []) | Some task \<Rightarrow> task)"

definition stats_consistent :: "scenario_world \<Rightarrow> bool" where
  "stats_consistent w \<longleftrightarrow> rn_statReclaimed w = 1 \<and> rn_statAcknowledged w = 1 \<and> rn_statPending w = 0 \<and>
     rn_statLagKnown w \<and> rn_statLag w = 0"

definition setup_steps :: "addr \<Rightarrow> scenario_world \<Rightarrow> run_resource call_step list" where
  "setup_steps a w =
     [(durability_wrapped a (rn_connect w), Some RunPool),
      (rn_migrate w, None),
      (durability_wrapped a (rn_idempotencyStore w), None),
      (durability_wrapped a (rn_key w), None),
      (durability_wrapped a (rn_fingerprint w), None),
      (durability_wrapped a (rn_acquire w), None),
      (durability_check a ''reference durability: first outcome'' (rn_firstOutcome w = ''acquired''), None),
      (durability_wrapped a (rn_builder w), None),
      (durability_wrapped a (rn_build w), None),
      (durability_wrapped a (rn_writer w), None)]"

definition transaction_steps :: "addr \<Rightarrow> scenario_world \<Rightarrow> run_resource call_step list" where
  "transaction_steps a w =
     [(durability_wrapped a (rn_beginRollback w), Some RollbackTx),
      (stageCommand a (fst (rn_stageRollback w)) (snd (rn_stageRollback w)), None),
      (durability_wrapped a (rn_rollback w), None),
      (durability_wrapped a (rn_inspect w), None),
      (durability_wrapped a (rn_countBusiness w), None),
      (durability_wrapped a (rn_countOutbox w), None),
      (durability_check a ''reference durability: rollback exposed staged state''
         (rn_retained w = ''acquired'' \<and> rn_rolledBackBusiness w = 0 \<and> rn_rolledBackOutbox w = 0), None),
      (durability_wrapped a (rn_beginCommit w), Some CommitTx),
      (stageCommand a (fst (rn_stageCommit w)) (snd (rn_stageCommit w)), None),
      (durability_wrapped a (rn_commit w), None)]"

definition relay_steps :: "addr \<Rightarrow> scenario_world \<Rightarrow> run_resource call_step list" where
  "relay_steps a w =
     [(durability_wrapped a (rn_publisher w), Some RunPublisher),
      (durability_wrapped a (rn_worker w), Some RunWorker),
      (durability_wrapped a (rn_queuePublisher w), None),
      (durability_wrapped a (rn_outboxStore w), None),
      (durability_wrapped a (rn_relay w), None),
      (durability_wrapped a (rn_runOnce w), None),
      (durability_check a ''reference durability: delivered envelopes'' (rn_delivered w = 1), None),
      (durability_wrapped a (rn_request w), None),
      (durability_check a ''reference durability: durable acknowledgement is required'' (rn_ackRequired w), None),
      (durability_wrapped a (rn_workerShutdown w), Some WorkerClosed)]"

text \<open>A failed coordinator, adapter or service is joined with the reclaimer's shutdown, \<open>reclaimed\<close>.\<close>

definition joined_failure :: "addr \<Rightarrow> go_error \<Rightarrow> go_error \<Rightarrow> go_error" where
  "joined_failure a reclaimed err = (if err = NilErr then NilErr else errors_join a [errorf a err, reclaimed])"

definition service_steps :: "addr \<Rightarrow> go_error \<Rightarrow> scenario_world \<Rightarrow> run_resource call_step list" where
  "service_steps a reclaimed w =
     [(durability_wrapped a (rn_reclaimer w), Some Reclaimer),
      (joined_failure a reclaimed (rn_coordinator w), None),
      (joined_failure a reclaimed (rn_serviceWorker w), None),
      (joined_failure a reclaimed (rn_service w), Some RunService),
      (durability_wrapped a (rn_start w), None),
      (if entered_task w \<noteq> None then NilErr else errorf a (rn_enteredCause w), None),
      (durability_wrapped a (rn_drain w), None),
      (durability_check a ''reference durability: drain did not preserve admitted work'' (admission_withdrawn w), None),
      (durability_check a ''reference durability: acknowledged before application processing completed'' (\<not> rn_earlyAck w), None),
      (if rn_acknowledged w then NilErr else errorf a (rn_ackCause w), None),
      (durability_wrapped a (rn_stats w), None),
      (durability_check a ''reference durability: inconsistent recovery stats'' (stats_consistent w), None),
      (durability_wrapped a (rn_stop w), None),
      (durability_check a ''reference durability: inconsistent shutdown''
         (rn_finalState w = ''stopped'' \<and> rn_acknowledged w \<and> \<not> tw_shutdownWhileBusy (rn_tracked w) \<and> tw_shutdownCalls (rn_tracked w) = 1), None)]"

definition replay_steps :: "addr \<Rightarrow> scenario_world \<Rightarrow> run_resource call_step list" where
  "replay_steps a w =
     [(durability_wrapped a (rn_replay w), None),
      (durability_check a ''reference durability: replay outcome'' (rn_replayOutcome w = ''replayed'' \<and> rn_replayResult w = resultValue), None),
      (durability_wrapped a (rn_rowsErr w), None),
      (durability_wrapped a (rn_stateErr w), None),
      (durability_check a ''reference durability: inconsistent result''
         (rn_rows w = 1 \<and> rn_state w = ''delivered'' \<and> result_task w = (rn_envelopeID w, operationKey)), None)]"

definition scenario :: "addr \<Rightarrow> go_error \<Rightarrow> scenario_world \<Rightarrow> run_resource call_step list" where
  "scenario a reclaimed w =
     setup_steps a w @ transaction_steps a w @ relay_steps a w @ service_steps a reclaimed w @ replay_steps a w"

record run_result =
  ru_FirstOutcome :: string
  ru_ReplayOutcome :: string
  ru_BusinessRows :: int
  ru_OutboxState :: string
  ru_TaskID :: string
  ru_TaskKey :: string
  ru_Redelivered :: bool
  ru_RollbackIsolated :: bool
  ru_AdmissionWithdrawn :: bool
  ru_AdmittedWorkDrained :: bool
  ru_Acknowledged :: bool
  ru_WorkerShutdownCalls :: nat

definition zero_run :: run_result where
  "zero_run = \<lparr>ru_FirstOutcome = [], ru_ReplayOutcome = [], ru_BusinessRows = 0, ru_OutboxState = [], ru_TaskID = [], ru_TaskKey = [],
     ru_Redelivered = False, ru_RollbackIsolated = False, ru_AdmissionWithdrawn = False, ru_AdmittedWorkDrained = False,
     ru_Acknowledged = False, ru_WorkerShutdownCalls = 0\<rparr>"

definition run_report :: "scenario_world \<Rightarrow> run_result" where
  "run_report w = \<lparr>ru_FirstOutcome = rn_firstOutcome w, ru_ReplayOutcome = rn_replayOutcome w, ru_BusinessRows = rn_rows w,
     ru_OutboxState = rn_state w, ru_TaskID = fst (result_task w), ru_TaskKey = snd (result_task w), ru_Redelivered = (entered_task w \<noteq> None),
     ru_RollbackIsolated = True, ru_AdmissionWithdrawn = admission_withdrawn w,
     ru_AdmittedWorkDrained = (rn_acknowledged w \<and> \<not> tw_shutdownWhileBusy (rn_tracked w)),
     ru_Acknowledged = rn_acknowledged w, ru_WorkerShutdownCalls = tw_shutdownCalls (rn_tracked w)\<rparr>"

text \<open>
  The deferred calls, in reverse: the service, the first worker unless it was closed, the
  publisher, the rollback of the committed transaction and the pool, with the errors they return.
\<close>

record run_cleanup =
  rc_service :: go_error
  rc_worker :: go_error
  rc_publisher :: go_error
  rc_pool :: go_error
  rc_reclaimed :: go_error

definition deferred :: "addr \<Rightarrow> run_cleanup \<Rightarrow> run_resource list \<Rightarrow> go_error \<Rightarrow> go_error \<times> run_resource list" where
  "deferred a c held err =
     (let stops = (RunWorker \<in> set held \<and> WorkerClosed \<notin> set held);
          err = (if RunService \<in> set held then errors_join a [err, rc_service c] else err);
          err = (if stops then joinShutdown a err (rc_worker c) else err);
          err = (if RunPublisher \<in> set held then joinShutdown a err (rc_publisher c) else err);
          err = (if RunPool \<in> set held then errors_join a [err, rc_pool c] else err)
      in (err, filter (\<lambda>r. r \<in> set held \<and> (r = RunWorker \<longrightarrow> stops)) [RunService, RunWorker, RunPublisher, CommitTx, RunPool]))"

definition durability_Run ::
    "addr \<Rightarrow> ctx_state option \<Rightarrow> durability_config \<Rightarrow> run_cleanup \<Rightarrow> scenario_world \<Rightarrow> run_result \<times> go_error \<times> run_resource list \<times> run_resource list" where
  "durability_Run a ctx config c w =
     (if validateRecoveryInput ctx config \<noteq> NilErr then (zero_run, validateRecoveryInput ctx config, [], [])
      else
        let (held, err) = run_steps (scenario a (rc_reclaimed c) w) [];
            result = (if err \<noteq> NilErr then zero_run else run_report w);
            (err, released) = deferred a c held err
        in (result, err, held, released))"

subsection \<open>Sources stay within their limits\<close>

interpretation migration_file: bounded_reader "read_bounded ErrInvalidEncoding maxBytes" maxBytes for maxBytes
  by (rule read_bounded_reader) (simp add: ErrInvalidEncoding_def)

definition names_within :: "directory_limits \<Rightarrow> int \<Rightarrow> (string \<times> bool) list \<Rightarrow> bool" where
  "names_within limits k entries \<longleftrightarrow>
     (\<forall>(name, _) \<in> set entries. int (length name) \<le> dl_MaxNameBytes limits) \<and>
     k + (\<Sum>(name, _) \<leftarrow> entries. int (length name)) \<le> dl_MaxTotalNameBytes limits"

lemma entry_loop_within:
  "k \<le> dl_MaxTotalNameBytes limits \<Longrightarrow>
   entry_loop limits k entries = (if names_within limits k entries then Inr entries else Inl ErrSourceLimit)"
proof (induction entries arbitrary: k)
  case (Cons entry entries)
  obtain name isDir where entry: "entry = (name, isDir)" by (meson prod.exhaust)
  have nonneg: "0 \<le> (\<Sum>(name, _) \<leftarrow> entries. int (length name))" by (induction entries) auto
  show ?case
  proof (cases "int (length name) \<le> dl_MaxTotalNameBytes limits - k")
    case True
    then have "entry_loop limits (k + int (length name)) entries =
        (if names_within limits (k + int (length name)) entries then Inr entries else Inl ErrSourceLimit)"
      using Cons.IH by simp
    then show ?thesis using True entry by (auto simp: names_within_def add.assoc)
  next
    case False
    then show ?thesis using entry nonneg by (auto simp: names_within_def)
  qed
qed (simp add: names_within_def)

text \<open>\<^bold>\<open>A migration source returns everything within its limits and nothing beyond.\<close> Under a live context,
  \<^verbatim>\<open>ReadDir\<close> returns a listing whole and in order when its number of entries, each name and the names
  together keep to the limits, and otherwise the limit error alone; \<^verbatim>\<open>ReadFile\<close> succeeds exactly when the
  file was read to its end within the limit, and returns it whole.\<close>

theorem migration_source_bounded:
  assumes "0 \<le> dl_MaxTotalNameBytes limits"
  shows "ReadDir CtxActive CtxActive limits (Inr entries) =
      (if int (length entries) \<le> dl_MaxEntries limits \<and> (\<forall>(name, _) \<in> set entries. int (length name) \<le> dl_MaxNameBytes limits) \<and>
          (\<Sum>(name, _) \<leftarrow> entries. int (length name)) \<le> dl_MaxTotalNameBytes limits
       then (entries, NilErr) else ([], ErrSourceLimit)) \<and>
    (ReadFile CtxActive CtxActive maxBytes (Inr file) = (contents, NilErr) \<longleftrightarrow>
      file = (contents, NilErr) \<and> int (length contents) \<le> maxBytes)"
proof
  show "ReadDir CtxActive CtxActive limits (Inr entries) =
      (if int (length entries) \<le> dl_MaxEntries limits \<and> (\<forall>(name, _) \<in> set entries. int (length name) \<le> dl_MaxNameBytes limits) \<and>
          (\<Sum>(name, _) \<leftarrow> entries. int (length name)) \<le> dl_MaxTotalNameBytes limits
       then (entries, NilErr) else ([], ErrSourceLimit))"
    using entry_loop_within[of 0 limits entries] assms by (simp add: ReadDir_def names_within_def)
  show "ReadFile CtxActive CtxActive maxBytes (Inr file) = (contents, NilErr) \<longleftrightarrow>
      file = (contents, NilErr) \<and> int (length contents) \<le> maxBytes"
    by (auto simp: ReadFile_def migration_file.accepted_iff migration_file.whole split: sum.splits dest: migration_file.refused_nonnil)
qed

theorem migration_source_bounded_witness:
  "ReadDir CtxActive CtxActive \<lparr>dl_MaxEntries = 2, dl_MaxNameBytes = 3, dl_MaxTotalNameBytes = 4\<rparr> (Inr [(''abc'', False), (''de'', False)]) =
     ([], ErrSourceLimit)"
proof -
  have limit: "0 \<le> dl_MaxTotalNameBytes \<lparr>dl_MaxEntries = 2, dl_MaxNameBytes = 3, dl_MaxTotalNameBytes = 4\<rparr>" by simp
  show ?thesis using migration_source_bounded[OF limit, of "[(''abc'', False), (''de'', False)]"] by simp
qed

subsection \<open>A nil error proves the scenario\<close>

abbreviation run_order :: "run_resource list" where
  "run_order \<equiv> [RunPool, RollbackTx, CommitTx, RunPublisher, RunWorker, WorkerClosed, Reclaimer, RunService]"

lemma scenario_acquires: "acquires (scenario a reclaimed w) = run_order"
  by (simp add: scenario_def setup_steps_def transaction_steps_def relay_steps_def service_steps_def replay_steps_def)

lemma scenario_complete:
  assumes "run_steps (scenario a reclaimed w) [] = (held, NilErr)"
  shows "rn_firstOutcome w = ''acquired'' \<and> rn_rolledBackBusiness w = 0 \<and> rn_rolledBackOutbox w = 0 \<and> rn_commit w = NilErr"
    and "admission_withdrawn w \<and> \<not> rn_earlyAck w \<and> rn_acknowledged w \<and> entered_task w \<noteq> None \<and> stats_consistent w"
    and "rn_finalState w = ''stopped'' \<and> \<not> tw_shutdownWhileBusy (rn_tracked w) \<and> tw_shutdownCalls (rn_tracked w) = 1"
    and "rn_replayOutcome w = ''replayed'' \<and> rn_rows w = 1 \<and> rn_state w = ''delivered'' \<and> result_task w = (rn_envelopeID w, operationKey)"
    and "held = [RunPool, RollbackTx, CommitTx, RunPublisher, RunWorker, WorkerClosed, Reclaimer, RunService]"
proof -
  note facts = run_steps_held[OF assms, simplified]
  have steps: "list_all (\<lambda>(e, _). e = NilErr) (setup_steps a w)" "list_all (\<lambda>(e, _). e = NilErr) (transaction_steps a w)"
    "list_all (\<lambda>(e, _). e = NilErr) (service_steps a reclaimed w)" "list_all (\<lambda>(e, _). e = NilErr) (replay_steps a w)"
    "held = acquires (scenario a reclaimed w)"
    using facts by (simp_all add: scenario_def)
  show "rn_firstOutcome w = ''acquired'' \<and> rn_rolledBackBusiness w = 0 \<and> rn_rolledBackOutbox w = 0 \<and> rn_commit w = NilErr"
    using steps(1,2) by (auto simp: setup_steps_def transaction_steps_def durability_check_def durability_wrapped_def errorf_def split: if_splits)
  show "admission_withdrawn w \<and> \<not> rn_earlyAck w \<and> rn_acknowledged w \<and> entered_task w \<noteq> None \<and> stats_consistent w"
    "rn_finalState w = ''stopped'' \<and> \<not> tw_shutdownWhileBusy (rn_tracked w) \<and> tw_shutdownCalls (rn_tracked w) = 1"
    using steps(3) by (auto simp: service_steps_def durability_check_def errorf_def split: if_splits)
  show "rn_replayOutcome w = ''replayed'' \<and> rn_rows w = 1 \<and> rn_state w = ''delivered'' \<and> result_task w = (rn_envelopeID w, operationKey)"
    using steps(4) by (auto simp: replay_steps_def durability_check_def split: if_splits)
  show "held = [RunPool, RollbackTx, CommitTx, RunPublisher, RunWorker, WorkerClosed, Reclaimer, RunService]"
    using steps(5) by (simp add: scenario_acquires)
qed

lemma deferred_nil:
  "deferred a c held err = (NilErr, released) \<Longrightarrow> err = NilErr"
  by (auto simp: deferred_def joinShutdown_def Let_def split: if_splits)

lemma deferred_counts:
  assumes "prefix held run_order" and "deferred a c held err = (err', released)"
  shows "count_list released RunPool = count_list held RunPool" and "count_list released RunPublisher = count_list held RunPublisher"
    and "count_list released RunService = count_list held RunService" and "count_list released CommitTx = count_list held CommitTx"
    and "count_list held RunWorker = count_list released RunWorker + count_list held WorkerClosed"
proof -
  have released: "released = filter (\<lambda>r. r \<in> set held \<and> (r = RunWorker \<longrightarrow> WorkerClosed \<notin> set held))
      [RunService, RunWorker, RunPublisher, CommitTx, RunPool]"
    using assms(2) by (auto simp: deferred_def Let_def)
  have cases: "held \<in> set (prefixes run_order)" using assms(1) by (simp only: in_set_prefixes)
  show "count_list released RunPool = count_list held RunPool" "count_list released RunPublisher = count_list held RunPublisher"
    "count_list released RunService = count_list held RunService" "count_list released CommitTx = count_list held CommitTx"
    "count_list held RunWorker = count_list released RunWorker + count_list held WorkerClosed"
    using cases unfolding released by auto
qed

text \<open>\<^bold>\<open>A nil error proves the durability scenario.\<close> When \<^verbatim>\<open>Run\<close> returns nil, its result says what was
  observed: the rolled-back transaction left nothing, draining withdrew admission while the admitted
  handler kept running, the acknowledgement came only after that handler was released, the worker was
  shut down once and never while busy, and the command replayed with one business row and a
  delivered envelope of the observed task. A result that is not zero always says that; and every
  client \<^verbatim>\<open>Run\<close> opened, the pool, the publisher and the service, is released by the deferred calls whatever
  happened, the first worker unless it was already closed.\<close>

theorem run_proves_scenario:
  assumes "durability_Run a ctx config c w = (result, err, held, released)"
  shows "(err = NilErr \<longrightarrow> result \<noteq> zero_run) \<and>
    (result \<noteq> zero_run \<longrightarrow>
       ru_FirstOutcome result = ''acquired'' \<and> ru_ReplayOutcome result = ''replayed'' \<and> ru_BusinessRows result = 1 \<and>
       ru_OutboxState result = ''delivered'' \<and> ru_TaskID result = rn_envelopeID w \<and> ru_TaskKey result = operationKey \<and>
       ru_Redelivered result \<and> ru_RollbackIsolated result \<and> ru_AdmissionWithdrawn result \<and> ru_AdmittedWorkDrained result \<and>
       ru_Acknowledged result \<and> ru_WorkerShutdownCalls result = 1 \<and>
       rn_rolledBackBusiness w = 0 \<and> rn_rolledBackOutbox w = 0 \<and> \<not> rn_earlyAck w) \<and>
    count_list released RunPool = count_list held RunPool \<and> count_list released RunPublisher = count_list held RunPublisher \<and>
    count_list released RunService = count_list held RunService \<and> count_list released CommitTx = count_list held CommitTx \<and>
    count_list held RunWorker = count_list released RunWorker + count_list held WorkerClosed"
proof (cases "validateRecoveryInput ctx config = NilErr")
  case False
  then show ?thesis using assms by (auto simp: durability_Run_def)
next
  case True
  obtain got e where steps: "run_steps (scenario a (rc_reclaimed c) w) [] = (got, e)" by fastforce
  have outcome: "held = got" "result = (if e \<noteq> NilErr then zero_run else run_report w)" "deferred a c got e = (err, released)"
    using assms True steps by (auto simp: durability_Run_def Let_def split: prod.splits)
  have report: "run_report w \<noteq> zero_run" by (simp add: run_report_def zero_run_def)
  have nil: "err = NilErr \<longrightarrow> result \<noteq> zero_run" using outcome report deferred_nil by metis
  have "prefix got run_order" using run_steps_held[OF steps] by (simp add: scenario_acquires)
  note counts = deferred_counts[OF this outcome(3), folded outcome(1)]
  show ?thesis
  proof (cases "e = NilErr")
    case True
    note facts = scenario_complete[OF steps[unfolded True]]
    show ?thesis using nil counts outcome(2) True facts by (simp add: run_report_def)
  next
    case False
    then show ?thesis using nil counts outcome(2) by simp
  qed
qed

end
