(* ===== verification/Owner_Run.thy ===== *)
theory Owner_Run
  imports Http_Owners
begin

section \<open>The business owner under interleaving\<close>

text \<open>
  Models the state of \<^verbatim>\<open>businessOwner\<close> of \<^verbatim>\<open>platform.go\<close> while it runs: the supervised task, the handlers of its server
  and the command that asks for its failure, each call split at the channel operation and at the
  field it shares with the others. What the server's \<^verbatim>\<open>Run\<close> and \<^verbatim>\<open>Close\<close> did, when handlers arrive and return,
  and when the lifecycle closes admission is the environment's choice.
\<close>

subsection \<open>State\<close>

text \<open>The task between its statements, with the values it holds.\<close>

datatype owner_pc =
    OwnerRunning
  | OwnerRan go_error
  | OwnerClosed go_error go_error
  | OwnerSealed go_error go_error
  | OwnerStored
  | OwnerPublished
  | OwnerReturned go_error

text \<open>A call of \<^verbatim>\<open>failure\<close>: before its select, after receiving from \<^verbatim>\<open>stopped\<close>, returned.\<close>

datatype reader_pc = ReaderSelect | ReaderReceived | ReaderDone go_error

record owner_sys =
  ow_join :: bool
  ow_pc :: owner_pc
  ow_runErr :: go_error
  ow_stopped :: chan
  ow_admitting :: bool
  ow_handlers :: nat
  ow_readers :: "reader_pc list"

definition newBusinessOwner :: "bool \<Rightarrow> nat \<Rightarrow> owner_sys" where
  "newBusinessOwner join readers =
     \<lparr>ow_join = join, ow_pc = OwnerRunning, ow_runErr = NilErr, ow_stopped = (if join then ChanOpen else ChanNil),
      ow_admitting = True, ow_handlers = 0, ow_readers = replicate readers ReaderSelect\<rparr>"

subsection \<open>Steps\<close>

text \<open>
  One statement of \<^verbatim>\<open>run\<close>: \<open>result\<close> is the outcome of the server's \<^verbatim>\<open>Run\<close> or \<^verbatim>\<open>Close\<close> where one is called, \<open>cancelled\<close> whether the
  context is done when it is looked at. Waiting for the handlers needs closed admission and none in flight.
\<close>

definition stopped_early :: "addr \<Rightarrow> go_error \<Rightarrow> bool \<Rightarrow> go_error" where
  "stopped_early a runErr cancelled =
     (if runErr = NilErr \<and> \<not> cancelled then ErrorString a ''business HTTP stopped before cancellation'' else runErr)"

fun owner_thread :: "addr \<Rightarrow> outcome \<Rightarrow> bool \<Rightarrow> owner_pc \<Rightarrow> owner_sys \<Rightarrow> owner_sys option" where
  "owner_thread a result cancelled OwnerRunning s =
     (let runErr = invoke a ''service-business-http'' ''run'' result in
      Some (s\<lparr>ow_pc := if ow_join s then OwnerRan runErr else OwnerReturned runErr\<rparr>))"
| "owner_thread a result cancelled (OwnerRan runErr) s =
     Some (s\<lparr>ow_pc := OwnerClosed runErr (invoke a ''service-business-http'' ''close'' result)\<rparr>)"
| "owner_thread a result cancelled (OwnerClosed runErr closeErr) s =
     Some (s\<lparr>ow_admitting := False, ow_pc := OwnerSealed runErr closeErr\<rparr>)"
| "owner_thread a result cancelled (OwnerSealed runErr closeErr) s =
     Some (s\<lparr>ow_runErr := errors_join a [stopped_early a runErr cancelled, closeErr], ow_pc := OwnerStored\<rparr>)"
| "owner_thread a result cancelled OwnerStored s = Some (s\<lparr>ow_stopped := close_chan (ow_stopped s), ow_pc := OwnerPublished\<rparr>)"
| "owner_thread a result cancelled OwnerPublished s =
     (if \<not> ow_admitting s \<and> ow_handlers s = 0 then Some (s\<lparr>ow_pc := OwnerReturned (ow_runErr s)\<rparr>) else None)"
| "owner_thread a result cancelled (OwnerReturned err) s = None"

fun failure_thread :: "reader_pc \<Rightarrow> owner_sys \<Rightarrow> reader_pc option" where
  "failure_thread ReaderSelect s = Some (if ow_stopped s = ChanClosed then ReaderReceived else ReaderDone NilErr)"
| "failure_thread ReaderReceived s = Some (ReaderDone (ow_runErr s))"
| "failure_thread (ReaderDone err) s = None"

inductive owner_step :: "addr \<Rightarrow> owner_sys \<Rightarrow> owner_sys \<Rightarrow> bool" for a where
  owner_task: "owner_thread a result cancelled (ow_pc s) s = Some t \<Longrightarrow> owner_step a s t"
| owner_failure: "i < length (ow_readers s) \<Longrightarrow> failure_thread (ow_readers s ! i) s = Some r \<Longrightarrow>
    owner_step a s (s\<lparr>ow_readers := (ow_readers s)[i := r]\<rparr>)"
| owner_admits: "ow_admitting s \<Longrightarrow> owner_step a s (s\<lparr>ow_handlers := ow_handlers s + 1\<rparr>)"
| owner_handler_returns: "ow_handlers s = Suc n \<Longrightarrow> owner_step a s (s\<lparr>ow_handlers := n\<rparr>)"
| owner_closes_admission: "ow_admitting s \<Longrightarrow> ow_join s \<Longrightarrow> owner_step a s (s\<lparr>ow_admitting := False\<rparr>)"

inductive_cases owner_stepE: "owner_step a s t"

text \<open>
  The stop callbacks: the management owner cancels its run and then stops the server, the business
  owner closes its server. The boolean is whether the run was cancelled.
\<close>

definition management_stop :: "addr \<Rightarrow> ctx_state \<Rightarrow> ctx_state \<Rightarrow> bool \<Rightarrow> go_error \<Rightarrow> go_error \<Rightarrow> bool \<times> go_error list" where
  "management_stop a before later ended closeErr runErr = (True, stopHTTPServer a before later ended closeErr runErr)"

definition business_stop :: "addr \<Rightarrow> go_error \<Rightarrow> go_error \<Rightarrow> http_server \<Rightarrow> http_server \<times> server_effect list \<times> go_error" where
  "business_stop a closed listenerClosed server = server_Close a closed listenerClosed server"

subsection \<open>The invariant\<close>

text \<open>The error is written before the channel is closed, and the channel is closed exactly from then on.\<close>

fun owner_pc_ok :: "owner_sys \<Rightarrow> owner_pc \<Rightarrow> bool" where
  "owner_pc_ok s OwnerRunning \<longleftrightarrow> ow_stopped s = (if ow_join s then ChanOpen else ChanNil) \<and> ow_runErr s = NilErr"
| "owner_pc_ok s (OwnerRan _) \<longleftrightarrow> ow_join s \<and> ow_stopped s = ChanOpen \<and> ow_runErr s = NilErr"
| "owner_pc_ok s (OwnerClosed _ _) \<longleftrightarrow> ow_join s \<and> ow_stopped s = ChanOpen \<and> ow_runErr s = NilErr"
| "owner_pc_ok s (OwnerSealed _ _) \<longleftrightarrow> ow_join s \<and> ow_stopped s = ChanOpen \<and> ow_runErr s = NilErr \<and> \<not> ow_admitting s"
| "owner_pc_ok s OwnerStored \<longleftrightarrow> ow_join s \<and> ow_stopped s = ChanOpen \<and> \<not> ow_admitting s"
| "owner_pc_ok s OwnerPublished \<longleftrightarrow> ow_join s \<and> ow_stopped s = ChanClosed \<and> \<not> ow_admitting s"
| "owner_pc_ok s (OwnerReturned err) \<longleftrightarrow>
     (if ow_join s then ow_stopped s = ChanClosed \<and> \<not> ow_admitting s \<and> ow_handlers s = 0 \<and> err = ow_runErr s else ow_stopped s = ChanNil)"

fun reader_ok :: "owner_sys \<Rightarrow> reader_pc \<Rightarrow> bool" where
  "reader_ok s ReaderSelect \<longleftrightarrow> True"
| "reader_ok s ReaderReceived \<longleftrightarrow> ow_stopped s = ChanClosed"
| "reader_ok s (ReaderDone err) \<longleftrightarrow> err = NilErr \<or> ow_stopped s = ChanClosed \<and> err = ow_runErr s"

definition owner_inv :: "owner_sys \<Rightarrow> bool" where
  "owner_inv s \<longleftrightarrow> owner_pc_ok s (ow_pc s) \<and> list_all (reader_ok s) (ow_readers s)"

lemma reader_ok_mono:
  "reader_ok s r \<Longrightarrow> (ow_stopped s = ChanClosed \<Longrightarrow> ow_stopped t = ChanClosed \<and> ow_runErr t = ow_runErr s) \<Longrightarrow> reader_ok t r"
  by (cases r) auto

lemma readers_mono:
  "list_all (reader_ok s) rs \<Longrightarrow> (ow_stopped s = ChanClosed \<Longrightarrow> ow_stopped t = ChanClosed \<and> ow_runErr t = ow_runErr s) \<Longrightarrow>
     list_all (reader_ok t) rs"
  using reader_ok_mono by (auto simp: list_all_iff)

lemma task_keeps:
  assumes "owner_inv s" and "owner_thread a result cancelled (ow_pc s) s = Some t"
  shows "owner_pc_ok t (ow_pc t)" and "ow_readers t = ow_readers s"
    and "ow_stopped s = ChanClosed \<Longrightarrow> ow_stopped t = ChanClosed \<and> ow_runErr t = ow_runErr s"
  using assms by (cases "ow_pc s"; auto simp: owner_inv_def Let_def split: if_splits)+

lemma owner_inv_step: "owner_inv s \<Longrightarrow> owner_step a s t \<Longrightarrow> owner_inv t"
proof (elim owner_stepE)
  fix result cancelled
  assume "owner_inv s" "owner_thread a result cancelled (ow_pc s) s = Some t"
  then show "owner_inv t"
    using task_keeps[of s a result cancelled t] readers_mono[of s "ow_readers s" t] by (auto simp: owner_inv_def)
next
  fix i r
  assume inv: "owner_inv s" and r: "failure_thread (ow_readers s ! i) s = Some r" "i < length (ow_readers s)"
    and t: "t = s\<lparr>ow_readers := (ow_readers s)[i := r]\<rparr>"
  have "reader_ok s (ow_readers s ! i)" using r(2) inv by (simp add: owner_inv_def list_all_length)
  then have "reader_ok s r" using r by (cases "ow_readers s ! i") (auto split: if_splits)
  then have "list_all (reader_ok s) ((ow_readers s)[i := r])"
    using inv by (auto simp: owner_inv_def list_all_iff dest: set_update_subset_insert[THEN subsetD])
  moreover have "reader_ok t = reader_ok s"
  proof
    fix x show "reader_ok t x = reader_ok s x" by (cases x) (simp_all add: t)
  qed
  moreover have "owner_pc_ok t (ow_pc t)" using inv by (cases "ow_pc s") (auto simp: owner_inv_def t)
  ultimately show "owner_inv t" by (simp add: owner_inv_def t)
qed (use readers_mono[of s "ow_readers s" t] in \<open>cases "ow_pc s"; auto simp: owner_inv_def split: if_splits\<close>)+

definition owner_initial :: "bool \<Rightarrow> nat \<Rightarrow> owner_sys \<Rightarrow> bool" where
  "owner_initial join readers s \<longleftrightarrow> s = newBusinessOwner join readers"

interpretation business_owner: safe_system "owner_initial join readers" "owner_step a" owner_inv for join readers a
proof
  show "owner_initial join readers s \<Longrightarrow> owner_inv s" for s
    by (simp add: owner_initial_def newBusinessOwner_def owner_inv_def list_all_iff)
  show "owner_inv s \<Longrightarrow> owner_step a s t \<Longrightarrow> owner_inv t" for s t
    by (rule owner_inv_step)
qed

subsection \<open>The failure is published before the handlers are awaited\<close>

lemma owner_stuck:
  assumes "owner_inv s" and "\<nexists>t. owner_step a s t"
  shows "(\<exists>err. ow_pc s = OwnerReturned err) \<and> (\<forall>r\<in>set (ow_readers s). \<exists>err. r = ReaderDone err)"
proof -
  have "owner_thread a result cancelled (ow_pc s) s = None" for result cancelled
    using assms(2) owner_task[of a result cancelled s] by fastforce
  moreover have "ow_handlers s = 0" "\<not> ow_admitting s"
    using assms(2) owner_handler_returns[of s] owner_admits[of s a] by (metis not0_implies_Suc)+
  ultimately have "\<exists>err. ow_pc s = OwnerReturned err" by (cases "ow_pc s") (auto simp: Let_def)
  moreover have "\<exists>err. r = ReaderDone err" if member: "r \<in> set (ow_readers s)" for r
  proof -
    obtain i where "i < length (ow_readers s)" "ow_readers s ! i = r" using member by (meson in_set_conv_nth)
    then have "failure_thread r s = None" using assms(2) owner_failure[of i s _ a] by (cases "failure_thread r s") auto
    then show ?thesis by (cases r) auto
  qed
  ultimately show ?thesis by blast
qed


text \<open>A server that fails while a handler is in flight: the command has the failure, the handler still runs.\<close>

definition failed_owner :: owner_sys where
  "failed_owner =
     \<lparr>ow_join = True, ow_pc = OwnerPublished, ow_runErr = JoinError 1 [ErrorString 2 ''accept''], ow_stopped = ChanClosed,
      ow_admitting = False, ow_handlers = 1, ow_readers = [ReaderDone (JoinError 1 [ErrorString 2 ''accept''])]\<rparr>"

lemma failed_owner_reached: "reachable (owner_initial True 1) (owner_step 1) failed_owner"
proof -
  let ?e = "ErrorString 2 ''accept''"
  let ?s = "\<lambda>pc err stopped admitting handlers reader. \<lparr>ow_join = True, ow_pc = pc, ow_runErr = err, ow_stopped = stopped,
    ow_admitting = admitting, ow_handlers = handlers, ow_readers = [reader]\<rparr>"
  have task: "owner_step 1 s t" if "owner_thread 1 result False (ow_pc s) s = Some t" for s t result
    using that by (rule owner_task)
  have ask: "owner_step 1 s (s\<lparr>ow_readers := [r]\<rparr>)" if "ow_readers s = [q]" "failure_thread q s = Some r" for s q r
    using owner_failure[of 0 s r 1] that by simp
  have "reachable (owner_initial True 1) (owner_step 1) (?s OwnerRunning NilErr ChanOpen True 0 ReaderSelect)"
    by (rule reachable_init) (simp add: owner_initial_def newBusinessOwner_def)
  moreover have "owner_step 1 (?s OwnerRunning NilErr ChanOpen True 0 ReaderSelect) (?s OwnerRunning NilErr ChanOpen True 1 ReaderSelect)"
    using owner_admits[of "?s OwnerRunning NilErr ChanOpen True 0 ReaderSelect" 1] by simp
  moreover have "owner_step 1 (?s OwnerRunning NilErr ChanOpen True 1 ReaderSelect) (?s (OwnerRan ?e) NilErr ChanOpen True 1 ReaderSelect)"
    by (rule task[where result = "Returned ?e"]) simp
  moreover have "owner_step 1 (?s (OwnerRan ?e) NilErr ChanOpen True 1 ReaderSelect) (?s (OwnerClosed ?e NilErr) NilErr ChanOpen True 1 ReaderSelect)"
    by (rule task[where result = "Returned NilErr"]) simp
  moreover have "owner_step 1 (?s (OwnerClosed ?e NilErr) NilErr ChanOpen True 1 ReaderSelect)
      (?s (OwnerSealed ?e NilErr) NilErr ChanOpen False 1 ReaderSelect)"
    by (rule task[where result = "Returned NilErr"]) simp
  moreover have "owner_step 1 (?s (OwnerSealed ?e NilErr) NilErr ChanOpen False 1 ReaderSelect)
      (?s OwnerStored (JoinError 1 [?e]) ChanOpen False 1 ReaderSelect)"
    by (rule task[where result = "Returned NilErr"]) (simp add: stopped_early_def errors_join_def)
  moreover have "owner_step 1 (?s OwnerStored (JoinError 1 [?e]) ChanOpen False 1 ReaderSelect)
      (?s OwnerPublished (JoinError 1 [?e]) ChanClosed False 1 ReaderSelect)"
    by (rule task[where result = "Returned NilErr"]) simp
  moreover have "owner_step 1 (?s OwnerPublished (JoinError 1 [?e]) ChanClosed False 1 ReaderSelect)
      (?s OwnerPublished (JoinError 1 [?e]) ChanClosed False 1 ReaderReceived)"
    using ask[of "?s OwnerPublished (JoinError 1 [?e]) ChanClosed False 1 ReaderSelect" ReaderSelect ReaderReceived] by simp
  moreover have "owner_step 1 (?s OwnerPublished (JoinError 1 [?e]) ChanClosed False 1 ReaderReceived) failed_owner"
    using ask[of "?s OwnerPublished (JoinError 1 [?e]) ChanClosed False 1 ReaderReceived" ReaderReceived "ReaderDone (JoinError 1 [?e])"]
    by (simp add: failed_owner_def)
  ultimately show ?thesis by (meson reachable_step)
qed


end
