(* ===== verification/Plan_Lifecycle.thy ===== *)
theory Plan_Lifecycle
  imports Plan Lifecycle_Correct
begin

section \<open>Running the service of a plan\<close>

text \<open>
  Joins the assembly of a plan with the lifecycle: the service \<open>plan_service\<close> builds is run by the
  steps of \<open>Lifecycle_System\<close>, and the invariant of the lifecycle gives the order in which the platform's and the
  application's components are started and stopped in every interleaving.
\<close>

lemma thread_keeps_components:
  assumes "thread_step g p g' p' new"
  shows "components (svc g') = components (svc g)"
  using assms
proof (induction rule: thread_step.induct)
  case (shutdown_locked k g s branch)
  then show ?case by (simp add: shutdown_enter_fields)
qed (auto dest!: start_enter_fields start_finish_fields drain_enter_fields simp: acquire_def
      start_acquired_def rollback_enter_def fail_startup_close_def close_enter_def close_finish_def
      task_record_def task_retire_def stop_finish_def finishShutdownLocked_def Let_def split: if_splits)

lemma thread_keeps_acquired:
  assumes "thread_step g p g' p' new" and "inv_phase (g, add_mset p P)" and "svc_state (svc g) \<noteq> StateStarting"
  shows "acquired g' = acquired g"
  using assms
proof (induction rule: thread_step.induct)
  case (start_no_hook i g)
  then show ?case using starting_phase by fastforce
next
  case (start_call_done a g i out)
  then show ?case using starting_phase by fastforce
qed simp_all

lemma step_keeps_components: "sys_step x y \<Longrightarrow> components (svc (fst y)) = components (svc (fst x))"
proof (induction rule: sys_step.induct)
  case (thread g p g' p' new P)
  then show ?case using thread_keeps_components by simp
qed (auto simp: go_admit_def Let_def split: if_splits)

lemma steps_keep_components: "sys_step\<^sup>*\<^sup>* x y \<Longrightarrow> components (svc (fst y)) = components (svc (fst x))"
  by (induction rule: rtranclp_induct) (auto dest: step_keeps_components)

lemma step_keeps_acquired:
  assumes "sys_step x y" and "inv_order x" and "svc_state (svc (fst x)) \<noteq> StateStarting"
  shows "acquired (fst y) = acquired (fst x)"
  using assms
proof (induction rule: sys_step.induct)
  case (thread g p g' p' new P)
  then show ?case using thread_keeps_acquired[of g p g' p' new P] by (simp add: inv_order_def)
qed simp_all

lemma steps_keep_acquired:
  assumes "sys_step\<^sup>*\<^sup>* x y" and "inv_order x" and "svc_state (svc (fst x)) = StateReady"
  shows "acquired (fst y) = acquired (fst x) \<and> StateReady \<le> svc_state (svc (fst y))"
  using assms(1)
proof (induction rule: rtranclp_induct)
  case base
  then show ?case using assms(3) by simp
next
  case (step y z)
  have inv: "inv_order y" using lifecycle.reachable_steps_inv[OF assms(2) step(1)] .
  have "svc_state (svc (fst y)) \<noteq> StateStarting" using step(3) by (auto simp: state_order)
  then show ?case
    using step_keeps_acquired[OF step(2) inv] step_monotone[OF inv step(2)] step(3) by auto
qed

text \<open>The timeout of the component phase is set after construction and is no part of the invariant.\<close>

lemma fresh_plan_inv:
  assumes "New a cfg = Inr runtime"
  shows "inv_order (fresh_shared (runtime\<lparr>componentStopTimeout := t\<rparr>), {#})"
proof -
  have "inv_order (fresh_shared runtime, {#})"
    using assms by (intro lifecycle.inv_init) (auto simp: sys_init_def)
  then show ?thesis
    using assms by (auto simp: New_Inr zero_service_def fresh_shared_def inv_order_def inv_phase_def phase_ok_def inv_drain_def
        shared_ok_def ctx_ok_def counts_simps result_ok_def starts_ok_def stops_ok_def closes_ok_def accepting_def threads_ok_def)
qed

text \<open>The names of the components with the given indices.\<close>

definition called_names :: "service \<Rightarrow> nat list \<Rightarrow> string list" where
  "called_names s is = map (\<lambda>i. Name (components s ! i)) is"

lemma called_hooks:
  assumes "components (svc g) = components s"
  shows "called_names s (hooks f g [0..<length (components s)]) = map Name (filter f (components s))"
proof -
  have "map (\<lambda>i. components s ! i) (filter (\<lambda>i. f (components s ! i)) [0..<length (components s)]) =
      filter f (map (\<lambda>i. components s ! i) [0..<length (components s)])"
    by (simp add: filter_map comp_def)
  then have "map (\<lambda>i. components s ! i) (hooks f g [0..<length (components s)]) = filter f (components s)"
    using assms by (simp add: hooks_def comp_at_def map_nth)
  then show ?thesis unfolding called_names_def by (metis (no_types, lifting) list.map_comp comp_def map_eq_conv)
qed

lemma called_rev: "called_names s (hooks f g (rev is)) = rev (called_names s (hooks f g is))"
  by (simp add: called_names_def hooks_def rev_filter rev_map)

lemma ready_calls:
  assumes "inv_order (fresh_shared s, {#})" and "sys_step\<^sup>*\<^sup>* (fresh_shared s, {#}) (g, P)" and "svc_state (svc g) = StateReady"
  shows "called_names s (start_calls (calls g)) = map Name (filter StartHook (components s))"
    and "sys_step\<^sup>*\<^sup>* (g, P) (h, Q) \<Longrightarrow> svc_state (svc h) = StateStopped \<Longrightarrow>
      called_names s (stop_calls (calls h)) = rev (map Name (filter StopHook (components s)))"
proof -
  have inv: "inv_order (g, P)" using lifecycle.reachable_steps_inv[OF assms(1,2)] .
  have comps: "components (svc g) = components s" using steps_keep_components[OF assms(2)] by (simp add: fresh_shared_def)
  have full: "acquired g = length (components s)"
    using inv assms(3) comps by (simp add: inv_order_def shared_ok_def counts_ok_def n_comps_def Let_def accepting_def)
  have "start_calls (calls g) = hooks StartHook g [0..<length (components s)]"
    using inv full comps by (auto simp: inv_order_def shared_ok_def starts_ok_def n_comps_def)
  then show "called_names s (start_calls (calls g)) = map Name (filter StartHook (components s))"
    using called_hooks[OF comps] by simp
  assume steps: "sys_step\<^sup>*\<^sup>* (g, P) (h, Q)" and stopped: "svc_state (svc h) = StateStopped"
  have inv': "inv_order (h, Q)" using lifecycle.reachable_steps_inv[OF inv steps] .
  have comps': "components (svc h) = components s" using steps_keep_components[OF steps] comps by simp
  have "acquired h = length (components s)" using steps_keep_acquired[OF steps inv] assms(3) full by simp
  then have "stop_calls (calls h) = hooks StopHook h (rev [0..<length (components s)])"
    using stopped_quiet(1)[OF inv' stopped] by simp
  then show "called_names s (stop_calls (calls h)) = rev (map Name (filter StopHook (components s)))"
    using called_hooks[OF comps'] by (simp add: called_rev)
qed

text \<open>Every task of an accepted plan that fits the bound is admitted.\<close>

lemma plan_tasks_valid:
  assumes "validateTasks a (pl_Tasks plan) = NilErr"
  shows "\<forall>t\<in>set (plan_tasks kind maintained plan). validRuntimeIdentity (nc_Name t) \<and> nc_Run t"
proof -
  have "validRuntimeIdentity ''service-business-http''"
    by (simp add: validRuntimeIdentity_def MaxRuntimeIdentityBytes_def trim_space_plain printable_def)
  with assms platform_identities show ?thesis
    by (auto simp: validateTasks_iff plan_tasks_def maintenance_task_def business_task_def)
qed

text \<open>C28. \<^bold>\<open>An accepted plan of a long-running command becomes a service that starts and stops the platform's components
  around the application's.\<close> All component names are distinct, and a plan that takes a platform
  name is rejected. Whenever that service, in any interleaving of the lifecycle, has become ready, the
  Start callbacks that ran are those of the management listener, then of the maintenance state when there is a store,
  then the plan's components in their order, then of the business server; and when it has stopped after that, the
  Stop callbacks that ran are those of the business server, then the plan's components in
  reverse, then of the management listener: probes outlive the application, and the business server
  is stopped before anything it uses. Every task of the plan is admitted on the started service
  when the plan serves HTTP, when there is no maintenance store, or when the plan has fewer than 64 tasks; the
  remaining plans, a worker with a maintenance store and 64 tasks, are the exception of
  \<open>maintenance_task_overflows\<close>. The component allowance is the plan's, and the business address is
  never the address of its management listener.\<close>

theorem plan_assembles_service:
  assumes "plan_service a configured maintained command plan = Inr s"
    and "reg_kind command = CommandKindLongRunning"
  shows "distinct (map Name (components s)) \<and>
    (c \<in> set (pl_Components plan) \<longrightarrow> Name c \<noteq> ''service-management'' \<and>
      (maintained \<longrightarrow> Name c \<noteq> ''service-maintenance-state'') \<and>
      (pl_HTTP plan \<noteq> None \<longrightarrow> Name c \<noteq> ''service-business-http-owner'')) \<and>
    (\<forall>g P. sys_step\<^sup>*\<^sup>* (fresh_shared s, {#}) (g, P) \<longrightarrow> svc_state (svc g) = StateReady \<longrightarrow>
      called_names s (start_calls (calls g)) =
        ''service-management'' # (if maintained then [''service-maintenance-state''] else []) @
        map Name (filter StartHook (pl_Components plan)) @
        (if pl_HTTP plan \<noteq> None then [''service-business-http-owner''] else []) \<and>
      (\<forall>h Q. sys_step\<^sup>*\<^sup>* (g, P) (h, Q) \<longrightarrow> svc_state (svc h) = StateStopped \<longrightarrow>
        called_names s (stop_calls (calls h)) =
          (if pl_HTTP plan \<noteq> None then [''service-business-http-owner''] else []) @
          rev (map Name (filter StopHook (pl_Components plan))) @ [''service-management''])) \<and>
    (pl_HTTP plan \<noteq> None \<or> \<not> maintained \<or> length (pl_Tasks plan) < 64 \<longrightarrow>
      snd (admit_tasks a (\<lambda>_ t. t) 0 (plan_tasks CommandKindLongRunning maintained plan) (started_service s)) = NilErr) \<and>
    (svc_state s = StateNew \<and> componentStopTimeout s = pl_ComponentStopTimeout plan \<and> 0 < startup s \<and> 0 < rollback s) \<and>
    (pl_HTTP plan = Some http \<longrightarrow> ht_Address http \<noteq> [] \<longrightarrow> pl_ManagementConfig plan = Some m \<longrightarrow> mg_Listener m = None \<longrightarrow>
      ht_Address http \<noteq> resolvedManagementAddress (mg_Address m))"
proof -
  obtain runtime where guards: "plan_guards a configured command plan = NilErr"
    and new: "New a (plan_config CommandKindLongRunning maintained plan) = Inr runtime"
    and s: "s = runtime\<lparr>componentStopTimeout := pl_ComponentStopTimeout plan\<rparr>"
    using assms by (auto simp: plan_service_Inr)
  note built = new[unfolded New_Inr]
  have shape: "components s = management_component # (if maintained then [maintenance_component] else []) @ pl_Components plan @
      (case pl_HTTP plan of None \<Rightarrow> [] | Some http \<Rightarrow> [business_component http])"
    using built s by (simp add: plan_config_def plan_components_def split: option.splits)
  have names: "distinct (map Name (components s))"
    using built s component_names.accepts_iff[of a 0 "[]" "components s"] by (simp add: plan_config_def)
  have c1: "Name c \<noteq> ''service-management'' \<and> (maintained \<longrightarrow> Name c \<noteq> ''service-maintenance-state'') \<and>
      (pl_HTTP plan \<noteq> None \<longrightarrow> Name c \<noteq> ''service-business-http-owner'')" if "c \<in> set (pl_Components plan)"
    using names that unfolding shape
    by (auto simp: management_component_def maintenance_component_def business_component_def image_iff
        split: option.splits if_splits)
  have inv: "inv_order (fresh_shared s, {#})" using fresh_plan_inv[OF new] s by simp
  have starts: "map Name (filter StartHook (components s)) =
      ''service-management'' # (if maintained then [''service-maintenance-state''] else []) @
      map Name (filter StartHook (pl_Components plan)) @ (if pl_HTTP plan \<noteq> None then [''service-business-http-owner''] else [])"
    and stops: "rev (map Name (filter StopHook (components s))) =
      (if pl_HTTP plan \<noteq> None then [''service-business-http-owner''] else []) @
      rev (map Name (filter StopHook (pl_Components plan))) @ [''service-management'']"
    unfolding shape
    by (auto simp: management_component_def maintenance_component_def business_component_def split: option.splits)
  have bound: "maxTasks s = (if pl_HTTP plan \<noteq> None then int (length (plan_tasks CommandKindLongRunning maintained plan)) else 64)"
    and count: "taskCount s = 0"
    using built s by (auto simp: plan_config_def plan_tasks_def zero_service_def defaultMaxTasks_def)
  have tasks: "validateTasks a (pl_Tasks plan) = NilErr" using plan_guards_ok(1)[OF guards] .
  have c2: "snd (admit_tasks a (\<lambda>_ t. t) 0 (plan_tasks CommandKindLongRunning maintained plan) (started_service s)) = NilErr"
    if fits: "pl_HTTP plan \<noteq> None \<or> \<not> maintained \<or> length (pl_Tasks plan) < 64"
  proof -
    have "int (length (plan_tasks CommandKindLongRunning maintained plan)) \<le> maxTasks s" "0 < maxTasks s"
      using fits bound tasks by (auto simp: plan_tasks_def validateTasks_iff split: if_splits)
    then show ?thesis
      using admit_tasks_count[OF started_ready[of s] _ _ plan_tasks_valid[OF tasks]] count
      by (simp add: started_service_def)
  qed
  have c3: "svc_state s = StateNew \<and> componentStopTimeout s = pl_ComponentStopTimeout plan \<and> 0 < startup s \<and> 0 < rollback s"
    using built s by (auto simp: plan_config_def zero_service_def lifecycle_constants)
  have c4: "pl_HTTP plan = Some http \<Longrightarrow> ht_Address http \<noteq> [] \<Longrightarrow> pl_ManagementConfig plan = Some m \<Longrightarrow> mg_Listener m = None \<Longrightarrow>
      ht_Address http \<noteq> resolvedManagementAddress (mg_Address m)"
    using plan_guards_ok(4)[OF guards assms(2)] business_address(2) by auto
  show ?thesis using names c1 ready_calls[OF inv, unfolded starts stops] c2 c3 c4 by blast
qed

text \<open>A worker with maintenance that became ready.\<close>

definition worker_service_value :: service where
  "worker_service_value = zero_service\<lparr>components := [management_component, maintenance_component],
     startup := defaultStartupTimeout, rollback := defaultRollbackTimeout, maxTasks := 64\<rparr>"

definition worker_at :: "nat \<Rightarrow> call list \<Rightarrow> shared" where
  "worker_at n made = \<lparr>svc = worker_service_value\<lparr>svc_state := StateStarting, svc_ctx := Some CtxActive,
     startDone := ChanOpen, started := n\<rparr>, startupCtx = CtxActive, completed = None, acquired = n, calls = made\<rparr>"

definition worker_ready :: shared where
  "worker_ready = (worker_at 2 [CallStart 0, CallStart 1])\<lparr>svc := (svc (worker_at 2 []))\<lparr>svc_state := StateReady,
     startedFully := True, startDone := ChanClosed\<rparr>\<rparr>"

lemma worker_comp: "n_comps (worker_at n made) = 2"
  "StartHook (comp_at (worker_at n made) 0)" "StartHook (comp_at (worker_at n made) 1)"
  "startupCtx (worker_at n made) = CtxActive"
  by (simp_all add: worker_at_def n_comps_def comp_at_def worker_service_value_def
      management_component_def maintenance_component_def)

lemma worker_component_starts:
  assumes "StartHook (comp_at (worker_at i made) i)" and "i < 2"
  shows "sys_step\<^sup>*\<^sup>* (worker_at i made, {#StartLoop i#}) (worker_at (Suc i) (made @ [CallStart i]), {#StartLoop (Suc i)#})"
proof -
  let ?g = "worker_at i (made @ [CallStart i])"
  have "thread_step (worker_at i made) (StartLoop i) ?g (StartCalling i) {#}"
    using start_call[of i "worker_at i made"] assms by (simp add: worker_comp) (simp add: worker_at_def)
  moreover have "thread_step ?g (StartCalling i) (worker_at (Suc i) (made @ [CallStart i])) (StartLoop (Suc i)) {#}"
    using start_call_done[of 0 ?g i "Returned NilErr"]
    by (simp add: start_next_def worker_comp)
      (simp add: worker_at_def acquire_def start_acquired_def with_svc_def)
  ultimately have "sys_step (worker_at i made, {#StartLoop i#}) (?g, {#StartCalling i#})"
    "sys_step (?g, {#StartCalling i#}) (worker_at (Suc i) (made @ [CallStart i]), {#StartLoop (Suc i)#})"
    by (auto dest: sys_step.thread[where P = "{#}"])
  then show ?thesis by auto
qed

lemma worker_becomes_ready:
  "sys_step\<^sup>*\<^sup>* (fresh_shared worker_service_value, {#}) (worker_ready, {#StartReturned NilErr#})"
proof -
  let ?g = "fresh_shared worker_service_value"
  have "sys_step (?g, {#}) (?g, {#StartEnter (Some CtxActive)#})" by (rule sys_step.call) simp
  moreover have "sys_step (?g, {#StartEnter (Some CtxActive)#}) (worker_at 0 [], {#StartLoop 0#})"
    using sys_step.thread[OF start_accepted[of 0 CtxActive ?g "svc (worker_at 0 [])"], of "{#}"]
    by (simp add: start_enter_def fresh_shared_def worker_at_def worker_service_value_def zero_service_def with_svc_def)
  moreover have "sys_step\<^sup>*\<^sup>* (worker_at 0 [], {#StartLoop 0#}) (worker_at 2 [CallStart 0, CallStart 1], {#StartLoop 2#})"
    using worker_component_starts[of 0 "[]"] worker_component_starts[of 1 "[CallStart 0]"]
    worker_comp(3)[of 1]
    by (auto simp: worker_comp(1,2,4) numeral_2_eq_2 elim: rtranclp_trans)
  moreover have "sys_step (worker_at 2 [CallStart 0, CallStart 1], {#StartLoop 2#}) (worker_ready, {#StartReturned NilErr#})"
    using sys_step.thread[OF start_ready[of "worker_at 2 [CallStart 0, CallStart 1]" "svc worker_ready"], of "{#}"]
    by (simp add: worker_comp start_finish_def)
      (simp add: worker_ready_def worker_at_def with_svc_def)
  ultimately show ?thesis
    by (meson converse_rtranclp_into_rtranclp rtranclp.rtrancl_into_rtrancl)
qed

theorem plan_assembles_service_witness:
  "plan_service 1 no_management True worker_command (worker_plan []) = Inr worker_service_value \<and>
   sys_step\<^sup>*\<^sup>* (fresh_shared worker_service_value, {#}) (worker_ready, {#StartReturned NilErr#}) \<and>
   called_names worker_service_value (start_calls (calls worker_ready)) = [''service-management'', ''service-maintenance-state'']"
proof -
  have "validateTasks 1 [] = NilErr" by (simp add: validateTasks_def defaultMaxTasks_def)
  from worker_service[OF this]
  have built: "plan_service 1 no_management True worker_command (worker_plan []) = Inr worker_service_value"
    by (simp add: worker_service_value_def)
  have kind: "reg_kind worker_command = CommandKindLongRunning" by (simp add: worker_command_def CommandFor_def)
  have "svc_state (svc worker_ready) = StateReady" by (simp add: worker_ready_def)
  with plan_assembles_service[OF built kind] worker_becomes_ready
  have "called_names worker_service_value (start_calls (calls worker_ready)) = [''service-management'', ''service-maintenance-state'']"
    by (simp add: worker_plan_def)
  with built worker_becomes_ready show ?thesis by blast
qed

end
