(* ===== verification/Plan_Snapshot.thy ===== *)
theory Plan_Snapshot
  imports Plan
begin

section \<open>The snapshot of a plan\<close>

text \<open>
  Models \<^verbatim>\<open>snapshotPlan\<close> of \<^verbatim>\<open>platform.go\<close> with the memory it copies: the slices and structs a plan points to stay
  in the hands of the application that built it, and the platform runs from its own copies. A slice
  is the address of its array, or nil; a pointer field the address of its struct, or nil.
\<close>

subsection \<open>Memory\<close>

record http_cell =
  hc_plan :: http_plan
  hc_Options :: "addr option"

record 'o plan_heap =
  ph_components :: "addr \<Rightarrow> component list"
  ph_callbacks :: "addr \<Rightarrow> named_callback list"
  ph_options :: "addr \<Rightarrow> 'o list"
  ph_http :: "addr \<Rightarrow> http_cell"
  ph_management :: "addr \<Rightarrow> management_config"
  ph_next :: addr

record plan_struct =
  ps_scalars :: plan
  ps_Components :: "addr option"
  ps_Tasks :: "addr option"
  ps_Readiness :: "addr option"
  ps_HTTP :: "addr option"
  ps_ManagementConfig :: "addr option"

definition slice_of :: "(addr \<Rightarrow> 'a list) \<Rightarrow> addr option \<Rightarrow> 'a list" where
  "slice_of arrays s = (case s of None \<Rightarrow> [] | Some p \<Rightarrow> arrays p)"

text \<open>The plan as a value, and the options of its HTTP server: what the struct means in a heap.\<close>

definition read_plan :: "'o plan_heap \<Rightarrow> plan_struct \<Rightarrow> plan" where
  "read_plan h p =
     (ps_scalars p)\<lparr>pl_Components := slice_of (ph_components h) (ps_Components p),
       pl_Tasks := slice_of (ph_callbacks h) (ps_Tasks p),
       pl_Readiness := slice_of (ph_callbacks h) (ps_Readiness p),
       pl_HTTP := map_option (\<lambda>q. hc_plan (ph_http h q)) (ps_HTTP p),
       pl_ManagementConfig := map_option (ph_management h) (ps_ManagementConfig p)\<rparr>"

definition read_options :: "'o plan_heap \<Rightarrow> plan_struct \<Rightarrow> 'o list" where
  "read_options h p = (case ps_HTTP p of None \<Rightarrow> [] | Some q \<Rightarrow> slice_of (ph_options h) (hc_Options (ph_http h q)))"

subsection \<open>snapshotPlan\<close>

text \<open>\<^verbatim>\<open>append([]T(nil), xs...)\<close>: nil for an empty slice, otherwise a new array.\<close>

definition copy_components :: "addr option \<Rightarrow> 'o plan_heap \<Rightarrow> addr option \<times> 'o plan_heap" where
  "copy_components s h =
     (let xs = slice_of (ph_components h) s in
      if xs = [] then (None, h)
      else (Some (ph_next h), h\<lparr>ph_components := (ph_components h)(ph_next h := xs), ph_next := ph_next h + 1\<rparr>))"

definition copy_callbacks :: "addr option \<Rightarrow> 'o plan_heap \<Rightarrow> addr option \<times> 'o plan_heap" where
  "copy_callbacks s h =
     (let xs = slice_of (ph_callbacks h) s in
      if xs = [] then (None, h)
      else (Some (ph_next h), h\<lparr>ph_callbacks := (ph_callbacks h)(ph_next h := xs), ph_next := ph_next h + 1\<rparr>))"

definition copy_options :: "addr option \<Rightarrow> 'o plan_heap \<Rightarrow> addr option \<times> 'o plan_heap" where
  "copy_options s h =
     (let xs = slice_of (ph_options h) s in
      if xs = [] then (None, h)
      else (Some (ph_next h), h\<lparr>ph_options := (ph_options h)(ph_next h := xs), ph_next := ph_next h + 1\<rparr>))"

definition copy_http :: "addr option \<Rightarrow> 'o plan_heap \<Rightarrow> addr option \<times> 'o plan_heap" where
  "copy_http p h =
     (case p of
        None \<Rightarrow> (None, h)
      | Some q \<Rightarrow>
          let (options, h) = copy_options (hc_Options (ph_http h q)) h
          in (Some (ph_next h), h\<lparr>ph_http := (ph_http h)(ph_next h := (ph_http h q)\<lparr>hc_Options := options\<rparr>), ph_next := ph_next h + 1\<rparr>))"

definition copy_management :: "addr option \<Rightarrow> 'o plan_heap \<Rightarrow> addr option \<times> 'o plan_heap" where
  "copy_management p h =
     (case p of
        None \<Rightarrow> (None, h)
      | Some q \<Rightarrow>
          (Some (ph_next h), h\<lparr>ph_management := (ph_management h)(ph_next h := ph_management h q), ph_next := ph_next h + 1\<rparr>))"

definition snapshotPlan :: "plan_struct \<Rightarrow> 'o plan_heap \<Rightarrow> plan_struct \<times> 'o plan_heap" where
  "snapshotPlan p h =
     (let (components, h) = copy_components (ps_Components p) h;
          (tasks, h) = copy_callbacks (ps_Tasks p) h;
          (readiness, h) = copy_callbacks (ps_Readiness p) h;
          (http, h) = copy_http (ps_HTTP p) h;
          (management, h) = copy_management (ps_ManagementConfig p) h
      in (p\<lparr>ps_Components := components, ps_Tasks := tasks, ps_Readiness := readiness, ps_HTTP := http,
            ps_ManagementConfig := management\<rparr>, h))"

subsection \<open>What the application may still do\<close>

text \<open>Writes through the pointers the application kept; an index out of range panics and writes nothing.\<close>

datatype 'o plan_write =
    WriteComponent addr nat component
  | WriteCallback addr nat named_callback
  | WriteOption addr nat 'o
  | WriteHTTP addr http_cell
  | WriteManagement addr management_config

fun write_target :: "'o plan_write \<Rightarrow> addr" where
  "write_target (WriteComponent p _ _) = p"
| "write_target (WriteCallback p _ _) = p"
| "write_target (WriteOption p _ _) = p"
| "write_target (WriteHTTP p _) = p"
| "write_target (WriteManagement p _) = p"

fun app_write :: "'o plan_write \<Rightarrow> 'o plan_heap \<Rightarrow> 'o plan_heap" where
  "app_write (WriteComponent p i c) h = h\<lparr>ph_components := (ph_components h)(p := (ph_components h p)[i := c])\<rparr>"
| "app_write (WriteCallback p i c) h = h\<lparr>ph_callbacks := (ph_callbacks h)(p := (ph_callbacks h p)[i := c])\<rparr>"
| "app_write (WriteOption p i c) h = h\<lparr>ph_options := (ph_options h)(p := (ph_options h p)[i := c])\<rparr>"
| "app_write (WriteHTTP p c) h = h\<lparr>ph_http := (ph_http h)(p := c)\<rparr>"
| "app_write (WriteManagement p c) h = h\<lparr>ph_management := (ph_management h)(p := c)\<rparr>"

subsection \<open>The snapshot is isolated\<close>

text \<open>
  A heap that agrees with another on every address from \<open>n\<close> on: what a write of the application keeps.
\<close>

definition same_from :: "addr \<Rightarrow> 'o plan_heap \<Rightarrow> 'o plan_heap \<Rightarrow> bool" where
  "same_from n h k \<longleftrightarrow>
     (\<forall>p \<ge> n. ph_components k p = ph_components h p \<and> ph_callbacks k p = ph_callbacks h p \<and>
        ph_options k p = ph_options h p \<and> ph_http k p = ph_http h p \<and> ph_management k p = ph_management h p)"

lemma app_write_same: "write_target w < n \<Longrightarrow> same_from n h k \<Longrightarrow> same_from n h (app_write w k)"
  by (cases w) (auto simp: same_from_def)

lemma app_writes_same: "\<forall>w \<in> set ws. write_target w < n \<Longrightarrow> same_from n h k \<Longrightarrow> same_from n h (fold app_write ws k)"
  by (induction ws arbitrary: k) (auto intro: app_write_same)

text \<open>A plan all of whose cells, options included, lie from \<open>n\<close> on.\<close>

definition owned_from :: "addr \<Rightarrow> 'o plan_heap \<Rightarrow> plan_struct \<Rightarrow> bool" where
  "owned_from n h p \<longleftrightarrow>
     (\<forall>q. ps_Components p = Some q \<or> ps_Tasks p = Some q \<or> ps_Readiness p = Some q \<or> ps_HTTP p = Some q \<or>
        ps_ManagementConfig p = Some q \<longrightarrow> n \<le> q) \<and>
     (\<forall>q r. ps_HTTP p = Some q \<longrightarrow> hc_Options (ph_http h q) = Some r \<longrightarrow> n \<le> r)"

lemma same_slices:
  assumes "same_from n h k" and "\<And>q. t = Some q \<Longrightarrow> n \<le> q"
  shows "slice_of (ph_components k) t = slice_of (ph_components h) t" "slice_of (ph_callbacks k) t = slice_of (ph_callbacks h) t"
    "slice_of (ph_options k) t = slice_of (ph_options h) t" "map_option (ph_http k) t = map_option (ph_http h) t"
    "map_option (ph_management k) t = map_option (ph_management h) t"
  using assms by (cases t; simp add: slice_of_def same_from_def)+

text \<open>Plans read alike when their parts do.\<close>

definition read_http :: "'o plan_heap \<Rightarrow> addr option \<Rightarrow> (http_plan \<times> 'o list) option" where
  "read_http h t = map_option (\<lambda>q. (hc_plan (ph_http h q), slice_of (ph_options h) (hc_Options (ph_http h q)))) t"

lemma reads_alike:
  assumes "ps_scalars p' = ps_scalars p" "slice_of (ph_components k) (ps_Components p') = slice_of (ph_components h) (ps_Components p)"
    and "slice_of (ph_callbacks k) (ps_Tasks p') = slice_of (ph_callbacks h) (ps_Tasks p)"
    and "slice_of (ph_callbacks k) (ps_Readiness p') = slice_of (ph_callbacks h) (ps_Readiness p)"
    and http: "read_http k (ps_HTTP p') = read_http h (ps_HTTP p)"
    and "map_option (ph_management k) (ps_ManagementConfig p') = map_option (ph_management h) (ps_ManagementConfig p)"
  shows "read_plan k p' = read_plan h p \<and> read_options k p' = read_options h p"
proof -
  have plan: "map_option (\<lambda>q. hc_plan (ph_http k q)) t = map_option fst (read_http k t)"
    and options: "(case t of None \<Rightarrow> [] | Some q \<Rightarrow> slice_of (ph_options k) (hc_Options (ph_http k q))) =
      (case read_http k t of None \<Rightarrow> [] | Some x \<Rightarrow> snd x)" for t and k :: "'a plan_heap"
    by (cases t; simp add: read_http_def)+
  show ?thesis using assms by (simp add: read_plan_def read_options_def plan options)
qed

lemma owned_reads:
  assumes "owned_from n h p" and "same_from n h k"
  shows "read_plan k p = read_plan h p \<and> read_options k p = read_options h p"
proof (rule reads_alike)
  note owned = assms(1)[unfolded owned_from_def]
  show "slice_of (ph_components k) (ps_Components p) = slice_of (ph_components h) (ps_Components p)"
    using owned by (intro same_slices[OF assms(2)]) auto
  show "slice_of (ph_callbacks k) (ps_Tasks p) = slice_of (ph_callbacks h) (ps_Tasks p)"
    using owned by (intro same_slices[OF assms(2)]) auto
  show "slice_of (ph_callbacks k) (ps_Readiness p) = slice_of (ph_callbacks h) (ps_Readiness p)"
    using owned by (intro same_slices[OF assms(2)]) auto
  show "map_option (ph_management k) (ps_ManagementConfig p) = map_option (ph_management h) (ps_ManagementConfig p)"
    using owned by (intro same_slices[OF assms(2)]) auto
  show "read_http k (ps_HTTP p) = read_http h (ps_HTTP p)"
  proof (cases "ps_HTTP p")
    case (Some q)
    then have "ph_http k q = ph_http h q" using owned assms(2) by (auto simp: same_from_def)
    moreover have "slice_of (ph_options k) (hc_Options (ph_http h q)) = slice_of (ph_options h) (hc_Options (ph_http h q))"
      using owned Some by (intro same_slices[OF assms(2)]) auto
    ultimately show ?thesis using Some by (simp add: read_http_def)
  qed (simp add: read_http_def)
qed simp

text \<open>Every cell the original plan points to was allocated before.\<close>

definition allocated :: "'o plan_heap \<Rightarrow> plan_struct \<Rightarrow> bool" where
  "allocated h p \<longleftrightarrow>
     (\<forall>q. ps_Components p = Some q \<or> ps_Tasks p = Some q \<or> ps_Readiness p = Some q \<or> ps_HTTP p = Some q \<or>
        ps_ManagementConfig p = Some q \<longrightarrow> q < ph_next h) \<and>
     (\<forall>q r. ps_HTTP p = Some q \<longrightarrow> hc_Options (ph_http h q) = Some r \<longrightarrow> r < ph_next h)"

text \<open>A heap that only allocated: everything allocated before is as it was.\<close>

definition extends :: "'o plan_heap \<Rightarrow> 'o plan_heap \<Rightarrow> bool" where
  "extends h k \<longleftrightarrow> ph_next h \<le> ph_next k \<and>
     (\<forall>p < ph_next h. ph_components k p = ph_components h p \<and> ph_callbacks k p = ph_callbacks h p \<and>
        ph_options k p = ph_options h p \<and> ph_http k p = ph_http h p \<and> ph_management k p = ph_management h p)"

lemma extends_refl [simp]: "extends h h"
  by (simp add: extends_def)

lemma extends_trans [trans]: "extends h k \<Longrightarrow> extends k l \<Longrightarrow> extends h l"
  by (auto simp: extends_def)

definition addr_known :: "'o plan_heap \<Rightarrow> addr option \<Rightarrow> bool" where
  "addr_known h t \<longleftrightarrow> (\<forall>q. t = Some q \<longrightarrow> q < ph_next h)"

lemma known_extends: "addr_known h t \<Longrightarrow> extends h k \<Longrightarrow> addr_known k t"
  by (auto simp: addr_known_def extends_def)

lemma extended_slices:
  assumes "extends h k" and "addr_known h t"
  shows "slice_of (ph_components k) t = slice_of (ph_components h) t" "slice_of (ph_callbacks k) t = slice_of (ph_callbacks h) t"
    "slice_of (ph_options k) t = slice_of (ph_options h) t" "map_option (ph_management k) t = map_option (ph_management h) t"
    "map_option (ph_http k) t = map_option (ph_http h) t"
  using assms by (cases t; simp add: slice_of_def extends_def addr_known_def)+

text \<open>Where a copy lives: in what was allocated between the two heaps.\<close>

definition between :: "'o plan_heap \<Rightarrow> 'o plan_heap \<Rightarrow> addr option \<Rightarrow> bool" where
  "between h k t \<longleftrightarrow> (\<forall>q. t = Some q \<longrightarrow> ph_next h \<le> q \<and> q < ph_next k)"

lemma between_known: "between h k t \<Longrightarrow> addr_known k t"
  by (simp add: between_def addr_known_def)

lemma copy_components_spec:
  "copy_components s h = (t, k) \<Longrightarrow> extends h k \<and> between h k t \<and> slice_of (ph_components k) t = slice_of (ph_components h) s"
  by (auto simp: copy_components_def Let_def extends_def between_def slice_of_def split: if_splits option.splits)

lemma copy_callbacks_spec:
  "copy_callbacks s h = (t, k) \<Longrightarrow> extends h k \<and> between h k t \<and> slice_of (ph_callbacks k) t = slice_of (ph_callbacks h) s"
  by (auto simp: copy_callbacks_def Let_def extends_def between_def slice_of_def split: if_splits option.splits)

lemma copy_options_spec:
  "copy_options s h = (t, k) \<Longrightarrow> extends h k \<and> between h k t \<and> slice_of (ph_options k) t = slice_of (ph_options h) s"
  by (auto simp: copy_options_def Let_def extends_def between_def slice_of_def split: if_splits option.splits)

lemma copy_management_spec:
  "copy_management s h = (t, k) \<Longrightarrow> extends h k \<and> between h k t \<and> map_option (ph_management k) t = map_option (ph_management h) s"
  by (auto simp: copy_management_def extends_def between_def split: option.splits)

lemma copy_http_spec:
  assumes "copy_http s h = (t, k)" and "addr_known h s"
  shows "extends h k \<and> between h k t \<and> (\<forall>q. t = Some q \<longrightarrow> between h k (hc_Options (ph_http k q))) \<and> read_http k t = read_http h s"
proof (cases s)
  case None
  then show ?thesis using assms by (simp add: copy_http_def between_def read_http_def)
next
  case (Some q)
  obtain options l where copied: "copy_options (hc_Options (ph_http h q)) h = (options, l)" by fastforce
  note spec = copy_options_spec[OF copied]
  have cell: "ph_http l q = ph_http h q" using spec assms(2) Some by (simp add: extends_def addr_known_def)
  have t: "t = Some (ph_next l)"
    "k = l\<lparr>ph_http := (ph_http l)(ph_next l := (ph_http h q)\<lparr>hc_Options := options\<rparr>), ph_next := ph_next l + 1\<rparr>"
    using assms(1) Some copied cell by (simp_all add: copy_http_def)
  then show ?thesis using spec Some by (auto simp: extends_def between_def read_http_def)
qed

lemma snapshot_owned:
  assumes "allocated h p" and "snapshotPlan p h = (snapshot, h')"
  shows "owned_from (ph_next h) h' snapshot" and "read_plan h' snapshot = read_plan h p \<and> read_options h' snapshot = read_options h p"
proof -
  have start: "addr_known h (ps_Components p)" "addr_known h (ps_Tasks p)" "addr_known h (ps_Readiness p)" "addr_known h (ps_HTTP p)"
    "addr_known h (ps_ManagementConfig p)" "\<And>q. ps_HTTP p = Some q \<Longrightarrow> addr_known h (hc_Options (ph_http h q))"
    using assms(1) by (auto simp: allocated_def addr_known_def)
  obtain c h1 where 1: "copy_components (ps_Components p) h = (c, h1)" by fastforce
  obtain t h2 where 2: "copy_callbacks (ps_Tasks p) h1 = (t, h2)" by fastforce
  obtain r h3 where 3: "copy_callbacks (ps_Readiness p) h2 = (r, h3)" by fastforce
  obtain w h4 where 4: "copy_http (ps_HTTP p) h3 = (w, h4)" by fastforce
  obtain m h5 where 5: "copy_management (ps_ManagementConfig p) h4 = (m, h5)" by fastforce
  have result: "snapshot = p\<lparr>ps_Components := c, ps_Tasks := t, ps_Readiness := r, ps_HTTP := w, ps_ManagementConfig := m\<rparr>" "h' = h5"
    using assms(2) 1 2 3 4 5 by (simp_all add: snapshotPlan_def)
  note e1 = copy_components_spec[OF 1] and e2 = copy_callbacks_spec[OF 2] and e3 = copy_callbacks_spec[OF 3]
  have h2: "extends h h2" using e1 e2 extends_trans by blast
  have h3: "extends h h3" using h2 e3 extends_trans by blast
  note e4 = copy_http_spec[OF 4 known_extends[OF start(4) h3]] and e5 = copy_management_spec[OF 5]
  have h4: "extends h h4" using h3 e4 extends_trans by blast
  have up: "extends h1 h5" "extends h2 h5" "extends h3 h5" "extends h4 h5" using e2 e3 e4 e5 extends_trans by blast+
  have grow: "ph_next h \<le> ph_next h1" "ph_next h \<le> ph_next h2" "ph_next h \<le> ph_next h3" "ph_next h \<le> ph_next h4"
    using e1 e2 e3 e4 by (auto simp: extends_def)
  have http: "ph_http h5 q = ph_http h4 q" if "w = Some q" for q
    using e4 up(4) that by (auto simp: between_def extends_def)
  show "owned_from (ph_next h) h' snapshot"
    using e1 e2 e3 e4 e5 grow http unfolding owned_from_def result by (fastforce simp: between_def)
  show "read_plan h' snapshot = read_plan h p \<and> read_options h' snapshot = read_options h p"
  proof (rule reads_alike)
    show "slice_of (ph_components h') (ps_Components snapshot) = slice_of (ph_components h) (ps_Components p)"
      using e1 extended_slices(1)[OF up(1) between_known, of h c] by (simp add: result)
    show "slice_of (ph_callbacks h') (ps_Tasks snapshot) = slice_of (ph_callbacks h) (ps_Tasks p)"
      using e1 e2 extended_slices(2)[OF up(2) between_known, of h1 t] extended_slices(2)[OF _ start(2), of h1] by (simp add: result)
    show "slice_of (ph_callbacks h') (ps_Readiness snapshot) = slice_of (ph_callbacks h) (ps_Readiness p)"
      using e3 extended_slices(2)[OF up(3) between_known, of h2 r] extended_slices(2)[OF h2 start(3)] by (simp add: result)
    show "map_option (ph_management h') (ps_ManagementConfig snapshot) = map_option (ph_management h) (ps_ManagementConfig p)"
      using e5 extended_slices(4)[OF h4 start(5)] by (simp add: result)
    show "read_http h' (ps_HTTP snapshot) = read_http h (ps_HTTP p)"
    proof -
      have "read_http h5 w = read_http h4 w"
        using http e4 extended_slices(3)[OF up(4) between_known] by (cases w) (auto simp: read_http_def)
      moreover have "read_http h3 (ps_HTTP p) = read_http h (ps_HTTP p)"
        using h3 start(4,6) extended_slices(3)[OF h3] by (cases "ps_HTTP p") (auto simp: read_http_def addr_known_def extends_def)
      ultimately show ?thesis using e4 by (simp add: result)
    qed
  qed (simp add: result)
qed

text \<open>C20. \<^bold>\<open>The platform runs the plan that was built.\<close> The snapshot reads as the plan the build callback
  returned, components, tasks, readiness checks, HTTP server with its options and management alike;
  and no later write of the application through the slices and pointers it kept, in whatever number
  and order, changes what the snapshot reads as.\<close>

theorem plan_snapshot_isolated:
  assumes "allocated h p" and "snapshotPlan p h = (snapshot, h')"
    and "list_all (\<lambda>w. write_target w < ph_next h) writes"
  shows "read_plan (fold app_write writes h') snapshot = read_plan h p \<and>
    read_options (fold app_write writes h') snapshot = read_options h p"
proof -
  have "same_from (ph_next h) h' (fold app_write writes h')"
    using assms(3) by (intro app_writes_same) (auto simp: list_all_iff same_from_def)
  from owned_reads[OF snapshot_owned(1)[OF assms(1,2)] this] snapshot_owned(2)[OF assms(1,2)] show ?thesis by simp
qed

text \<open>A plan with a component, a task and a server with an option; the application overwrites all three
  and the server's address afterwards.\<close>

definition sample_heap :: "nat plan_heap" where
  "sample_heap =
     \<lparr>ph_components = (\<lambda>_. [])(1 := [maintenance_component]),
      ph_callbacks = (\<lambda>_. [])(2 := [maintenance_task]),
      ph_options = (\<lambda>_. [])(3 := [20]),
      ph_http = (\<lambda>_. \<lparr>hc_plan = \<lparr>ht_Address = ''127.0.0.1:8080'', ht_Listener = None, ht_Handler = True, ht_JoinHandlers = False\<rparr>,
        hc_Options = Some 3\<rparr>),
      ph_management = (\<lambda>_. \<lparr>mg_Address = [], mg_Listener = None\<rparr>), ph_next = 6\<rparr>"

definition sample_struct :: plan_struct where
  "sample_struct =
     \<lparr>ps_scalars = \<lparr>pl_ShutdownTimeout = 0, pl_ComponentStopTimeout = 0, pl_StartupTimeout = 0, pl_RollbackTimeout = 0,
        pl_Components = [], pl_Tasks = [], pl_HTTP = None, pl_Readiness = [], pl_Management = False, pl_ManagementConfig = None\<rparr>,
      ps_Components = Some 1, ps_Tasks = Some 2, ps_Readiness = None, ps_HTTP = Some 4, ps_ManagementConfig = Some 5\<rparr>"

definition sample_writes :: "nat plan_write list" where
  "sample_writes =
     [WriteComponent 1 0 management_component, WriteCallback 2 0 business_task, WriteOption 3 0 7,
      WriteManagement 5 \<lparr>mg_Address = ''0.0.0.0:9'', mg_Listener = None\<rparr>]"

theorem plan_snapshot_isolated_witness:
  "pl_Components (read_plan (fold app_write sample_writes (snd (snapshotPlan sample_struct sample_heap)))
     (fst (snapshotPlan sample_struct sample_heap))) = [maintenance_component] \<and>
   pl_Components (read_plan (fold app_write sample_writes sample_heap) sample_struct) = [management_component]"
proof -
  have "read_plan (fold app_write sample_writes (snd (snapshotPlan sample_struct sample_heap)))
      (fst (snapshotPlan sample_struct sample_heap)) = read_plan sample_heap sample_struct"
    using plan_snapshot_isolated[of sample_heap sample_struct "fst (snapshotPlan sample_struct sample_heap)"
        "snd (snapshotPlan sample_struct sample_heap)" sample_writes]
    by (simp add: allocated_def sample_heap_def sample_struct_def sample_writes_def)
  then show ?thesis
    by (simp add: read_plan_def slice_of_def sample_heap_def sample_struct_def sample_writes_def)
qed

end
