(* ===== verification/Examples.thy ===== *)
theory Examples
  imports Adoption Http_Owners
begin

section \<open>The example commands\<close>

text \<open>
  Models the seven programs of \<^verbatim>\<open>examples/\<close>: the environment they read, the configuration their load callbacks
  make of it, the plans their build callbacks return and the definitions they hand to \<^verbatim>\<open>service.Main\<close>.
  A command is its registration with its build, from the environment of the process to the plan and
  the options of its business server.
\<close>

subsection \<open>The environment\<close>

text \<open>\<^verbatim>\<open>environment\<close>, the same function in six of the programs: \<^verbatim>\<open>strings.HasPrefix\<close> with \<^verbatim>\<open>strings.TrimPrefix\<close> on each entry in order.\<close>

fun example_environment :: "string list \<Rightarrow> string \<Rightarrow> string \<Rightarrow> string" where
  "example_environment [] name fallback = fallback"
| "example_environment (binding # bindings) name fallback =
     (if prefix (name @ ''='') binding then drop (length (name @ ''='')) binding
      else example_environment bindings name fallback)"

record configuration =
  businessAddress :: string
  managementAddress :: string

definition example_load :: "string list \<Rightarrow> configuration Commands.call" where
  "example_load env =
     CallReturned (Inr
       \<lparr>businessAddress = example_environment env ''LISTEN_ADDRESS'' ''127.0.0.1:8080'',
        managementAddress = example_environment env ''MANAGEMENT_ADDRESS'' ''''\<rparr>)"

text \<open>The other serving programs have their own copies.\<close>

definition http_api_load :: "string list \<Rightarrow> configuration Commands.call" where "http_api_load = example_load"

definition ingester_load :: "string list \<Rightarrow> configuration Commands.call" where "ingester_load = example_load"

definition rpc_load :: "string list \<Rightarrow> configuration Commands.call" where "rpc_load = example_load"

text \<open>The scheduler and the worker read only the management address.\<close>

definition management_load :: "string list \<Rightarrow> string Commands.call" where
  "management_load env = CallReturned (Inr (example_environment env ''MANAGEMENT_ADDRESS'' ''''))"

definition unit_load :: "string list \<Rightarrow> unit Commands.call" where
  "unit_load env = CallReturned (Inr ())"

subsection \<open>Commands and definitions\<close>

type_synonym example_plan = "plan \<times> server_option option list"

record example_command =
  ex_registration :: registration
  ex_build :: "addr \<Rightarrow> string list \<Rightarrow> go_error + example_plan"

definition example_CommandFor ::
    "string \<Rightarrow> string \<Rightarrow> command_kind \<Rightarrow> (string list \<Rightarrow> 'c Commands.call) \<Rightarrow> ('c \<Rightarrow> example_plan Commands.call) \<Rightarrow> example_command" where
  "example_CommandFor name summary kind load build =
     \<lparr>ex_registration = CommandFor name summary kind [] True True,
      ex_build = (\<lambda>a env. command_build a name (load env) build)\<rparr>"

record example =
  ex_Name :: string
  ex_Serve :: "example_command option"
  ex_Worker :: "example_command option"
  ex_Schedule :: "example_command option"
  ex_Migrate :: "example_command option"
  ex_Custom :: "example_command option list"

text \<open>The definition as \<^verbatim>\<open>compileDefinition\<close> sees it; every field the program leaves out is its zero value.\<close>

definition example_definition :: "example \<Rightarrow> definition_data" where
  "example_definition e =
     \<lparr>def_Identity = \<lparr>id_Name = ex_Name e, id_Version = [], id_Commit = [], id_BuildTime = [], id_GoVersion = [],
        id_Environment = [], id_Instance = []\<rparr>,
      def_Commands =
        \<lparr>cmd_Serve = map_option ex_registration (ex_Serve e), cmd_Worker = map_option ex_registration (ex_Worker e),
         cmd_Schedule = map_option ex_registration (ex_Schedule e), cmd_Migrate = map_option ex_registration (ex_Migrate e),
         cmd_Custom = map (map_option ex_registration) (ex_Custom e)\<rparr>,
      def_Maintenance = \<lparr>mt_Store = False, mt_RefreshInterval = 0, mt_OperationTimeout = 0, mt_Response = False\<rparr>\<rparr>"

definition no_commands :: "string \<Rightarrow> example" where
  "no_commands name = \<lparr>ex_Name = name, ex_Serve = None, ex_Worker = None, ex_Schedule = None, ex_Migrate = None, ex_Custom = []\<rparr>"

subsection \<open>Plans\<close>

definition example_http :: "string \<Rightarrow> http_plan" where
  "example_http address = \<lparr>ht_Address = address, ht_Listener = None, ht_Handler = True, ht_JoinHandlers = False\<rparr>"

definition example_management :: "string \<Rightarrow> management_config" where
  "example_management address = \<lparr>mg_Address = address, mg_Listener = None\<rparr>"

definition serve_plan :: "configuration \<Rightarrow> plan" where
  "serve_plan c =
     empty_plan\<lparr>pl_HTTP := Some (example_http (businessAddress c)),
       pl_ManagementConfig := Some (example_management (managementAddress c))\<rparr>"

definition task_plan :: "string \<Rightarrow> string \<Rightarrow> plan" where
  "task_plan name address =
     empty_plan\<lparr>pl_Tasks := [\<lparr>nc_Name = name, nc_Run = True\<rparr>], pl_ManagementConfig := Some (example_management address)\<rparr>"

definition migrations_plan :: plan where
  "migrations_plan = empty_plan\<lparr>pl_Tasks := [\<lparr>nc_Name = ''migrations'', nc_Run = True\<rparr>]\<rparr>"

text \<open>\<^verbatim>\<open>waitForCancellation\<close> returns nil once its context is done; before, it has no result.\<close>

definition waitForCancellation :: "ctx_state \<Rightarrow> outcome option" where
  "waitForCancellation ctx = (if ctx_err ctx = NilErr then None else Some (Returned NilErr))"

definition runMigrations :: outcome where
  "runMigrations = Returned NilErr"

subsection \<open>Handlers\<close>

text \<open>
  Status and body. The pattern \<^verbatim>\<open>GET /\<close> of \<^verbatim>\<open>http.ServeMux\<close> takes GET and HEAD on every path; any other method
  is answered 405 by the multiplexer itself.
\<close>

definition get_root :: "string \<Rightarrow> string \<Rightarrow> nat \<times> string" where
  "get_root body verb =
     (if verb = ''GET'' \<or> verb = ''HEAD'' then (200, body) else (405, ''Method Not Allowed'' @ [CHR 0x0A]))"

definition mixed_handler :: "string \<Rightarrow> nat \<times> string" where
  "mixed_handler = get_root (''mixed-command-service'' @ [CHR 0x0A])"

definition http_api_handler :: "string \<Rightarrow> nat \<times> string" where
  "http_api_handler = get_root (''go-service'' @ [CHR 0x0A])"

definition ingest_handler :: "string \<Rightarrow> nat \<times> string" where
  "ingest_handler verb = (202, [])"

text \<open>
  \<^verbatim>\<open>net/rpc\<close>'s \<^verbatim>\<open>RegisterName\<close> by what it checks: a name, at least one suitable method, and a name that is free.
  \<^verbatim>\<open>Ping\<close> stores its reply and returns nil.
\<close>

definition RegisterName :: "string set \<Rightarrow> string \<Rightarrow> string list \<Rightarrow> go_error" where
  "RegisterName services name methods =
     (if name = [] then ErrorString 951 ''rpc.Register: no service name for type main.statusService''
      else if methods = [] then ErrorString 952 ''rpc.Register: type has no exported methods of suitable type''
      else if name \<in> services then ErrorString 953 (''rpc: service already defined: '' @ name)
      else NilErr)"

definition Ping :: "string \<Rightarrow> string \<Rightarrow> string \<times> go_error" where
  "Ping argument reply = (''pong'', NilErr)"

definition rpc_build :: "configuration \<Rightarrow> example_plan Commands.call" where
  "rpc_build c =
     (let err = RegisterName {} ''Status'' [''Ping''] in
      if err \<noteq> NilErr then CallReturned (Inl err) else CallReturned (Inr (serve_plan c, [])))"

subsection \<open>The programs\<close>

definition mixed_serve_build :: "configuration \<Rightarrow> example_plan Commands.call" where
  "mixed_serve_build c = CallReturned (Inr (serve_plan c, []))"

definition serveCommand :: example_command where
  "serveCommand = example_CommandFor ''serve'' ''serve application requests'' CommandKindLongRunning example_load mixed_serve_build"

definition longRunningCommand :: "string \<Rightarrow> string \<Rightarrow> example_command" where
  "longRunningCommand name summary =
     example_CommandFor name summary CommandKindLongRunning example_load
       (\<lambda>c. CallReturned (Inr (task_plan name (managementAddress c), [])))"

definition migrateCommand :: example_command where
  "migrateCommand =
     example_CommandFor ''migrate'' ''run application migrations'' CommandKindOneShot unit_load
       (\<lambda>_. CallReturned (Inr (migrations_plan, [])))"

definition mixed_role :: example where
  "mixed_role =
     (no_commands ''mixed-command-service'')
       \<lparr>ex_Serve := Some serveCommand, ex_Worker := Some (longRunningCommand ''worker'' ''consume application work''),
        ex_Schedule := Some (longRunningCommand ''schedule'' ''run application schedules''), ex_Migrate := Some migrateCommand\<rparr>"

definition http_api_build :: "configuration \<Rightarrow> example_plan Commands.call" where
  "http_api_build c = CallReturned (Inr (serve_plan c, [Some (WithShutdownTimeout (20 * second))]))"

definition http_api :: example where
  "http_api =
     (no_commands ''http-api'')
       \<lparr>ex_Serve := Some (example_CommandFor ''serve'' ''serve the HTTP API'' CommandKindLongRunning http_api_load http_api_build)\<rparr>"

definition ingester_build :: "configuration \<Rightarrow> example_plan Commands.call" where
  "ingester_build c = CallReturned (Inr (serve_plan c, []))"

definition ingester :: example where
  "ingester =
     (no_commands ''ingester'')
       \<lparr>ex_Custom := [Some (example_CommandFor ''ingest'' ''accept ingestion requests'' CommandKindLongRunning ingester_load ingester_build)]\<rparr>"

definition rpc_service :: example where
  "rpc_service =
     (no_commands ''rpc-service'')
       \<lparr>ex_Serve := Some (example_CommandFor ''serve'' ''serve RPC requests'' CommandKindLongRunning rpc_load rpc_build)\<rparr>"

definition migration_example :: example where
  "migration_example = (no_commands ''migration'')\<lparr>ex_Migrate := Some migrateCommand\<rparr>"

definition scheduler :: example where
  "scheduler =
     (no_commands ''scheduler'')
       \<lparr>ex_Schedule := Some (example_CommandFor ''schedule'' ''run application schedules'' CommandKindLongRunning management_load
          (\<lambda>address. CallReturned (Inr (task_plan ''scheduler'' address, []))))\<rparr>"

definition worker_example :: example where
  "worker_example =
     (no_commands ''worker'')
       \<lparr>ex_Worker := Some (example_CommandFor ''worker'' ''consume application work'' CommandKindLongRunning management_load
          (\<lambda>address. CallReturned (Inr (task_plan ''consumer'' address, []))))\<rparr>"

subsection \<open>The environment is read as documented\<close>

text \<open>Entries are \<open>name=value\<close>; the first of a name wins, other names do not matter.\<close>

definition env_entry :: "string \<times> string \<Rightarrow> string" where
  "env_entry nv = fst nv @ ''='' @ snd nv"

lemma env_entry_prefix:
  assumes "CHR ''='' \<notin> set name" and "CHR ''='' \<notin> set n"
  shows "prefix (name @ ''='') (env_entry (n, v)) \<longleftrightarrow> n = name"
proof
  assume "prefix (name @ ''='') (env_entry (n, v))"
  then obtain zs where "n @ ''='' @ v = name @ ''='' @ zs" by (auto simp: env_entry_def prefix_def)
  then have "takeWhile (\<lambda>c. c \<noteq> CHR ''='') (n @ ''='' @ v) = takeWhile (\<lambda>c. c \<noteq> CHR ''='') (name @ ''='' @ zs)" by simp
  moreover have "takeWhile (\<lambda>c. c \<noteq> CHR ''='') (u @ ''='' @ w) = u" if "CHR ''='' \<notin> set u" for u w
    using that by (subst takeWhile_append2) auto
  ultimately show "n = name" using assms by metis
qed (simp add: env_entry_def)

lemma environment_lookup:
  assumes "CHR ''='' \<notin> set name" and "\<forall>nv\<in>set env. CHR ''='' \<notin> set (fst nv)"
  shows "example_environment (map env_entry env) name fallback = (case map_of env name of None \<Rightarrow> fallback | Some v \<Rightarrow> v)"
  using assms(2)
proof (induction env)
  case (Cons nv env)
  obtain n v where "nv = (n, v)" by (cases nv)
  with Cons env_entry_prefix[OF assms(1), of n v] show ?case by (auto simp: env_entry_def)
qed simp

subsection \<open>Every program compiles and runs\<close>

definition example_programs :: "example list" where
  "example_programs = [mixed_role, http_api, ingester, rpc_service, migration_example, scheduler, worker_example]"

lemmas example_defs =
  mixed_role_def http_api_def ingester_def rpc_service_def migration_example_def scheduler_def worker_example_def no_commands_def
  serveCommand_def longRunningCommand_def migrateCommand_def example_CommandFor_def

lemmas load_defs = example_load_def http_api_load_def ingester_load_def rpc_load_def management_load_def unit_load_def

lemma example_names:
  "validCommandName ''mixed-command-service'' \<and> validCommandName ''http-api'' \<and> validCommandName ''ingester'' \<and>
   validCommandName ''rpc-service'' \<and> validCommandName ''migration'' \<and> validCommandName ''scheduler'' \<and> validCommandName ''ingest''"
  by (simp add: validCommandName_iff kebab_case_iff lower_def digit_def)

lemma example_identities:
  "trim_space ''mixed-command-service'' \<noteq> [] \<and> trim_space ''http-api'' \<noteq> [] \<and> trim_space ''ingester'' \<noteq> [] \<and>
   trim_space ''rpc-service'' \<noteq> [] \<and> trim_space ''migration'' \<noteq> [] \<and> trim_space ''scheduler'' \<noteq> [] \<and> trim_space ''worker'' \<noteq> []"
  by (simp add: trim_space_plain printable_def)

text \<open>\<^bold>\<open>Every example offers its roles.\<close> Each of the seven definitions passes all checks of the platform and
  registers exactly the commands its documentation names, in the standard order.\<close>

theorem examples_compile:
  "map (\<lambda>e. map_sum (\<lambda>_. ()) (map reg_name) (compileDefinition_checks a True (example_definition e))) example_programs =
   map Inr [[''serve'', ''worker'', ''schedule'', ''migrate''], [''serve''], [''ingest''], [''serve''], [''migrate''], [''schedule''], [''worker'']]"
  using role_names example_names example_identities
  by (simp add: example_programs_def compileDefinition_checks_def definitionCommands_def standard_commands_def example_definition_def
      example_defs CommandFor_def isStandardCommand_def validateIdentity_def validateMaintenance_def Let_def)

text \<open>The commands that serve HTTP, and the ones that only run a task.\<close>

definition serving_commands :: "example_command list" where
  "serving_commands = map the [ex_Serve mixed_role, ex_Serve http_api, hd (ex_Custom ingester), ex_Serve rpc_service]"

definition task_commands :: "example_command list" where
  "task_commands = map the [ex_Worker mixed_role, ex_Schedule mixed_role, ex_Schedule scheduler, ex_Worker worker_example]"

definition example_configuration :: "string list \<Rightarrow> configuration" where
  "example_configuration env =
     \<lparr>businessAddress = example_environment env ''LISTEN_ADDRESS'' ''127.0.0.1:8080'',
      managementAddress = example_environment env ''MANAGEMENT_ADDRESS'' ''''\<rparr>"

lemma serving_builds:
  assumes "c \<in> set serving_commands"
  shows "reg_kind (ex_registration c) = CommandKindLongRunning"
    and "\<exists>options. ex_build c a env = Inr (serve_plan (example_configuration env), options)"
  using assms
  by (auto simp: serving_commands_def example_defs CommandFor_def command_build_def loadCommandConfiguration_def buildCommandPlan_def
      load_defs mixed_serve_build_def ingester_build_def http_api_build_def rpc_build_def RegisterName_def example_configuration_def)

lemma task_builds:
  assumes "c \<in> set task_commands"
  shows "reg_kind (ex_registration c) = CommandKindLongRunning"
    and "\<exists>name. ex_build c a env = Inr (task_plan name (managementAddress (example_configuration env)), []) \<and>
      name \<in> {''worker'', ''schedule'', ''scheduler'', ''consumer''}"
  using assms
  by (auto simp: task_commands_def example_defs CommandFor_def command_build_def loadCommandConfiguration_def buildCommandPlan_def
      example_load_def management_load_def example_configuration_def)

lemma example_identities_valid:
  "validRuntimeIdentity ''service-business-http-owner'' \<and> validRuntimeIdentity ''worker'' \<and> validRuntimeIdentity ''schedule'' \<and>
   validRuntimeIdentity ''scheduler'' \<and> validRuntimeIdentity ''consumer'' \<and> validRuntimeIdentity ''migrations''"
  by (simp add: validRuntimeIdentity_def MaxRuntimeIdentityBytes_def trim_space_plain printable_def)

lemmas plan_defs =
  plan_service_def plan_guards_def serve_plan_def task_plan_def migrations_plan_def empty_plan_def example_http_def example_management_def
  validateTasks_def validateReadiness_def validateManagement_def validateBusinessHTTP_def listeners_collide_def
  resolvedManagementAddress_def plan_config_def plan_components_def plan_tasks_def New_def maximumTasks_def defaultMaxTasks_def
  management_component_def business_component_def zero_service_def no_management_def

lemma serve_plan_service:
  assumes "reg_kind command = CommandKindLongRunning"
  shows "plan_service a no_management False command (serve_plan c) =
    (if businessAddress c = [] then Inl (DefinitionError a ''HTTP'' ''requires exactly one address or listener'')
     else if businessAddress c = resolvedManagementAddress (managementAddress c)
     then Inl (DefinitionError a ''HTTP.Address'' ''collides with management address'')
     else Inr (zero_service\<lparr>components := [management_component, business_component (example_http (businessAddress c))],
       startup := defaultStartupTimeout, rollback := defaultRollbackTimeout, maxTasks := 1\<rparr>))"
  using assms platform_identities example_identities_valid by (simp add: plan_defs Let_def)

lemma task_plan_service:
  assumes "reg_kind command = CommandKindLongRunning" and "validRuntimeIdentity name"
  shows "plan_service a no_management False command (task_plan name address) =
    Inr (zero_service\<lparr>components := [management_component], startup := defaultStartupTimeout,
      rollback := defaultRollbackTimeout, maxTasks := 64\<rparr>)"
  using assms platform_identities by (simp add: plan_defs Let_def)

text \<open>\<^bold>\<open>The serving examples run exactly on distinct addresses.\<close> Whatever the environment, building a serving
  command succeeds; the platform accepts its plan exactly when the business address is not empty and
  is not the address the management listener resolves to, and then the service is the management
  listener with the business server behind it and one task; any other environment ends the command
  with exit code 70 before anything is started. An empty variable counts as set, so it does not
  select the default.\<close>

theorem serving_examples_run:
  assumes "c \<in> set serving_commands"
    and "business = example_environment env ''LISTEN_ADDRESS'' ''127.0.0.1:8080''"
    and "management = example_environment env ''MANAGEMENT_ADDRESS'' ''''"
  shows "\<exists>p options. ex_build c a env = Inr (p, options) \<and>
    (case plan_service a no_management False (ex_registration c) p of
       Inr s \<Rightarrow> business \<noteq> [] \<and> business \<noteq> resolvedManagementAddress management \<and>
         components s = [management_component, business_component (example_http business)] \<and> maxTasks s = 1
     | Inl err \<Rightarrow> (business = [] \<or> business = resolvedManagementAddress management) \<and> exitCode err = 70)"
proof -
  have "exitCode (DefinitionError a f r) = 70" for f r
    by (simp add: rejection_exit rejection_def)
  moreover obtain options where "ex_build c a env = Inr (serve_plan (example_configuration env), options)"
    using serving_builds(2)[OF assms(1)] by blast
  ultimately show ?thesis
    using assms(2,3) by (simp add: serve_plan_service[OF serving_builds(1)[OF assms(1)]] example_configuration_def)
qed

theorem serving_examples_run_witness:
  "\<exists>p options. ex_build (the (ex_Serve http_api)) 1 [''LISTEN_ADDRESS=127.0.0.1:8081''] = Inr (p, options) \<and>
    (case plan_service 1 no_management False (ex_registration (the (ex_Serve http_api))) p of
       Inr s \<Rightarrow> False | Inl err \<Rightarrow> exitCode err = 70)"
proof -
  have "the (ex_Serve http_api) \<in> set serving_commands" by (simp add: serving_commands_def)
  moreover have "''127.0.0.1:8081'' = example_environment [''LISTEN_ADDRESS=127.0.0.1:8081''] ''LISTEN_ADDRESS'' ''127.0.0.1:8080''"
    "'''' = example_environment [''LISTEN_ADDRESS=127.0.0.1:8081''] ''MANAGEMENT_ADDRESS'' ''''"
    by simp_all
  moreover have "resolvedManagementAddress '''' = ''127.0.0.1:8081''"
    by (simp add: resolvedManagementAddress_def defaultManagementAddress_def)
  ultimately show ?thesis
    using serving_examples_run[of "the (ex_Serve http_api)" "''127.0.0.1:8081''" "[''LISTEN_ADDRESS=127.0.0.1:8081'']" "''''" 1]
    by (elim exE conjE disjE meta_impE; simp split: sum.splits; metis)
qed

text \<open>\<^bold>\<open>The task examples run in every environment and end only by cancellation.\<close> The platform accepts the plan
  of each of them with the management listener as its only component; the one task is admitted, and
  since it returns only after its context is done, it is never the task that exited early. The
  one-shot migration opens no listener and its task succeeds.\<close>

theorem task_examples_run:
  assumes "c \<in> set task_commands"
  shows "(\<exists>p s. ex_build c a env = Inr (p, []) \<and> plan_service a no_management False (ex_registration c) p = Inr s \<and>
      components s = [management_component] \<and>
      snd (admit_tasks a (\<lambda>_ t. t) 0 (plan_tasks CommandKindLongRunning False p) (started_service s)) = NilErr) \<and>
    (waitForCancellation ctx = Some result \<longrightarrow> long_running_task a name result ctx = NilErr) \<and>
    (ctx_err ctx \<noteq> NilErr \<longrightarrow> waitForCancellation ctx \<noteq> None) \<and>
    (ex_build migrateCommand a env = Inr (migrations_plan, []) \<and>
      (\<exists>s. plan_service a no_management False (ex_registration migrateCommand) migrations_plan = Inr s \<and> components s = []) \<and>
      one_shot_tasks a [(''migrations'', runMigrations)] = ([''migrations''], NilErr))"
proof -
  obtain name where built: "ex_build c a env = Inr (task_plan name (managementAddress (example_configuration env)), [])"
    and "name \<in> {''worker'', ''schedule'', ''scheduler'', ''consumer''}"
    using task_builds(2)[OF assms] by blast
  then have name: "validRuntimeIdentity name" using example_identities_valid by auto
  let ?p = "task_plan name (managementAddress (example_configuration env))"
  let ?s = "zero_service\<lparr>components := [management_component], startup := defaultStartupTimeout,
    rollback := defaultRollbackTimeout, maxTasks := 64\<rparr>"
  have tasks: "plan_tasks CommandKindLongRunning False ?p = [\<lparr>nc_Name = name, nc_Run = True\<rparr>]"
    by (simp add: plan_tasks_def task_plan_def empty_plan_def)
  have "snd (admit_tasks a (\<lambda>_ t. t) 0 [\<lparr>nc_Name = name, nc_Run = True\<rparr>] (started_service ?s)) = NilErr"
    using admit_tasks_count[OF started_ready, of ?s "[\<lparr>nc_Name = name, nc_Run = True\<rparr>]" a 0] name
    by (simp add: started_service_def zero_service_def)
  moreover have "plan_service a no_management False (ex_registration c) ?p = Inr ?s"
    by (rule task_plan_service[OF task_builds(1)[OF assms] name])
  ultimately have run: "\<exists>p s. ex_build c a env = Inr (p, []) \<and> plan_service a no_management False (ex_registration c) p = Inr s \<and>
      components s = [management_component] \<and>
      snd (admit_tasks a (\<lambda>_ t. t) 0 (plan_tasks CommandKindLongRunning False p) (started_service s)) = NilErr"
    using built tasks by fastforce
  have migrate: "ex_build migrateCommand a env = Inr (migrations_plan, []) \<and>
      (\<exists>s. plan_service a no_management False (ex_registration migrateCommand) migrations_plan = Inr s \<and> components s = []) \<and>
      one_shot_tasks a [(''migrations'', runMigrations)] = ([''migrations''], NilErr)"
    using example_identities_valid
    by (simp add: migrateCommand_def example_CommandFor_def CommandFor_def command_build_def loadCommandConfiguration_def
        buildCommandPlan_def unit_load_def runMigrations_def plan_defs Let_def)
  show ?thesis
    using run migrate by (auto simp: waitForCancellation_def long_running_task_def Let_def)
qed

theorem task_examples_run_witness:
  "\<exists>p s. ex_build (the (ex_Worker worker_example)) 1 [] = Inr (p, []) \<and>
    plan_service 1 no_management False (ex_registration (the (ex_Worker worker_example))) p = Inr s \<and>
    components s = [management_component]"
proof -
  have "the (ex_Worker worker_example) \<in> set task_commands" by (simp add: task_commands_def)
  from task_examples_run[OF this, of 1 "[]"] show ?thesis by blast
qed

subsection \<open>The option of the HTTP API\<close>

text \<open>The HTTP API shortens the shutdown of its server to twenty seconds and keeps every other default.\<close>

lemma http_api_shutdown:
  "ex_build (the (ex_Serve http_api)) a env = Inr (p, options) \<Longrightarrow>
     apply_options a 0 options defaultConfig = Inr (defaultConfig\<lparr>shutdownTimeout := 20 * second\<rparr>)"
  by (auto simp: example_defs command_build_def loadCommandConfiguration_def buildCommandPlan_def load_defs http_api_build_def)

end
