(* ===== verification/Command_Application.thy ===== *)
theory Command_Application
  imports Diagnostics Examples
begin

section \<open>From the process to the exit code\<close>

text \<open>
  Models the rest of \<^verbatim>\<open>compileDefinition\<close> and \<^verbatim>\<open>Main\<close> of \<^verbatim>\<open>platform.go\<close>: the command set the definition becomes, its
  handlers wrapped for the command-line library, and the process that runs one of them. The library
  is a parameter: which command sets it accepts, and which handler it runs for which arguments. A
  handler enters by the error it returns.
\<close>

subsection \<open>The command set\<close>

record command_spec =
  sp_Name :: string
  sp_Summary :: string
  sp_Options :: "option_definition list"
  sp_selects :: command_kind
  sp_Handler :: go_error

definition command_children :: "(registration \<Rightarrow> go_error) \<Rightarrow> registration list \<Rightarrow> command_spec list" where
  "command_children handled commands =
     map (\<lambda>c. \<lparr>sp_Name = reg_name c, sp_Summary = reg_summary c, sp_Options = reg_options c, sp_selects = reg_kind c,
        sp_Handler = handled c\<rparr>) commands"

text \<open>
  The options of the maintenance command \<^verbatim>\<open>down\<close>: the constructor, the name, whether the value is a
  secret, and the description. The library makes a value of each.
\<close>

datatype option_constructor = DurationOption | StringOption | BoolOption

record option_declaration =
  od_constructor :: option_constructor
  od_name :: string
  od_secret :: bool
  od_description :: string

definition down_declarations :: "option_declaration list" where
  "down_declarations =
     [\<lparr>od_constructor = DurationOption, od_name = ''retry'', od_secret = False, od_description = ''Retry-After duration''\<rparr>,
      \<lparr>od_constructor = DurationOption, od_name = ''refresh'', od_secret = False, od_description = ''browser refresh duration''\<rparr>,
      \<lparr>od_constructor = StringOption, od_name = ''secret'', od_secret = True, od_description = ''maintenance bypass token''\<rparr>,
      \<lparr>od_constructor = BoolOption, od_name = ''with-secret'', od_secret = False, od_description = ''generate a bypass token''\<rparr>,
      \<lparr>od_constructor = StringOption, od_name = ''redirect'', od_secret = False, od_description = ''absolute-path redirect''\<rparr>]"

definition down_cli_options :: "(option_declaration \<Rightarrow> addr) \<Rightarrow> option_definition list" where
  "down_cli_options new_option = map (\<lambda>declared. Some (new_option declared)) down_declarations"

definition maintenanceCommandSpecs ::
    "(option_declaration \<Rightarrow> addr) \<Rightarrow> bool \<Rightarrow> go_error \<Rightarrow> go_error \<Rightarrow> go_error \<Rightarrow> command_spec list" where
  "maintenanceCommandSpecs new_option store down up status =
     (if \<not> store then []
      else [\<lparr>sp_Name = ''down'', sp_Summary = ''enable maintenance mode'', sp_Options = down_cli_options new_option,
              sp_selects = CommandKindOneShot, sp_Handler = down\<rparr>,
            \<lparr>sp_Name = ''up'', sp_Summary = ''disable maintenance mode'', sp_Options = [],
              sp_selects = CommandKindOneShot, sp_Handler = up\<rparr>,
            \<lparr>sp_Name = ''status'', sp_Summary = ''show maintenance status'', sp_Options = [],
              sp_selects = CommandKindOneShot, sp_Handler = status\<rparr>])"

text \<open>What the library gets of a command: its name, summary and options, and the error of the wrapped handler.\<close>

record cli_command =
  cc_Name :: string
  cc_Summary :: string
  cc_Options :: "option_definition list"
  cc_Handler :: go_error

definition wrapped_children :: "addr \<Rightarrow> command_spec list \<Rightarrow> cli_command list" where
  "wrapped_children a specs =
     map (\<lambda>s. \<lparr>cc_Name = sp_Name s, cc_Summary = sp_Summary s, cc_Options = sp_Options s,
        cc_Handler = snd (wrapped_handler a (sp_Handler s))\<rparr>) specs"

text \<open>
  The library on a name, a version and the commands: an error, or an application from arguments to
  the position of the handler it ran, if any, and the result.
\<close>

type_synonym cli_application = "string list \<Rightarrow> nat option \<times> cli_result"

type_synonym command_line = "string \<Rightarrow> string \<Rightarrow> cli_command list \<Rightarrow> go_error + cli_application"

text \<open>What the handlers return: of the registered commands, and of \<^verbatim>\<open>down\<close>, \<^verbatim>\<open>up\<close> and \<^verbatim>\<open>status\<close>.\<close>

record handler_results =
  hr_command :: "registration \<Rightarrow> go_error"
  hr_down :: go_error
  hr_up :: go_error
  hr_status :: go_error

definition definition_specs ::
    "(option_declaration \<Rightarrow> addr) \<Rightarrow> definition_data \<Rightarrow> handler_results \<Rightarrow> registration list \<Rightarrow> command_spec list" where
  "definition_specs new_option d h commands =
     command_children (hr_command h) commands @
     maintenanceCommandSpecs new_option (mt_Store (def_Maintenance d)) (hr_down h) (hr_up h) (hr_status h)"

definition compileDefinition ::
    "addr \<Rightarrow> command_line \<Rightarrow> (option_declaration \<Rightarrow> addr) \<Rightarrow> bool \<Rightarrow> definition_data \<Rightarrow> handler_results \<Rightarrow>
     go_error + (command_spec list \<times> cli_application)" where
  "compileDefinition a cli new_option disclosed d h =
     (case compileDefinition_checks a disclosed d of
        Inl err \<Rightarrow> Inl err
      | Inr commands \<Rightarrow>
          let specs = definition_specs new_option d h commands in
          (case cli (id_Name (def_Identity d)) (identityValue (id_Version (def_Identity d))) (wrapped_children a specs) of
             Inl err \<Rightarrow> Inl err
           | Inr application \<Rightarrow> Inr (specs, application)))"

text \<open>The execution state the handler that ran left behind.\<close>

definition selected_state :: "addr \<Rightarrow> command_spec list \<Rightarrow> nat option \<Rightarrow> execution_state" where
  "selected_state a specs position =
     (case position of
        None \<Rightarrow> \<lparr>ex_selected = None, ex_commandErr = NilErr\<rparr>
      | Some i \<Rightarrow> \<lparr>ex_selected = Some (sp_selects (specs ! i)), ex_commandErr = fst (wrapped_handler a (sp_Handler (specs ! i)))\<rparr>)"

text \<open>
  \<^verbatim>\<open>Main\<close> with the arguments of the process, the program's name first: the background context, both streams, and
  \<^verbatim>\<open>Execute\<close>. Next to the exit code, the position of the handler that ran.
\<close>

definition service_Main ::
    "addr \<Rightarrow> command_line \<Rightarrow> (option_declaration \<Rightarrow> addr) \<Rightarrow> bool \<Rightarrow> definition_data \<Rightarrow> handler_results \<Rightarrow> string list \<Rightarrow>
     nat option \<times> int" where
  "service_Main a cli new_option disclosed d h argv =
     (case compileDefinition a cli new_option disclosed d h of
        Inl err \<Rightarrow>
          (None, Execute a True True True err CtxActive \<lparr>ex_selected = None, ex_commandErr = NilErr\<rparr> \<lparr>cr_Err = NilErr, cr_ExitCode = 0\<rparr>)
      | Inr (specs, application) \<Rightarrow>
          let (position, result) = application (drop 1 argv)
          in (position, Execute a True True True NilErr CtxActive (selected_state a specs position) result))"

subsection \<open>The library\<close>

text \<open>
  The error the library reports for a handler's error: it is inspectable as a command failure of the
  library and matches everything the handler's error matches. It may hide the types of that error,
  as it does for a command with secret options, and adds no class of its own.
\<close>

definition reports_failure :: "go_error \<Rightarrow> go_error \<Rightarrow> bool" where
  "reports_failure returned err \<longleftrightarrow>
     err \<noteq> NilErr \<and> (\<exists>x. classificationAs is_CliErr err = Some x \<and> cli_kind_of x = ErrorKindCommand) \<and>
     (\<forall>target. classificationIs returned target \<longrightarrow> classificationIs err target) \<and>
     (\<forall>s. classificationIs err (Sentinel s) \<longrightarrow> classificationIs returned (Sentinel s)) \<and>
     (\<forall>ty. (\<forall>b kind w. \<not> ty (CliErr b kind w)) \<and> classificationAs ty err \<noteq> None \<longrightarrow> classificationAs ty returned \<noteq> None)"

text \<open>
  Its documented behaviour on a command set it accepted. What it runs is one of the commands, a nil
  error is success with code 0, and any other error is reported. Which sets it accepts is left open.
\<close>

definition runs_selected :: "command_line \<Rightarrow> bool" where
  "runs_selected cli \<longleftrightarrow>
     (\<forall>name version specs application args i result.
        cli name version specs = Inr application \<and> application args = (Some i, result) \<longrightarrow>
          i < length specs \<and>
          (if cc_Handler (specs ! i) = NilErr then result = \<lparr>cr_Err = NilErr, cr_ExitCode = 0\<rparr>
           else reports_failure (cc_Handler (specs ! i)) (cr_Err result)))"

text \<open>
  In an accepted set with distinct names, the name of a command that is not one of the library's own
  runs it, when every option the command declares may be omitted; \<open>omittable\<close> is the library's.
\<close>

definition runs_named :: "(option_definition \<Rightarrow> bool) \<Rightarrow> command_line \<Rightarrow> bool" where
  "runs_named omittable cli \<longleftrightarrow>
     (\<forall>name version specs application i.
        cli name version specs = Inr application \<and> distinct (map cc_Name specs) \<and> i < length specs \<and>
        cc_Name (specs ! i) \<notin> {''help'', ''version''} \<and> list_all omittable (cc_Options (specs ! i)) \<longrightarrow>
          (\<exists>result. application [cc_Name (specs ! i)] = (Some i, result)))"

definition handler_exit :: "go_error \<Rightarrow> int" where
  "handler_exit err = (if err = NilErr then 0 else exitCodeWithDefault err 1)"

text \<open>The library is at most as urgent as the handler's error, and a command failure at most.\<close>

lemma reports_urgency:
  assumes "reports_failure returned err"
  shows "min (urgency returned) 8 \<le> urgency err" and "urgency err \<le> 8"
proof -
  have As: "classificationAs ty err \<noteq> None \<Longrightarrow> classificationAs ty returned \<noteq> None" if "\<And>b kind w. \<not> ty (CliErr b kind w)" for ty
    using assms that unfolding reports_failure_def by blast
  have Is: "classificationIs err (Sentinel s) \<Longrightarrow> classificationIs returned (Sentinel s)" for s
    using assms unfolding reports_failure_def by blast
  have yes: "\<forall>q\<in>set (take 8 asks). q err \<longrightarrow> q returned"
    unfolding asks_def
    using As[of is_ShutdownTimeoutError] As[of is_ShutdownError] As[of is_SignalError] As[of is_ConfigurationError] As[of is_StartupError]
      As[of is_MaintenanceError] As[of is_ConstructionError] Is by simp
  have first: "min (first_yes qs x) (length ps) \<le> first_yes qs y"
    if "\<forall>q\<in>set ps. q y \<longrightarrow> q x" "qs = ps @ rest" for ps qs rest and x y :: go_error
    using that
  proof (induction ps arbitrary: qs)
    case (Cons p ps)
    then show ?case by (auto simp: min_def split: if_splits)
  qed simp
  show "min (urgency returned) 8 \<le> urgency err"
    unfolding urgency_def using first[of "take 8 asks" err returned asks "drop 8 asks"] yes by (simp add: asks_def del: first_yes.simps)
  have "classificationAs is_CliErr err \<noteq> None" using assms unfolding reports_failure_def by auto
  then show "urgency err \<le> 8" by (simp add: urgency_def asks_def)
qed

lemma reported_exit:
  assumes "err \<noteq> NilErr" and "comparable err" and "reports_failure (commandResultError a err) (cr_Err result)"
  shows "Execute c True True True NilErr CtxActive \<lparr>ex_selected = selected, ex_commandErr = err\<rparr> result = exitCodeWithDefault err 1"
proof -
  let ?cli = "cr_Err result"
  have present: "?cli \<noteq> NilErr" using assms(3) by (simp add: reports_failure_def)
  obtain x where command: "classificationAs is_CliErr ?cli = Some x" "cli_kind_of x = ErrorKindCommand"
    using assms(3) unfolding reports_failure_def by blast
  have "classificationIs err err" using assms(1,2) by (simp add: classificationIs_iff preorder_node)
  then have "classificationIs (commandResultError a err) err" using result_Is[OF assms(1,1), of a] by simp
  then have found: "classificationIs ?cli err" using assms(3) unfolding reports_failure_def by blast
  have "Execute c True True True NilErr CtxActive \<lparr>ex_selected = selected, ex_commandErr = err\<rparr> result = exitCode (errors_join c [err, ?cli])"
    using assms(1) present found by (simp add: Execute_def)
  also have "\<dots> = (if urgency err \<le> urgency ?cli then exitCodeWithDefault err 70 else exitCodeWithDefault ?cli 70)"
    unfolding exitCode_def using join_exit[OF assms(1) present] by simp
  also have "\<dots> = exitCodeWithDefault err 1"
  proof -
    have bounds: "min (urgency err) 8 \<le> urgency ?cli" "urgency ?cli \<le> 8"
      using reports_urgency[OF assms(3)] result_urgency[OF assms(1), of a] by simp_all
    show ?thesis
    proof (cases "urgency err \<le> 8")
      case True
      then show ?thesis using bounds by (simp add: exit_by_urgency class_code_def)
    next
      case False
      then have "urgency ?cli = 8" using bounds by simp
      with False command show ?thesis by (simp add: exit_by_urgency class_code_def cli_exit_def)
    qed
  qed
  finally show ?thesis .
qed

subsection \<open>The process\<close>

lemma compiled:
  "compileDefinition a cli new_option disclosed d h = Inr (specs, application) \<longleftrightarrow>
     (\<exists>commands. compileDefinition_checks a disclosed d = Inr commands \<and> specs = definition_specs new_option d h commands \<and>
        cli (id_Name (def_Identity d)) (identityValue (id_Version (def_Identity d))) (wrapped_children a specs) = Inr application)"
  by (auto simp: compileDefinition_def Let_def split: sum.splits)

text \<open>Whatever the arguments, the code is that of the handler they select.\<close>

lemma selected_exit:
  assumes "runs_selected cli" and "compileDefinition a cli new_option disclosed d h = Inr (specs, application)"
    and "application (drop 1 argv) = (Some i, result)" and "comparable (sp_Handler (specs ! i))"
  shows "i < length specs" and "service_Main a cli new_option disclosed d h argv = (Some i, handler_exit (sp_Handler (specs ! i)))"
proof -
  let ?err = "sp_Handler (specs ! i)" and ?c = "wrapped_children a specs ! i"
  from assms(2) have app: "cli (id_Name (def_Identity d)) (identityValue (id_Version (def_Identity d))) (wrapped_children a specs) = Inr application"
    by (auto simp: compiled)
  have law: "i < length (wrapped_children a specs) \<and>
      (if cc_Handler ?c = NilErr then result = \<lparr>cr_Err = NilErr, cr_ExitCode = 0\<rparr> else reports_failure (cc_Handler ?c) (cr_Err result))"
    using assms(1)[unfolded runs_selected_def] app assms(3) by blast
  then show bound: "i < length specs" by (simp add: wrapped_children_def)
  have handler: "cc_Handler ?c = (if ?err = NilErr then NilErr else commandResultError a ?err)"
    using bound by (simp add: wrapped_children_def wrapped_handler_def)
  have "Execute a True True True NilErr CtxActive (selected_state a specs (Some i)) result = handler_exit ?err"
  proof (cases "?err = NilErr")
    case True
    then show ?thesis using law handler by (simp add: handler_exit_def Execute_def)
  next
    case False
    then have "reports_failure (commandResultError a ?err) (cr_Err result)" using law handler not_result_type(10)[of a ?err] by simp
    from reported_exit[OF False assms(4) this] False show ?thesis
      by (simp add: handler_exit_def selected_state_def wrapped_handler_def)
  qed
  then show "service_Main a cli new_option disclosed d h argv = (Some i, handler_exit ?err)"
    using assms(2,3) by (simp add: service_Main_def)
qed

lemma spec_names:
  assumes "compileDefinition_checks a disclosed d = Inr commands"
  shows "distinct (map sp_Name (definition_specs new_option d h commands))"
    and "s \<in> set (definition_specs new_option d h commands) \<Longrightarrow> sp_Name s \<notin> {''help'', ''version''}"
  using compile_accepted[OF assms]
  by (auto simp: commands_wf_def definition_specs_def command_children_def maintenanceCommandSpecs_def comp_def split: if_splits)

lemma named_exit:
  assumes "runs_selected cli" and "runs_named omittable cli"
    and "compileDefinition a cli new_option disclosed d h = Inr (specs, application)"
    and "i < length specs" and "list_all omittable (sp_Options (specs ! i))" and "comparable (sp_Handler (specs ! i))"
  shows "service_Main a cli new_option disclosed d h [program, sp_Name (specs ! i)] = (Some i, handler_exit (sp_Handler (specs ! i)))"
proof -
  let ?w = "wrapped_children a specs"
  from assms(3) obtain commands where checked: "compileDefinition_checks a disclosed d = Inr commands"
    and specs: "specs = definition_specs new_option d h commands"
    and app: "cli (id_Name (def_Identity d)) (identityValue (id_Version (def_Identity d))) ?w = Inr application"
    by (auto simp: compiled)
  have "distinct (map cc_Name ?w)" using spec_names(1)[OF checked, of new_option h] specs by (simp add: wrapped_children_def comp_def)
  moreover have "sp_Name (specs ! i) \<notin> {''help'', ''version''}"
    using spec_names(2)[OF checked, of "specs ! i" new_option h] assms(4) specs nth_mem by blast
  ultimately have "\<exists>result. application [sp_Name (specs ! i)] = (Some i, result)"
    using assms(2)[unfolded runs_named_def, rule_format, of _ _ ?w application i] app assms(4,5)
    by (simp add: wrapped_children_def)
  then show ?thesis using selected_exit(2)[OF assms(1,3) _ assms(6), of "[program, sp_Name (specs ! i)]"] by auto
qed

lemma registered_exit:
  assumes "runs_selected cli" and "runs_named omittable cli"
    and "compileDefinition a cli new_option disclosed d h = Inr (specs, application)"
    and "compileDefinition_checks a disclosed d = Inr commands" and "i < length commands"
    and "list_all omittable (reg_options (commands ! i))" and "comparable (hr_command h (commands ! i))"
  shows "service_Main a cli new_option disclosed d h [program, reg_name (commands ! i)] = (Some i, handler_exit (hr_command h (commands ! i)))"
proof -
  have specs: "specs = definition_specs new_option d h commands" using assms(3,4) by (auto simp: compiled)
  show ?thesis using named_exit[OF assms(1-3), of i program] assms(5-7)
    by (simp add: specs definition_specs_def command_children_def nth_append)
qed

lemma maintenance_exit:
  assumes "runs_selected cli" and "runs_named omittable cli"
    and "compileDefinition a cli new_option disclosed d h = Inr (specs, application)"
    and "compileDefinition_checks a disclosed d = Inr commands" and "mt_Store (def_Maintenance d)"
    and "(n, name, options, err) \<in> {(0, ''down'', down_cli_options new_option, hr_down h), (1, ''up'', [], hr_up h), (2, ''status'', [], hr_status h)}"
    and "list_all omittable options" and "comparable err"
  shows "service_Main a cli new_option disclosed d h [program, name] = (Some (length commands + n), handler_exit err)"
proof -
  have specs: "specs = definition_specs new_option d h commands" using assms(3,4) by (auto simp: compiled)
  have spec: "length commands + n < length specs" "sp_Name (specs ! (length commands + n)) = name"
    "sp_Options (specs ! (length commands + n)) = options" "sp_Handler (specs ! (length commands + n)) = err"
    using assms(5,6) by (auto simp: specs definition_specs_def command_children_def nth_append maintenanceCommandSpecs_def)
  from named_exit[OF assms(1-3) spec(1), of program] assms(7,8) show ?thesis by (simp only: spec)
qed

lemma rejected_exit:
  assumes "compileDefinition a cli new_option disclosed d h = Inl err" and "err \<noteq> NilErr"
  shows "service_Main a cli new_option disclosed d h argv = (None, exitCode err)"
  using assms by (simp add: service_Main_def Execute_def)

lemma unclassified_exit: "urgency err = 9 \<or> err = CliErr b ErrorKindOther NoUnwrap \<Longrightarrow> exitCode err = 70"
proof -
  have "exitCode (CliErr b ErrorKindOther NoUnwrap) = 70"
    by (simp add: exitCode_def exitCodeWithDefault_def classificationAs_def classificationIs_iff walk_finds_first preorder_node children_def
        cli_exit_def)
  moreover have "urgency err = 9 \<Longrightarrow> exitCode err = 70" by (simp add: exitCode_def exit_by_urgency class_code_def)
  ultimately show "urgency err = 9 \<or> err = CliErr b ErrorKindOther NoUnwrap \<Longrightarrow> exitCode err = 70" by blast
qed

text \<open>C36. \<^bold>\<open>The process exits with the code of the handler it ran, and with 70 when it cannot run one.\<close> For every library that
  keeps its contract on the command sets it accepts: when the arguments select a handler of an accepted
  definition, the process runs that one and exits with 0 when it returned nil and otherwise with the
  code of its error, 1 for an error of no class. The name of a registered command whose options may
  be omitted selects its handler, and with a store so do \<^verbatim>\<open>down\<close>, \<^verbatim>\<open>up\<close> and \<^verbatim>\<open>status\<close>. When no handler is selected,
  none runs and the code is the library's or that of its error. A definition the library rejects, for
  its options or anything else, runs no handler and exits with the code of the error, 70 when it is of
  no class; one the platform rejects runs no handler and exits with 70, whatever the arguments.\<close>

theorem process_exit:
  assumes "runs_selected cli" and "runs_named omittable cli"
  shows "(compileDefinition a cli new_option disclosed d h = Inr (specs, application) \<longrightarrow>
      (\<forall>argv i result. application (drop 1 argv) = (Some i, result) \<and> comparable (sp_Handler (specs ! i)) \<longrightarrow>
        i < length specs \<and> service_Main a cli new_option disclosed d h argv = (Some i, handler_exit (sp_Handler (specs ! i)))) \<and>
      (\<forall>argv result. application (drop 1 argv) = (None, result) \<longrightarrow>
        service_Main a cli new_option disclosed d h argv =
          (None, if cr_Err result = NilErr then cr_ExitCode result else exitCode (cr_Err result))) \<and>
      (\<forall>commands i. compileDefinition_checks a disclosed d = Inr commands \<and> i < length commands \<and>
          list_all omittable (reg_options (commands ! i)) \<and> comparable (hr_command h (commands ! i)) \<longrightarrow>
        service_Main a cli new_option disclosed d h [program, reg_name (commands ! i)] = (Some i, handler_exit (hr_command h (commands ! i)))) \<and>
      (\<forall>commands n name options err. compileDefinition_checks a disclosed d = Inr commands \<and> mt_Store (def_Maintenance d) \<and>
          (n, name, options, err) \<in> {(0, ''down'', down_cli_options new_option, hr_down h), (1, ''up'', [], hr_up h), (2, ''status'', [], hr_status h)} \<and>
          list_all omittable options \<and> comparable err \<longrightarrow>
        service_Main a cli new_option disclosed d h [program, name] = (Some (length commands + n), handler_exit err))) \<and>
    (\<forall>argv err. compileDefinition a cli new_option disclosed d h = Inl err \<and> err \<noteq> NilErr \<longrightarrow>
      service_Main a cli new_option disclosed d h argv = (None, exitCode err) \<and>
      (urgency err = 9 \<or> (\<exists>b. err = CliErr b ErrorKindOther NoUnwrap) \<longrightarrow> exitCode err = 70)) \<and>
    (\<forall>argv err. compileDefinition_checks a disclosed d = Inl err \<longrightarrow> service_Main a cli new_option disclosed d h argv = (None, 70))"
proof -
  let ?main = "service_Main a cli new_option disclosed d h"
  have selected: "i < length specs \<and> ?main argv = (Some i, handler_exit (sp_Handler (specs ! i)))"
    if "compileDefinition a cli new_option disclosed d h = Inr (specs, application)"
      "application (drop 1 argv) = (Some i, result) \<and> comparable (sp_Handler (specs ! i))" for argv i result
    using selected_exit[OF assms(1) that(1)] that(2) by blast
  have unselected: "?main argv = (None, if cr_Err result = NilErr then cr_ExitCode result else exitCode (cr_Err result))"
    if "compileDefinition a cli new_option disclosed d h = Inr (specs, application)" "application (drop 1 argv) = (None, result)" for argv result
    using that by (simp add: service_Main_def Execute_def selected_state_def)
  have refused: "?main argv = (None, 70)" if "compileDefinition_checks a disclosed d = Inl err" for argv err
    using that compile_rejection[OF that] rejection_exit by (auto simp: service_Main_def compileDefinition_def Execute_def rejection_def)
  show ?thesis
    by (intro conjI impI allI; (elim conjE exE)?)
      (erule (1) selected[THEN conjunct1, OF _ conjI] selected[THEN conjunct2, OF _ conjI] unselected refused
        registered_exit[OF assms] maintenance_exit[OF assms] rejected_exit unclassified_exit | erule refused | blast intro: unclassified_exit)+
qed

subsection \<open>The examples as processes\<close>

text \<open>
  The handler of an example's command in a quiet process: no signal arrives before the plan is
  executed, and \<open>world\<close> is what running an accepted plan returns.
\<close>

definition example_handled ::
    "addr \<Rightarrow> string list \<Rightarrow> example_command \<Rightarrow> (plan \<Rightarrow> go_error) \<Rightarrow> go_error" where
  "example_handled a env c world =
     command_handler a (ex_registration c) NilErr (ex_build c a env) (\<lambda>(p, options).
       case plan_service a no_management False (ex_registration c) p of Inl err \<Rightarrow> err | Inr _ \<Rightarrow> world p) CtxActive"

lemma single_command:
  "compileDefinition_checks a True (example_definition http_api) = Inr [ex_registration (the (ex_Serve http_api))]"
  "compileDefinition_checks a True (example_definition migration_example) = Inr [ex_registration migrateCommand]"
  using role_names example_names example_identities
  by (simp_all add: compileDefinition_checks_def definitionCommands_def standard_commands_def example_definition_def
      example_defs CommandFor_def isStandardCommand_def validateIdentity_def validateMaintenance_def Let_def)

lemma migrate_build: "ex_build migrateCommand a env = Inr (migrations_plan, [])"
  by (simp add: migrateCommand_def example_CommandFor_def command_build_def loadCommandConfiguration_def buildCommandPlan_def unit_load_def)

lemma migrate_service: "\<exists>s. plan_service a no_management False (ex_registration migrateCommand) migrations_plan = Inr s \<and> components s = []"
  using example_identities_valid by (simp add: migrateCommand_def example_CommandFor_def CommandFor_def plan_defs Let_def)

lemma single_options:
  "reg_options (ex_registration migrateCommand) = []" "reg_options (ex_registration (the (ex_Serve http_api))) = []"
  "reg_name (ex_registration migrateCommand) = ''migrate''" "reg_name (ex_registration (the (ex_Serve http_api))) = ''serve''"
  "\<not> mt_Store (def_Maintenance (example_definition e))"
  by (simp_all add: example_definition_def example_defs CommandFor_def)

text \<open>\<^bold>\<open>A serving example with unusable addresses exits with 70, and the migration with 0.\<close> Run as a process under a
  library that keeps its contract and accepts their commands, which declare no options, the HTTP API
  whose business address is empty or the address of the management listener exits with 70 whatever a
  running plan would have returned; with usable addresses it exits with the code of the run. The
  migration exits with 0 when its run succeeded.\<close>

theorem example_processes:
  assumes "runs_selected cli" and "runs_named omittable cli"
    and "business = example_environment env ''LISTEN_ADDRESS'' ''127.0.0.1:8080''"
    and "management = example_environment env ''MANAGEMENT_ADDRESS'' ''''"
    and "comparable (world (serve_plan \<lparr>businessAddress = business, managementAddress = management\<rparr>))"
    and "serving = h\<lparr>hr_command := \<lambda>_. example_handled a env (the (ex_Serve http_api)) world\<rparr>"
    and "migrating = h\<lparr>hr_command := \<lambda>_. example_handled a env migrateCommand world\<rparr>"
    and "compileDefinition a cli new_option True (example_definition http_api) serving = Inr served"
    and "compileDefinition a cli new_option True (example_definition migration_example) migrating = Inr migrated"
  shows "snd (service_Main a cli new_option True (example_definition http_api) serving [program, ''serve'']) =
      (if business = [] \<or> business = resolvedManagementAddress management then 70
       else handler_exit (world (serve_plan \<lparr>businessAddress = business, managementAddress = management\<rparr>))) \<and>
    (world migrations_plan = NilErr \<longrightarrow>
      snd (service_Main a cli new_option True (example_definition migration_example) migrating [program, ''migrate'']) = 0)"
proof -
  let ?c = "the (ex_Serve http_api)"
  let ?p = "serve_plan \<lparr>businessAddress = business, managementAddress = management\<rparr>"
  have member: "?c \<in> set serving_commands" by (simp add: serving_commands_def)
  obtain options where built: "ex_build ?c a env = Inr (?p, options)"
    using serving_builds(2)[OF member, of a env] assms(3,4) by (auto simp: example_configuration_def)
  note service = serve_plan_service[OF serving_builds(1)[OF member], of a "\<lparr>businessAddress = business, managementAddress = management\<rparr>"]
  let ?handled = "example_handled a env ?c world"
  have quiet: "preserveCommandSignal a CtxActive err = err" for err
    by (simp add: preserveCommandSignal_def classificationIs_def)
  have handled: "?handled = (if business = [] then DefinitionError a ''HTTP'' ''requires exactly one address or listener''
      else if business = resolvedManagementAddress management then DefinitionError a ''HTTP.Address'' ''collides with management address''
      else world ?p)"
    by (simp add: example_handled_def command_handler_def built service quiet)
  have code: "exitCodeWithDefault (DefinitionError a f r) 1 = 70" for f r
    by (simp add: exitCodeWithDefault_def classificationAs_def classificationIs_iff walk_finds_first preorder_node children_def)
  have "comparable ?handled" using assms(5) by (simp add: handled)
  obtain specs application where accepted: "compileDefinition a cli new_option True (example_definition http_api) serving = Inr (specs, application)"
    using assms(8) by (cases served) auto
  have "service_Main a cli new_option True (example_definition http_api) serving [program, ''serve''] = (Some 0, handler_exit ?handled)"
    using registered_exit[OF assms(1,2) accepted single_command(1), of 0 program] \<open>comparable ?handled\<close> assms(6)
    by (simp add: single_options)
  then have serve: "snd (service_Main a cli new_option True (example_definition http_api) serving [program, ''serve'']) =
      (if business = [] \<or> business = resolvedManagementAddress management then 70 else handler_exit (world ?p))"
    by (simp add: handled code handler_exit_def)
  have "snd (service_Main a cli new_option True (example_definition migration_example) migrating [program, ''migrate'']) = 0"
    if "world migrations_plan = NilErr"
  proof -
    have clean: "example_handled a env migrateCommand world = NilErr"
      using that migrate_service[of a] by (auto simp: example_handled_def command_handler_def migrate_build quiet)
    obtain specs application
      where accepted: "compileDefinition a cli new_option True (example_definition migration_example) migrating = Inr (specs, application)"
      using assms(9) by (cases migrated) auto
    from registered_exit[OF assms(1,2) accepted single_command(2), of 0 program] assms(7)
    show ?thesis by (simp add: clean handler_exit_def single_options)
  qed
  with serve show ?thesis by simp
qed

subsection \<open>A library that keeps the contract\<close>

text \<open>It rejects commands with a nil option, and runs a command given by its name alone.\<close>

definition plain_cli :: command_line where
  "plain_cli name version specs =
     (if list_ex (\<lambda>c. None \<in> set (cc_Options c)) specs then Inl (CliErr 1 ErrorKindOther NoUnwrap)
      else Inr (\<lambda>args. case args of
         [n] \<Rightarrow>
           (case List.find (\<lambda>i. cc_Name (specs ! i) = n) [0..<length specs] of
              None \<Rightarrow> (None, \<lparr>cr_Err = CliErr 1 ErrorKindUnknownCommand NoUnwrap, cr_ExitCode = 2\<rparr>)
            | Some i \<Rightarrow> (Some i, if cc_Handler (specs ! i) = NilErr then \<lparr>cr_Err = NilErr, cr_ExitCode = 0\<rparr>
                else \<lparr>cr_Err = CliErr 1 ErrorKindCommand (UnwrapOne (cc_Handler (specs ! i))), cr_ExitCode = 1\<rparr>))
       | _ \<Rightarrow> (None, \<lparr>cr_Err = CliErr 1 ErrorKindUsage NoUnwrap, cr_ExitCode = 2\<rparr>)))"

lemma wrapping_reports: "e \<noteq> NilErr \<Longrightarrow> reports_failure e (CliErr b ErrorKindCommand (UnwrapOne e))"
proof -
  assume e: "e \<noteq> NilErr"
  let ?cli = "CliErr b ErrorKindCommand (UnwrapOne e)"
  have "classificationAs is_CliErr ?cli = Some ?cli" by (rule As_direct) simp_all
  moreover have "classificationIs ?cli target" if "classificationIs e target" for target
  proof (cases "target = NilErr")
    case True
    with that e show ?thesis by (simp add: classificationIs_def)
  next
    case False
    with that e show ?thesis by (auto simp: classificationIs_iff cli_preorder)
  qed
  moreover have "classificationIs ?cli (Sentinel s) \<longleftrightarrow> classificationIs e (Sentinel s)" for s
    using e by (intro cli_Is) simp_all
  ultimately show ?thesis unfolding reports_failure_def using cli_As[of _ b ErrorKindCommand e] by auto
qed

lemma plain_cli_selected: "runs_selected plain_cli"
  unfolding runs_selected_def
  by (auto simp: plain_cli_def find_Some_iff wrapping_reports split: if_splits list.splits option.splits)

lemma plain_cli_named: "runs_named (\<lambda>_. True) plain_cli"
proof -
  have found: "List.find (\<lambda>j. cc_Name (specs ! j) = cc_Name (specs ! i)) [0..<length specs] = Some i"
    if "distinct (map cc_Name specs)" "i < length specs" for specs :: "cli_command list" and i
    unfolding find_Some_iff using that
    by (intro exI[of _ i]) (auto simp: distinct_conv_nth)
  then show ?thesis
    unfolding runs_named_def by (auto simp: plain_cli_def split: if_splits)
qed

definition quiet_handlers :: handler_results where
  "quiet_handlers = \<lparr>hr_command = \<lambda>_. NilErr, hr_down = NilErr, hr_up = NilErr, hr_status = NilErr\<rparr>"

lemma plain_cli_accepts:
  assumes "compileDefinition_checks a disclosed d = Inr commands" and "\<not> mt_Store (def_Maintenance d)"
    and "\<forall>c\<in>set commands. None \<notin> set (reg_options c)"
  shows "\<exists>served. compileDefinition a plain_cli new_option disclosed d h = Inr served"
proof -
  have "\<not> list_ex (\<lambda>c. None \<in> set (cc_Options c)) (wrapped_children a (definition_specs new_option d h commands))"
    using assms(2,3)
    by (auto simp: list_ex_iff wrapped_children_def definition_specs_def command_children_def maintenanceCommandSpecs_def)
  then have "\<exists>application. plain_cli name version (wrapped_children a (definition_specs new_option d h commands)) = Inr application" for name version
    by (simp add: plain_cli_def)
  then show ?thesis using assms(1) by (metis compiled)
qed

text \<open>The migration with a nil option among those it declares.\<close>

definition nil_option_definition :: definition_data where
  "nil_option_definition = (let d = example_definition migration_example in
     d\<lparr>def_Commands := (def_Commands d)\<lparr>cmd_Migrate := Some ((ex_registration migrateCommand)\<lparr>reg_options := [None]\<rparr>)\<rparr>\<rparr>)"

lemma nil_option_rejected:
  "compileDefinition a plain_cli new_option True nil_option_definition h = Inl (CliErr 1 ErrorKindOther NoUnwrap)"
proof -
  have checked: "compileDefinition_checks a True nil_option_definition = Inr [(ex_registration migrateCommand)\<lparr>reg_options := [None]\<rparr>]"
    using role_names example_names example_identities
    by (simp add: nil_option_definition_def compileDefinition_checks_def definitionCommands_def standard_commands_def example_definition_def
        example_defs CommandFor_def isStandardCommand_def validateIdentity_def validateMaintenance_def Let_def)
  have "list_ex (\<lambda>c. None \<in> set (cc_Options c))
      (wrapped_children a (definition_specs new_option nil_option_definition h [(ex_registration migrateCommand)\<lparr>reg_options := [None]\<rparr>]))"
    by (simp add: wrapped_children_def definition_specs_def command_children_def)
  then show ?thesis unfolding compileDefinition_def checked plain_cli_def by (simp add: Let_def)
qed

theorem process_exit_witness:
  "service_Main 1 plain_cli (\<lambda>_. 5) True (example_definition migration_example) (quiet_handlers\<lparr>hr_command := \<lambda>_. SignalError 2 SIGTERM\<rparr>)
     [''migration'', ''migrate''] = (Some 0, 143) \<and>
   service_Main 1 plain_cli (\<lambda>_. 5) True nil_option_definition quiet_handlers [''migration'', ''migrate''] = (None, 70)"
proof
  have code: "exitCodeWithDefault (SignalError 2 SIGTERM) 1 = 143"
    by (simp add: exitCodeWithDefault_def classificationAs_def walk_finds_first preorder_node children_def)
  obtain specs application where accepted: "compileDefinition 1 plain_cli (\<lambda>_. 5) True (example_definition migration_example)
      (quiet_handlers\<lparr>hr_command := \<lambda>_. SignalError 2 SIGTERM\<rparr>) = Inr (specs, application)"
    using plain_cli_accepts[OF single_command(2)] single_options by fastforce
  from process_exit[OF plain_cli_selected plain_cli_named, THEN conjunct1, rule_format, OF accepted, of "''migration''",
      THEN conjunct2, THEN conjunct2, THEN conjunct1, rule_format, of "[ex_registration migrateCommand]" 0]
  show "service_Main 1 plain_cli (\<lambda>_. 5) True (example_definition migration_example)
      (quiet_handlers\<lparr>hr_command := \<lambda>_. SignalError 2 SIGTERM\<rparr>) [''migration'', ''migrate''] = (Some 0, 143)"
    by (simp add: single_command(2) single_options code handler_exit_def list_all_iff)
  from process_exit[OF plain_cli_selected plain_cli_named, THEN conjunct2, THEN conjunct1, rule_format,
      of 1 "\<lambda>_. 5" True nil_option_definition quiet_handlers "CliErr 1 ErrorKindOther NoUnwrap" "[''migration'', ''migrate'']"]
  show "service_Main 1 plain_cli (\<lambda>_. 5) True nil_option_definition quiet_handlers [''migration'', ''migrate''] = (None, 70)"
    by (simp add: nil_option_rejected)
qed

theorem example_processes_witness:
  "snd (service_Main 1 plain_cli (\<lambda>_. 5) True (example_definition http_api)
     (quiet_handlers\<lparr>hr_command := \<lambda>_. example_handled 1 [''LISTEN_ADDRESS=''] (the (ex_Serve http_api)) (\<lambda>_. NilErr)\<rparr>)
     [''http-api'', ''serve'']) = 70"
proof -
  have "example_environment [''LISTEN_ADDRESS=''] ''LISTEN_ADDRESS'' ''127.0.0.1:8080'' = []" by simp
  moreover obtain served where "compileDefinition 1 plain_cli (\<lambda>_. 5) True (example_definition http_api)
      (quiet_handlers\<lparr>hr_command := \<lambda>_. example_handled 1 [''LISTEN_ADDRESS=''] (the (ex_Serve http_api)) (\<lambda>_. NilErr)\<rparr>) = Inr served"
    using plain_cli_accepts[OF single_command(1)] single_options by fastforce
  moreover obtain migrated where "compileDefinition 1 plain_cli (\<lambda>_. 5) True (example_definition migration_example)
      (quiet_handlers\<lparr>hr_command := \<lambda>_. example_handled 1 [''LISTEN_ADDRESS=''] migrateCommand (\<lambda>_. NilErr)\<rparr>) = Inr migrated"
    using plain_cli_accepts[OF single_command(2)] single_options by fastforce
  ultimately show ?thesis
    using example_processes[OF plain_cli_selected plain_cli_named refl refl _ refl refl, where world = "\<lambda>_. NilErr" and a = 1
        and env = "[''LISTEN_ADDRESS='']" and h = quiet_handlers and new_option = "\<lambda>_. 5" and program = "''http-api''"]
    by simp
qed

end
