(* ===== verification/Api_Docs.thy ===== *)
theory Api_Docs
  imports Commands
begin

section \<open>The documentation check\<close>

text \<open>
  Models \<^verbatim>\<open>scripts/check-api-docs.go\<close>: the walk over the source tree, the inspection of every declaration and the exit
  status. The parser is the language's; its result for a file, the declarations with the parts the
  check reads, is the content of the file here. A position is a string, as the file set prints it.
\<close>

subsection \<open>Syntax trees\<close>

record api_ident =
  ai_Pos :: string
  ai_Name :: string

record api_field =
  af_Names :: "api_ident list"
  af_Doc :: bool
  af_Comment :: bool

datatype api_expr =
    IdentExpr string
  | StarExpr api_expr
  | IndexExpr api_expr "api_expr list"
  | StructType "api_field list"
  | InterfaceType "api_field list"
  | OtherExpr

datatype api_spec =
    TypeSpec api_ident bool api_expr
  | ValueSpec "api_ident list" bool
  | ImportSpec

datatype api_decl =
    FuncDecl string string "api_expr list option" bool
  | GenDecl bool "api_spec list"

text \<open>
  \<^verbatim>\<open>ast.IsExported\<close>: the first character is an upper case letter. \<open>uni\<close> is the table of \<^verbatim>\<open>unicode.IsUpper\<close>
  for names that start beyond ASCII.
\<close>

definition IsExported :: "(string \<Rightarrow> bool) \<Rightarrow> string \<Rightarrow> bool" where
  "IsExported uni name =
     (case name of
        [] \<Rightarrow> False
      | c # _ \<Rightarrow> if of_char c < (128 :: nat) then 65 \<le> (of_char c :: nat) \<and> of_char c \<le> (90 :: nat) else uni name)"

definition api_location :: "string \<Rightarrow> string \<Rightarrow> string" where
  "api_location position name = position @ '': '' @ name"

subsection \<open>Inspection\<close>

text \<open>A receiver list without an element makes the index expression panic.\<close>

definition receiverIsExported :: "(string \<Rightarrow> bool) \<Rightarrow> api_expr list option \<Rightarrow> bool option" where
  "receiverIsExported uni recv =
     (case recv of
        None \<Rightarrow> Some True
      | Some [] \<Rightarrow> None
      | Some (receiver # _) \<Rightarrow>
          let receiver = (case receiver of StarExpr x \<Rightarrow> x | _ \<Rightarrow> receiver) in
          (case receiver of IdentExpr name \<Rightarrow> Some (IsExported uni name) | _ \<Rightarrow> Some False))"

fun inspect_names :: "(string \<Rightarrow> bool) \<Rightarrow> bool \<Rightarrow> api_ident list \<Rightarrow> string list \<Rightarrow> string list" where
  "inspect_names uni explained [] failures = failures"
| "inspect_names uni explained (name # names) failures =
     inspect_names uni explained names
       (if IsExported uni (ai_Name name) \<and> \<not> explained then failures @ [api_location (ai_Pos name) (ai_Name name)] else failures)"

fun inspectFields :: "(string \<Rightarrow> bool) \<Rightarrow> api_field list \<Rightarrow> string list \<Rightarrow> string list" where
  "inspectFields uni [] failures = failures"
| "inspectFields uni (member # members) failures =
     inspectFields uni members (inspect_names uni (af_Doc member \<or> af_Comment member) (af_Names member) failures)"

fun inspectGeneral :: "(string \<Rightarrow> bool) \<Rightarrow> bool \<Rightarrow> api_spec list \<Rightarrow> string list \<Rightarrow> string list" where
  "inspectGeneral uni doc [] failures = failures"
| "inspectGeneral uni doc (TypeSpec name specDoc type # specs) failures =
     (if \<not> IsExported uni (ai_Name name) then inspectGeneral uni doc specs failures
      else
        let failures = (if \<not> doc \<and> \<not> specDoc then failures @ [api_location (ai_Pos name) (ai_Name name)] else failures) in
        inspectGeneral uni doc specs
          (case type of
             StructType members \<Rightarrow> inspectFields uni members failures
           | InterfaceType contract \<Rightarrow> inspectFields uni contract failures
           | _ \<Rightarrow> failures))"
| "inspectGeneral uni doc (ValueSpec names specDoc # specs) failures =
     inspectGeneral uni doc specs (inspect_names uni (doc \<or> specDoc) names failures)"
| "inspectGeneral uni doc (ImportSpec # specs) failures = inspectGeneral uni doc specs failures"

definition inspect_declaration :: "(string \<Rightarrow> bool) \<Rightarrow> api_decl \<Rightarrow> string list \<Rightarrow> string list call" where
  "inspect_declaration uni d failures =
     (case d of
        FuncDecl position name recv doc \<Rightarrow>
          if \<not> IsExported uni name then CallReturned (Inr failures)
          else (case receiverIsExported uni recv of
              None \<Rightarrow> CallPanicked 0
            | Some exported \<Rightarrow> CallReturned (Inr (if exported \<and> \<not> doc then failures @ [api_location position name] else failures)))
      | GenDecl doc specs \<Rightarrow> CallReturned (Inr (inspectGeneral uni doc specs failures)))"

fun inspect_file :: "(string \<Rightarrow> bool) \<Rightarrow> api_decl list \<Rightarrow> string list \<Rightarrow> string list call" where
  "inspect_file uni [] failures = CallReturned (Inr failures)"
| "inspect_file uni (d # ds) failures =
     (case inspect_declaration uni d failures of
        CallReturned (Inr failures) \<Rightarrow> inspect_file uni ds failures
      | stopped \<Rightarrow> stopped)"

subsection \<open>The walk\<close>

text \<open>
  A directory with the error of reading it, a file with the parser's result. \<^verbatim>\<open>filepath.WalkDir\<close> visits the
  entries in the order the tree has them; \<open>rel\<close> is the path below the root, empty for the root itself.
\<close>

datatype source_tree =
    DirNode string go_error "source_tree list"
  | FileNode string "go_error + api_decl list"

fun tree_name :: "source_tree \<Rightarrow> string" where
  "tree_name (DirNode name _ _) = name"
| "tree_name (FileNode name _) = name"

definition skipped_dir :: "string list \<Rightarrow> string \<Rightarrow> bool" where
  "skipped_dir rel name \<longleftrightarrow> rel \<noteq> [] \<and> (prefix ''.'' name \<or> name = ''examples'' \<or> name = ''vendor'')"

definition checked_file :: "string list \<Rightarrow> string \<Rightarrow> bool" where
  "checked_file rel name \<longleftrightarrow>
     \<not> (\<not> suffix ''.go'' name \<or> suffix ''_test.go'' name \<or> rel = [''scripts'', ''check-api-docs.go''])"

fun walk_tree :: "(string \<Rightarrow> bool) \<Rightarrow> string list \<Rightarrow> source_tree \<Rightarrow> string list \<Rightarrow> string list call"
  and walk_list :: "(string \<Rightarrow> bool) \<Rightarrow> string list \<Rightarrow> source_tree list \<Rightarrow> string list \<Rightarrow> string list call" where
  "walk_tree uni rel (DirNode name err entries) failures =
     (if skipped_dir rel name then CallReturned (Inr failures)
      else if err \<noteq> NilErr then CallReturned (Inl err)
      else walk_list uni rel entries failures)"
| "walk_tree uni rel (FileNode name parsed) failures =
     (if \<not> checked_file rel name then CallReturned (Inr failures)
      else case parsed of
        Inl parseErr \<Rightarrow> CallReturned (Inl parseErr)
      | Inr decls \<Rightarrow> inspect_file uni decls failures)"
| "walk_list uni rel [] failures = CallReturned (Inr failures)"
| "walk_list uni rel (t # ts) failures =
     (case walk_tree uni (rel @ [tree_name t]) t failures of
        CallReturned (Inr failures) \<Rightarrow> walk_list uni rel ts failures
      | stopped \<Rightarrow> stopped)"

text \<open>
  \<^verbatim>\<open>main\<close>: the root from the arguments, its tree or the error of looking at it, the exit status with the lines on
  standard error; \<open>show_error\<close> is the text of an error. A panic exits with status 2.
\<close>

definition api_docs_main ::
    "(string \<Rightarrow> bool) \<Rightarrow> (go_error \<Rightarrow> string) \<Rightarrow> string list \<Rightarrow> (string \<Rightarrow> go_error + source_tree) \<Rightarrow> nat \<times> string list" where
  "api_docs_main uni show_error args lstat =
     (let root = (case args of [_, r] \<Rightarrow> r | _ \<Rightarrow> ''.'') in
      case lstat root of
        Inl err \<Rightarrow> (1, [show_error err])
      | Inr tree \<Rightarrow>
          (case walk_tree uni [] tree [] of
             CallPanicked _ \<Rightarrow> (2, [''panic: runtime error: index out of range [0] with length 0''])
           | CallReturned (Inl err) \<Rightarrow> (1, [show_error err])
           | CallReturned (Inr failures) \<Rightarrow>
               (if failures \<noteq> [] then 1 else 0, map (\<lambda>f. f @ '': exported API lacks documentation'') failures)))"

subsection \<open>What it means to be documented\<close>

text \<open>The type name a receiver belongs to by the language: through pointers and type arguments.\<close>

fun receiver_base :: "api_expr \<Rightarrow> string option" where
  "receiver_base (IdentExpr name) = Some name"
| "receiver_base (StarExpr x) = receiver_base x"
| "receiver_base (IndexExpr x _) = receiver_base x"
| "receiver_base _ = None"

definition receiver_public :: "(string \<Rightarrow> bool) \<Rightarrow> api_expr list option \<Rightarrow> bool" where
  "receiver_public uni recv =
     (case recv of
        None \<Rightarrow> True
      | Some [] \<Rightarrow> False
      | Some (x # _) \<Rightarrow> (case receiver_base x of None \<Rightarrow> False | Some name \<Rightarrow> IsExported uni name))"

definition names_documented :: "(string \<Rightarrow> bool) \<Rightarrow> bool \<Rightarrow> api_ident list \<Rightarrow> bool" where
  "names_documented uni explained names \<longleftrightarrow> (\<forall>n\<in>set names. IsExported uni (ai_Name n) \<longrightarrow> explained)"

fun type_fields :: "api_expr \<Rightarrow> api_field list" where
  "type_fields (StructType members) = members"
| "type_fields (InterfaceType contract) = contract"
| "type_fields _ = []"

fun spec_documented :: "(string \<Rightarrow> bool) \<Rightarrow> bool \<Rightarrow> api_spec \<Rightarrow> bool" where
  "spec_documented uni doc (TypeSpec name specDoc type) \<longleftrightarrow>
     (IsExported uni (ai_Name name) \<longrightarrow>
        (doc \<or> specDoc) \<and> (\<forall>f\<in>set (type_fields type). names_documented uni (af_Doc f \<or> af_Comment f) (af_Names f)))"
| "spec_documented uni doc (ValueSpec names specDoc) \<longleftrightarrow> names_documented uni (doc \<or> specDoc) names"
| "spec_documented uni doc ImportSpec \<longleftrightarrow> True"

fun decl_documented :: "(string \<Rightarrow> bool) \<Rightarrow> api_decl \<Rightarrow> bool" where
  "decl_documented uni (FuncDecl _ name recv doc) \<longleftrightarrow> (IsExported uni name \<and> receiver_public uni recv \<longrightarrow> doc)"
| "decl_documented uni (GenDecl doc specs) \<longleftrightarrow> (\<forall>s\<in>set specs. spec_documented uni doc s)"

text \<open>The receivers the check resolves: a name or a pointer to a name.\<close>

fun named_receiver :: "api_expr \<Rightarrow> bool" where
  "named_receiver (IdentExpr _) \<longleftrightarrow> True"
| "named_receiver (StarExpr (IdentExpr _)) \<longleftrightarrow> True"
| "named_receiver _ \<longleftrightarrow> False"

fun resolved_method :: "api_decl \<Rightarrow> bool" where
  "resolved_method (FuncDecl _ _ (Some (x # _)) _) \<longleftrightarrow> named_receiver x"
| "resolved_method _ \<longleftrightarrow> True"

fun has_receiver :: "api_decl \<Rightarrow> bool" where
  "has_receiver (FuncDecl _ _ (Some []) _) \<longleftrightarrow> False"
| "has_receiver _ \<longleftrightarrow> True"

text \<open>The declarations under a root that the check is about, and the errors it meets there.\<close>

fun covered :: "string list \<Rightarrow> source_tree \<Rightarrow> api_decl list" and covered_list :: "string list \<Rightarrow> source_tree list \<Rightarrow> api_decl list" where
  "covered rel (DirNode name err entries) = (if skipped_dir rel name then [] else covered_list rel entries)"
| "covered rel (FileNode name parsed) =
     (if checked_file rel name then (case parsed of Inl _ \<Rightarrow> [] | Inr decls \<Rightarrow> decls) else [])"
| "covered_list rel [] = []"
| "covered_list rel (t # ts) = covered (rel @ [tree_name t]) t @ covered_list rel ts"

fun readable :: "string list \<Rightarrow> source_tree \<Rightarrow> bool" and readable_list :: "string list \<Rightarrow> source_tree list \<Rightarrow> bool" where
  "readable rel (DirNode name err entries) \<longleftrightarrow> skipped_dir rel name \<or> err = NilErr \<and> readable_list rel entries"
| "readable rel (FileNode name parsed) \<longleftrightarrow> (checked_file rel name \<longrightarrow> (case parsed of Inl _ \<Rightarrow> False | Inr _ \<Rightarrow> True))"
| "readable_list rel [] \<longleftrightarrow> True"
| "readable_list rel (t # ts) \<longleftrightarrow> readable (rel @ [tree_name t]) t \<and> readable_list rel ts"

subsection \<open>The failures\<close>

text \<open>Every pass appends the failures of its part, independently of the ones found before.\<close>

definition missing_names :: "(string \<Rightarrow> bool) \<Rightarrow> bool \<Rightarrow> api_ident list \<Rightarrow> string list" where
  "missing_names uni explained names =
     (if explained then [] else map (\<lambda>n. api_location (ai_Pos n) (ai_Name n)) (filter (\<lambda>n. IsExported uni (ai_Name n)) names))"

definition missing_fields :: "(string \<Rightarrow> bool) \<Rightarrow> api_field list \<Rightarrow> string list" where
  "missing_fields uni members = concat (map (\<lambda>f. missing_names uni (af_Doc f \<or> af_Comment f) (af_Names f)) members)"

fun missing_spec :: "(string \<Rightarrow> bool) \<Rightarrow> bool \<Rightarrow> api_spec \<Rightarrow> string list" where
  "missing_spec uni doc (TypeSpec name specDoc type) =
     (if IsExported uni (ai_Name name) then missing_names uni (doc \<or> specDoc) [name] @ missing_fields uni (type_fields type) else [])"
| "missing_spec uni doc (ValueSpec names specDoc) = missing_names uni (doc \<or> specDoc) names"
| "missing_spec uni doc ImportSpec = []"

fun missing_decl :: "(string \<Rightarrow> bool) \<Rightarrow> api_decl \<Rightarrow> string list" where
  "missing_decl uni (FuncDecl position name recv doc) =
     (if IsExported uni name \<and> receiverIsExported uni recv = Some True \<and> \<not> doc then [api_location position name] else [])"
| "missing_decl uni (GenDecl doc specs) = concat (map (missing_spec uni doc) specs)"

lemma inspect_names_appends: "inspect_names uni explained names failures = failures @ missing_names uni explained names"
  by (induction names arbitrary: failures) (auto simp: missing_names_def)

lemma inspectFields_appends: "inspectFields uni members failures = failures @ missing_fields uni members"
  by (induction members arbitrary: failures) (auto simp: missing_fields_def inspect_names_appends)

lemma inspectGeneral_appends: "inspectGeneral uni doc specs failures = failures @ concat (map (missing_spec uni doc) specs)"
proof (induction uni doc specs failures rule: inspectGeneral.induct)
  case (2 uni doc name specDoc type specs failures)
  then show ?case
    by (cases type) (auto simp: Let_def inspectFields_appends missing_names_def missing_fields_def)
qed (auto simp: inspect_names_appends)

lemma inspect_declaration_appends:
  "has_receiver d \<Longrightarrow> inspect_declaration uni d failures = CallReturned (Inr (failures @ missing_decl uni d))"
  by (cases d rule: has_receiver.cases)
    (auto simp: inspect_declaration_def inspectGeneral_appends receiverIsExported_def Let_def split: api_expr.splits)

lemma inspect_file_appends:
  "list_all has_receiver ds \<Longrightarrow> inspect_file uni ds failures = CallReturned (Inr (failures @ concat (map (missing_decl uni) ds)))"
  by (induction ds arbitrary: failures) (auto simp: inspect_declaration_appends)

lemma walk_appends:
  "readable rel t \<Longrightarrow> list_all has_receiver (covered rel t) \<Longrightarrow>
     walk_tree uni rel t failures = CallReturned (Inr (failures @ concat (map (missing_decl uni) (covered rel t))))"
  "readable_list rel ts \<Longrightarrow> list_all has_receiver (covered_list rel ts) \<Longrightarrow>
     walk_list uni rel ts failures = CallReturned (Inr (failures @ concat (map (missing_decl uni) (covered_list rel ts))))"
  by (induction uni rel t failures and uni rel ts failures rule: walk_tree_walk_list.induct)
    (auto simp: inspect_file_appends split: sum.splits)

lemma walk_unreadable:
  "\<not> readable rel t \<Longrightarrow> list_all has_receiver (covered rel t) \<Longrightarrow> \<exists>err. walk_tree uni rel t failures = CallReturned (Inl err)"
  "\<not> readable_list rel ts \<Longrightarrow> list_all has_receiver (covered_list rel ts) \<Longrightarrow> \<exists>err. walk_list uni rel ts failures = CallReturned (Inl err)"
proof (induction uni rel t failures and uni rel ts failures rule: walk_tree_walk_list.induct)
  case (4 uni rel t ts failures)
  then show ?case
    by (cases "readable (rel @ [tree_name t]) t") (auto simp: walk_appends)
qed (auto split: sum.splits if_splits)

subsection \<open>The check is exact\<close>

lemma missing_names_Nil: "missing_names uni explained names = [] \<longleftrightarrow> names_documented uni explained names"
  by (auto simp: missing_names_def names_documented_def filter_empty_conv)

lemma missing_spec_Nil: "missing_spec uni doc s = [] \<longleftrightarrow> spec_documented uni doc s"
  by (cases s) (auto simp: missing_fields_def missing_names_Nil names_documented_def)

lemma receiver_resolved:
  "named_receiver x \<Longrightarrow> receiverIsExported uni (Some (x # xs)) = Some (receiver_public uni (Some (x # xs)))"
  "\<not> named_receiver x \<Longrightarrow> receiverIsExported uni (Some (x # xs)) = Some False"
  by (cases x rule: named_receiver.cases; simp add: receiverIsExported_def receiver_public_def)+

lemma missing_decl_Nil:
  "has_receiver d \<Longrightarrow> missing_decl uni d = [] \<longleftrightarrow> \<not> resolved_method d \<or> decl_documented uni d"
proof (cases d)
  case (FuncDecl position name recv doc)
  assume "has_receiver d"
  then consider "recv = None" | x xs where "recv = Some (x # xs)"
    using FuncDecl by (metis has_receiver.simps(1) neq_Nil_conv not_Some_eq)
  then show ?thesis
  proof cases
    case 1
    then show ?thesis using FuncDecl by (simp add: receiverIsExported_def receiver_public_def)
  next
    case (2 x xs)
    then show ?thesis using FuncDecl receiver_resolved[of x uni xs] by (cases "named_receiver x") simp_all
  qed
qed (auto simp: missing_spec_Nil)

text \<open>\<^bold>\<open>The documentation check accepts exactly the documented trees, up to generic receivers.\<close> On a tree whose
  methods have receivers the check exits with 0 exactly when it could read and parse everything it
  covers and every covered declaration is documented, functions, methods, types with their fields
  and interface methods, constants and variables; the one exception is a method whose receiver is
  neither a name nor a pointer to a name, which it never reports. It exits with 1 otherwise.\<close>

theorem api_docs_exact:
  assumes "lstat (case args of [_, r] \<Rightarrow> r | _ \<Rightarrow> ''.'') = Inr tree" and "list_all has_receiver (covered [] tree)"
  shows "fst (api_docs_main uni show_error args lstat) =
    (if readable [] tree \<and> list_all (\<lambda>d. \<not> resolved_method d \<or> decl_documented uni d) (covered [] tree) then 0 else 1)"
proof (cases "readable [] tree")
  case True
  have "concat (map (missing_decl uni) (covered [] tree)) = [] \<longleftrightarrow>
      list_all (\<lambda>d. \<not> resolved_method d \<or> decl_documented uni d) (covered [] tree)"
    using assms(2) missing_decl_Nil by (auto simp: list_all_iff)
  then show ?thesis
    using assms True walk_appends(1)[OF True assms(2)] by (simp add: api_docs_main_def Let_def)
next
  case False
  then obtain err where "walk_tree uni [] tree [] = CallReturned (Inl err)"
    using walk_unreadable(1) assms(2) by blast
  then show ?thesis using assms(1) False by (simp add: api_docs_main_def Let_def)
qed

text \<open>\<^bold>\<open>Methods of generic types escape the check.\<close> A file with the one declaration of an exported method without
  documentation on a pointer to an exported generic type, such as \<^verbatim>\<open>Owned[R]\<close>, passes, although the method
  is part of the exported API.\<close>

definition generic_source :: source_tree where
  "generic_source =
     DirNode ''.'' NilErr
       [FileNode ''owned.go'' (Inr [FuncDecl ''owned.go:132:1'' ''Component'' (Some [StarExpr (IndexExpr (IdentExpr ''Owned'') [IdentExpr ''R''])]) False])]"

theorem api_docs_exact_witness:
  "fst (api_docs_main (\<lambda>_. False) (\<lambda>_. []) [''check-api-docs''] (\<lambda>_. Inr generic_source)) = 0 \<and>
   map (decl_documented (\<lambda>_. False)) (covered [] generic_source) = [False]"
proof -
  have covered: "covered [] generic_source =
      [FuncDecl ''owned.go:132:1'' ''Component'' (Some [StarExpr (IndexExpr (IdentExpr ''Owned'') [IdentExpr ''R''])]) False]"
    "readable [] generic_source"
    by (simp_all add: generic_source_def skipped_dir_def checked_file_def suffix_def)
  then show ?thesis
    using api_docs_exact[of "\<lambda>_. Inr generic_source" "[''check-api-docs'']" generic_source "\<lambda>_. False" "\<lambda>_. []"]
    by (simp add: receiver_public_def IsExported_def)
qed

end
