(* ===== verification/Load_Run.thy ===== *)
theory Load_Run
  imports Load_Harness
begin

section \<open>A load campaign\<close>

text \<open>
  Models \<^verbatim>\<open>run\<close> and \<^verbatim>\<open>main\<close> of \<^verbatim>\<open>integration/reference-platform/cmd/platform-load/main.go\<close> around the worker pool: the checks before it starts, the
  sampler beside it, and the report. The pool enters by the state it ended in; the clock, the
  contexts and the answers to the samples are arguments.
\<close>

definition errInvalidConfig :: go_error where
  "errInvalidConfig = ErrorString 961 ''platform load configuration is invalid''"

record load_report =
  lr_Requested :: int
  lr_Completed :: nat
  lr_Failed :: nat
  lr_SampleFailures :: nat
  lr_MaxInFlight :: int
  lr_Duration :: duration
  lr_RequestsPerSecond :: "nat \<times> duration"
  lr_P50 :: "duration option"
  lr_P95 :: "duration option"
  lr_P99 :: "duration option"
  lr_Maxima :: resource_maxima

text \<open>
  The rate is left as the two operands of its quotient. A percentile that is \<open>None\<close> is an index out
  of range.
\<close>

subsection \<open>The sampler\<close>

text \<open>
  The ticks the sampler received before its context was done: the answer to each sample and whether
  the context was done when the failure was looked at.
\<close>

fun sampler :: "(string \<Rightarrow> (int \<times> int \<times> int \<times> int) option) \<Rightarrow> (load_answer \<times> bool) list \<Rightarrow> resource_maxima \<Rightarrow> nat \<Rightarrow> resource_maxima \<times> nat" where
  "sampler decode [] maxima failures = (maxima, failures)"
| "sampler decode ((answer, stopped) # ticks) maxima failures =
     (case sampleResources decode answer maxima of
        None \<Rightarrow> sampler decode ticks maxima (if \<not> stopped then failures + 1 else failures)
      | Some raised \<Rightarrow> sampler decode ticks raised failures)"

subsection \<open>run\<close>

definition no_maxima :: resource_maxima where
  "no_maxima = \<lparr>rm_heapAlloc = 0, rm_heapSys = 0, rm_goroutines = 0, rm_descriptors = 0\<rparr>"

definition load_report_of :: "load_config \<Rightarrow> load_sys \<Rightarrow> duration \<Rightarrow> resource_maxima \<Rightarrow> nat \<Rightarrow> load_report" where
  "load_report_of settings pool elapsed maxima sampleFailures =
     (let latencies = sort (ld_latencies pool) in
      \<lparr>lr_Requested = lc_Requests settings, lr_Completed = ld_completed pool, lr_Failed = ld_failed pool,
       lr_SampleFailures = sampleFailures, lr_MaxInFlight = ld_maxInFlight pool, lr_Duration = elapsed,
       lr_RequestsPerSecond = (length latencies, elapsed),
       lr_P50 = percentile latencies 50, lr_P95 = percentile latencies 95, lr_P99 = percentile latencies 99,
       lr_Maxima = maxima\<rparr>)"

text \<open>
  \<open>ctxErr\<close> is the context's error at the start, \<open>cancelErr\<close> when the dispatching loop left early, \<open>sampleErr\<close> that of
  a failed first sample.
\<close>

definition load_run ::
    "addr \<Rightarrow> (string \<Rightarrow> (string \<times> string) option) \<Rightarrow> (string \<Rightarrow> (int \<times> int \<times> int \<times> int) option) \<Rightarrow> load_config \<Rightarrow> bool \<Rightarrow> go_error \<Rightarrow>
     load_answer \<Rightarrow> go_error \<Rightarrow> (load_answer \<times> bool) list \<Rightarrow> load_sys \<Rightarrow> go_error \<Rightarrow> duration \<Rightarrow> go_error + load_report" where
  "load_run a parse decode settings ctx_present ctxErr initial sampleErr ticks pool cancelErr elapsed =
     (if \<not> valid_settings parse ctx_present settings then Inl errInvalidConfig
      else if ctxErr \<noteq> NilErr then Inl ctxErr
      else case sampleResources decode initial no_maxima of
        None \<Rightarrow> Inl (AppErr a ComparableShape [] [] (UnwrapOne sampleErr))
      | Some maxima \<Rightarrow>
          if ld_cancelled pool then Inl cancelErr
          else let (maxima, sampleFailures) = sampler decode ticks maxima 0
               in Inr (load_report_of settings pool elapsed maxima sampleFailures))"

text \<open>\<^verbatim>\<open>main\<close>: the exit status with what is printed, the report on standard output or the error.\<close>

definition load_main :: "go_error + load_report \<Rightarrow> go_error \<Rightarrow> nat \<times> (go_error + load_report) option" where
  "load_main result encodeErr =
     (case result of
        Inl err \<Rightarrow> (1, Some (Inl err))
      | Inr r \<Rightarrow> if encodeErr \<noteq> NilErr then (1, Some (Inl encodeErr)) else (0, Some (Inr r)))"

subsection \<open>The maxima cover every sample\<close>

definition covers_sample :: "resource_maxima \<Rightarrow> int \<times> int \<times> int \<times> int \<Rightarrow> bool" where
  "covers_sample m sample \<longleftrightarrow>
     (case sample of (heapAlloc, heapSys, goroutines, descriptors) \<Rightarrow>
        heapAlloc \<le> rm_heapAlloc m \<and> heapSys \<le> rm_heapSys m \<and> goroutines \<le> rm_goroutines m \<and> descriptors \<le> rm_descriptors m)"

definition maxima_le :: "resource_maxima \<Rightarrow> resource_maxima \<Rightarrow> bool" where
  "maxima_le m n \<longleftrightarrow>
     rm_heapAlloc m \<le> rm_heapAlloc n \<and> rm_heapSys m \<le> rm_heapSys n \<and> rm_goroutines m \<le> rm_goroutines n \<and> rm_descriptors m \<le> rm_descriptors n"

text \<open>The samples an answer carries.\<close>

definition sample_of :: "(string \<Rightarrow> (int \<times> int \<times> int \<times> int) option) \<Rightarrow> load_answer \<Rightarrow> (int \<times> int \<times> int \<times> int) option" where
  "sample_of decode answer =
     (case answer of NoAnswer \<Rightarrow> None | Answer status body _ \<Rightarrow> if status = 200 then decode (take 4096 body) else None)"

lemma maxima_le_trans: "maxima_le k m \<Longrightarrow> maxima_le m n \<Longrightarrow> maxima_le k n"
  by (auto simp: maxima_le_def)

lemma covers_mono: "covers_sample m sample \<Longrightarrow> maxima_le m n \<Longrightarrow> covers_sample n sample"
  by (auto simp: covers_sample_def maxima_le_def)

lemma sampleResources_None: "sampleResources decode answer m = None \<longleftrightarrow> sample_of decode answer = None"
  by (auto simp: sampleResources_def sample_of_def split: load_answer.splits option.splits)

lemma sampleResources_Some:
  "sampleResources decode answer m = Some n \<Longrightarrow> maxima_le m n \<and> (\<exists>sample. sample_of decode answer = Some sample \<and> covers_sample n sample)"
  by (auto simp: sampleResources_def sample_of_def maxima_le_def covers_sample_def split: load_answer.splits option.splits if_splits)

lemma sampler_covers:
  "sampler decode ticks m f = (n, g) \<Longrightarrow>
     maxima_le m n \<and> (\<forall>(answer, stopped)\<in>set ticks. \<forall>sample. sample_of decode answer = Some sample \<longrightarrow> covers_sample n sample) \<and>
     g = f + count_of (\<lambda>(answer, stopped). sample_of decode answer = None \<and> \<not> stopped) ticks"
proof (induction ticks arbitrary: m f)
  case Nil
  then show ?case by (simp add: maxima_le_def count_of_def)
next
  case (Cons tick ticks)
  obtain answer stopped where tick: "tick = (answer, stopped)" by (cases tick)
  show ?case
  proof (cases "sampleResources decode answer m")
    case None
    then have "sample_of decode answer = None" by (simp add: sampleResources_None)
    then show ?thesis using Cons None tick by (fastforce simp: count_of_def)
  next
    case (Some raised)
    note spec = sampleResources_Some[OF Some]
    have "sampler decode ticks raised f = (n, g)" using Cons.prems Some tick by simp
    from Cons.IH[OF this] show ?thesis using spec tick by (auto simp: count_of_def intro: maxima_le_trans covers_mono)
  qed
qed

subsection \<open>The report\<close>

lemma percentile_mono:
  assumes "sorted latencies" and "1 \<le> p" and "p \<le> q" and "percentile latencies p = Some v" and "percentile latencies q = Some w"
  shows "v \<le> w"
proof (cases "latencies = []")
  case False
  let ?i = "\<lambda>p. (int (length latencies) * p + 99) div 100"
  have n: "1 \<le> int (length latencies)" using False by (cases latencies) auto
  have order: "?i p \<le> ?i q" using assms(3) by (intro zdiv_mono1) (auto intro: mult_left_mono)
  have "1 \<le> int (length latencies) * p" using n assms(2) mult_mono[of 1 "int (length latencies)" 1 p] by simp
  then have low: "1 \<le> ?i p" by linarith
  have "v = latencies ! nat (?i p - 1)" "w = latencies ! nat (?i q - 1)" "?i q \<le> int (length latencies)"
    using assms(4,5) False low order by (auto simp: percentile_def Let_def split: if_splits)
  moreover from this low order have "nat (?i p - 1) \<le> nat (?i q - 1)" "nat (?i q - 1) < length latencies" by linarith+
  ultimately show ?thesis using sorted_nth_mono[OF assms(1)] by simp
qed (use assms(4,5) in \<open>auto simp: percentile_def\<close>)

lemma report_percentiles:
  assumes "ld_latencies pool \<noteq> []" and "r = load_report_of settings pool elapsed m f"
  shows "\<exists>p50 p95 p99. lr_P50 r = Some p50 \<and> lr_P95 r = Some p95 \<and> lr_P99 r = Some p99 \<and> p50 \<le> p95 \<and> p95 \<le> p99 \<and>
    {p50, p95, p99} \<subseteq> set (ld_latencies pool)"
proof -
  let ?s = "sort (ld_latencies pool)"
  have nonempty: "?s \<noteq> []" using assms(1) by (metis length_0_conv length_sort)
  obtain p50 where p50: "percentile ?s 50 = Some p50" "p50 \<in> set ?s"
    using percentile_nearest_rank[OF sorted_sort nonempty, of 50] by auto
  obtain p95 where p95: "percentile ?s 95 = Some p95" "p95 \<in> set ?s"
    using percentile_nearest_rank[OF sorted_sort nonempty, of 95] by auto
  obtain p99 where p99: "percentile ?s 99 = Some p99" "p99 \<in> set ?s"
    using percentile_nearest_rank[OF sorted_sort nonempty, of 99] by auto
  have "p50 \<le> p95" "p95 \<le> p99"
    using percentile_mono[OF sorted_sort _ _ p50(1) p95(1)] percentile_mono[OF sorted_sort _ _ p95(1) p99(1)] by simp_all
  then show ?thesis using p50 p95 p99 assms(2) by (simp add: load_report_of_def Let_def)
qed

lemma load_pool_ended:
  assumes "reachable (load_start requests concurrency) load_step pool" and "\<nexists>t. load_step pool t"
  shows "ld_maxInFlight pool \<le> int concurrency \<and>
    (\<not> ld_cancelled pool \<longrightarrow> ld_completed pool + ld_failed pool = requests \<and> length (ld_latencies pool) = requests)"
proof -
  have "load_inv requests concurrency pool" using assms(1) by (rule pool.reachable_inv)
  then show ?thesis using load_stuck[OF assms(2)] by (auto simp: load_inv_def count_of_def)
qed

text \<open>\<^bold>\<open>The report of a campaign accounts for every request and every sample.\<close> Whatever the interleaving of the
  pool, when \<^verbatim>\<open>run\<close> returns a report the settings were valid and each requested call is counted once as
  completed or failed, with as many latencies; no more were ever in flight than configured; the
  three percentiles are measured latencies in ascending order; the maxima cover the first sample and
  every later one that succeeded, and each sample that failed while the campaign ran is counted.\<close>

theorem load_report_accounts:
  assumes "reachable (load_start (nat (lc_Requests settings)) (nat (lc_Concurrency settings))) load_step pool"
    and "\<nexists>t. load_step pool t"
    and "load_run a parse decode settings ctx_present ctxErr initial sampleErr ticks pool cancelErr elapsed = Inr r"
  shows "int (lr_Completed r + lr_Failed r) = lr_Requested r \<and> lr_Requested r = lc_Requests settings \<and>
    int (fst (lr_RequestsPerSecond r)) = lc_Requests settings \<and> lr_MaxInFlight r \<le> lc_Concurrency settings \<and>
    (\<exists>p50 p95 p99. lr_P50 r = Some p50 \<and> lr_P95 r = Some p95 \<and> lr_P99 r = Some p99 \<and> p50 \<le> p95 \<and> p95 \<le> p99 \<and>
      {p50, p95, p99} \<subseteq> set (ld_latencies pool)) \<and>
    (answer \<in> set (initial # map fst ticks) \<and> sample_of decode answer = Some sample \<longrightarrow> covers_sample (lr_Maxima r) sample) \<and>
    lr_SampleFailures r = count_of (\<lambda>(answer, stopped). sample_of decode answer = None \<and> \<not> stopped) ticks"
proof -
  from assms(3) obtain m n f where valid: "valid_settings parse ctx_present settings" and first: "sampleResources decode initial no_maxima = Some m"
    and running: "\<not> ld_cancelled pool" and ticks: "sampler decode ticks m 0 = (n, f)" and r: "r = load_report_of settings pool elapsed n f"
    by (auto simp: load_run_def split: if_splits option.splits prod.splits)
  have sizes: "1 \<le> lc_Requests settings" "1 \<le> lc_Concurrency settings" using valid by (auto simp: valid_settings_def)
  note pool = load_pool_ended[OF assms(1,2)]
  have counts: "ld_completed pool + ld_failed pool = nat (lc_Requests settings)" "length (ld_latencies pool) = nat (lc_Requests settings)"
    using pool running by auto
  have "ld_latencies pool \<noteq> []" using counts(2) sizes(1) by auto
  note percentiles = report_percentiles[OF this r]
  have cover: "covers_sample n sample" if member: "answer \<in> set (initial # map fst ticks)" and given: "sample_of decode answer = Some sample"
  proof (cases "answer = initial")
    case True
    then show ?thesis using sampler_covers[OF ticks] sampleResources_Some[OF first] given covers_mono by auto
  next
    case False
    then obtain stopped where "(answer, stopped) \<in> set ticks" using member by auto
    then show ?thesis using sampler_covers[OF ticks] given by blast
  qed
  have flight: "lr_MaxInFlight r \<le> lc_Concurrency settings" using pool sizes(2) by (auto simp: r load_report_of_def Let_def)
  have requested: "lr_Requested r = lc_Requests settings" by (simp add: r load_report_of_def Let_def)
  have totals: "int (lr_Completed r + lr_Failed r) = lr_Requested r" "int (fst (lr_RequestsPerSecond r)) = lc_Requests settings"
    using counts sizes(1) by (simp_all add: r load_report_of_def Let_def)
  have "lr_Maxima r = n" "lr_SampleFailures r = f" by (simp_all add: r load_report_of_def Let_def)
  then have samples: "lr_SampleFailures r = count_of (\<lambda>(answer, stopped). sample_of decode answer = None \<and> \<not> stopped) ticks"
    and "answer \<in> set (initial # map fst ticks) \<and> sample_of decode answer = Some sample \<longrightarrow> covers_sample (lr_Maxima r) sample"
    using cover sampler_covers[OF ticks] by simp_all
  with flight requested totals percentiles show ?thesis by blast
qed

text \<open>One request by one worker, one tick without an answer.\<close>

definition sample_settings :: load_config where
  "sample_settings = \<lparr>lc_Endpoint = ''e'', lc_ResourcesEndpoint = ''r'', lc_Requests = 1, lc_Concurrency = 1, lc_RequestTimeout = 1, lc_SampleInterval = 1\<rparr>"

definition ended_pool :: load_sys where
  "ended_pool = \<lparr>ld_workers = [WorkerDone], ld_toSend = 0, ld_closed = True, ld_cancelled = False,
     ld_inFlight = 0, ld_maxInFlight = 1, ld_completed = 1, ld_failed = 0, ld_latencies = [7]\<rparr>"

lemma ended_pool_reached: "reachable (load_start 1 1) load_step ended_pool"
proof -
  let ?s = "\<lambda>w n c f m d l. \<lparr>ld_workers = [w], ld_toSend = n, ld_closed = c, ld_cancelled = False,
     ld_inFlight = f, ld_maxInFlight = m, ld_completed = d, ld_failed = 0, ld_latencies = l\<rparr>"
  have thread: "load_step s s'" if "ld_workers s = [v]" and
    "case worker_thread False 7 v s of None \<Rightarrow> False | Some (t, w) \<Rightarrow> t\<lparr>ld_workers := [w]\<rparr> = s'" for s s' v
    using load_worker[of 0 s False 7] that by (auto split: option.splits prod.splits)
  have "reachable (load_start 1 1) load_step (?s WorkerIdle 1 False 0 0 0 [])"
    by (rule reachable_init) (simp add: load_start_def)
  moreover have "load_step (?s WorkerIdle 1 False 0 0 0 []) (?s WorkerReceived 0 False 0 0 0 [])"
    using load_send[of 0 "?s WorkerIdle 1 False 0 0 0 []" 0] by simp
  moreover have "load_step (?s WorkerReceived 0 False 0 0 0 []) (?s (WorkerCounted 1) 0 False 1 0 0 [])"
    by (rule thread, simp, simp)
  moreover have "load_step (?s (WorkerCounted 1) 0 False 1 0 0 []) (?s WorkerRequesting 0 False 1 1 0 [])"
    by (rule thread, simp, simp)
  moreover have "load_step (?s WorkerRequesting 0 False 1 1 0 []) (?s (WorkerTimed False) 0 False 1 1 0 [7])"
    by (rule thread, simp, simp)
  moreover have "load_step (?s (WorkerTimed False) 0 False 1 1 0 [7]) (?s (WorkerUncounted False) 0 False 0 1 0 [7])"
    by (rule thread, simp, simp)
  moreover have "load_step (?s (WorkerUncounted False) 0 False 0 1 0 [7]) (?s WorkerIdle 0 False 0 1 1 [7])"
    by (rule thread, simp, simp)
  moreover have "load_step (?s WorkerIdle 0 False 0 1 1 [7]) (?s WorkerIdle 0 True 0 1 1 [7])"
    using load_close[of "?s WorkerIdle 0 False 0 1 1 [7]"] by simp
  moreover have "load_step (?s WorkerIdle 0 True 0 1 1 [7]) (?s WorkerDone 0 True 0 1 1 [7])"
    by (rule thread, simp, simp)
  ultimately have "reachable (load_start 1 1) load_step (?s WorkerDone 0 True 0 1 1 [7])"
    by (meson reachable_step)
  then show ?thesis by (simp add: ended_pool_def)
qed

theorem load_report_accounts_witness:
  "\<exists>r. load_run 1 (\<lambda>_. Some (''http'', ''h'')) (\<lambda>_. Some (5, 6, 7, 8)) sample_settings True NilErr (Answer 200 [] False) NilErr
      [(NoAnswer, False), (NoAnswer, True)] ended_pool NilErr 9 = Inr r \<and> lr_Completed r + lr_Failed r = 1 \<and> lr_SampleFailures r = 1"
proof -
  have settled: "reachable (load_start (nat (lc_Requests sample_settings)) (nat (lc_Concurrency sample_settings))) load_step ended_pool"
    using ended_pool_reached by (simp add: sample_settings_def)
  have "\<nexists>t. load_step ended_pool t"
    by (auto simp: ended_pool_def elim!: load_step.cases)
  note ended = load_report_accounts[OF settled this]
  obtain r where r: "load_run 1 (\<lambda>_. Some (''http'', ''h'')) (\<lambda>_. Some (5, 6, 7, 8)) sample_settings True NilErr (Answer 200 [] False) NilErr
      [(NoAnswer, False), (NoAnswer, True)] ended_pool NilErr 9 = Inr r"
    by (simp add: load_run_def valid_settings_def validEndpoint_def sample_settings_def sampleResources_def ended_pool_def)
  have "int (lr_Completed r + lr_Failed r) = lc_Requests sample_settings"
    and "lr_SampleFailures r = count_of (\<lambda>(answer, stopped). sample_of (\<lambda>_. Some (5, 6, 7, 8)) answer = None \<and> \<not> stopped)
      [(NoAnswer, False), (NoAnswer, True)]"
    using ended[OF r] by metis+
  then have "lr_Completed r + lr_Failed r = 1 \<and> lr_SampleFailures r = 1"
    by (simp add: sample_settings_def sample_of_def count_of_def)
  with r show ?thesis by blast
qed

end
