(* ===== verification/Platform_Fixture.thy ===== *)
theory Platform_Fixture
  imports Go_Errors
begin

section \<open>The platform fixture\<close>

text \<open>
  Models \<^verbatim>\<open>integration/reference-platform/cmd/platform-fixture/main.go\<close>: the throwaway certificate with its private key, and the process that publishes it
  and serves until a signal. Key generation, encoding, the file system and the server are the
  world: their results are arguments, and what the process does to files and listeners is recorded
  in order.
\<close>

datatype fixture_act =
    MakeTempDir string
  | WriteFile string string nat
  | RemoveAll string
  | OpenListener nat
  | CloseListener nat
  | ServeTLS string string

definition owner_only :: nat where "owner_only = 384"

definition world_readable :: nat where "world_readable = 420"

text \<open>The modes are \<^verbatim>\<open>0o600\<close> and \<^verbatim>\<open>0o644\<close>.\<close>

record generated_certificate =
  gc_CertificatePEM :: string
  gc_CertificatePath :: string
  gc_Directory :: string
  gc_PrivateKeyPath :: string

record certificate_template =
  ct_NotBefore :: int
  ct_NotAfter :: int
  ct_SerialNumber :: int
  ct_CommonName :: string
  ct_IsCA :: bool
  ct_DNSNames :: "string list"
  ct_IPAddresses :: "string list"

definition fixture_template :: "int \<Rightarrow> certificate_template" where
  "fixture_template now =
     \<lparr>ct_NotBefore = now - minute, ct_NotAfter = now + 60 * minute, ct_SerialNumber = now,
      ct_CommonName = ''reference-platform'', ct_IsCA = True,
      ct_DNSNames = [''host.docker.internal'', ''localhost''], ct_IPAddresses = [''127.0.0.1'']\<rparr>"

text \<open>
  What the calls of \<^verbatim>\<open>generateCertificate\<close> return: the key, the signed certificate from its template, the two encoded
  blocks, the new directory and the two writes.
\<close>

record certificate_calls =
  cc_GenerateKey :: go_error
  cc_now :: int
  cc_CreateCertificate :: "certificate_template \<Rightarrow> go_error + string"
  cc_MarshalKey :: "go_error + string"
  cc_MkdirTemp :: "go_error + string"
  cc_WriteCertificate :: go_error
  cc_WriteKey :: go_error

definition generateCertificate :: "(string \<Rightarrow> string) \<Rightarrow> (string \<Rightarrow> string) \<Rightarrow> certificate_calls \<Rightarrow> (go_error + generated_certificate) \<times> fixture_act list" where
  "generateCertificate certificatePEM keyPEM w =
     (if cc_GenerateKey w \<noteq> NilErr then (Inl (cc_GenerateKey w), [])
      else case cc_CreateCertificate w (fixture_template (cc_now w)) of
        Inl err \<Rightarrow> (Inl err, [])
      | Inr der \<Rightarrow>
          (case cc_MarshalKey w of
             Inl err \<Rightarrow> (Inl err, [])
           | Inr privateDER \<Rightarrow>
               (case cc_MkdirTemp w of
                  Inl err \<Rightarrow> (Inl err, [])
                | Inr directory \<Rightarrow>
                    let certificatePath = directory @ ''/server.crt'';
                        privateKeyPath = directory @ ''/server.key'';
                        acts = [MakeTempDir directory, WriteFile certificatePath (certificatePEM der) owner_only]
                    in if cc_WriteCertificate w \<noteq> NilErr then (Inl (cc_WriteCertificate w), acts @ [RemoveAll directory])
                    else
                      let acts = acts @ [WriteFile privateKeyPath (keyPEM privateDER) owner_only] in
                      if cc_WriteKey w \<noteq> NilErr then (Inl (cc_WriteKey w), acts @ [RemoveAll directory])
                      else (Inr \<lparr>gc_CertificatePEM = certificatePEM der, gc_CertificatePath = certificatePath,
                              gc_Directory = directory, gc_PrivateKeyPath = privateKeyPath\<rparr>, acts))))"

subsection \<open>The process\<close>

text \<open>
  The flags, and what the calls of \<^verbatim>\<open>main\<close> return. \<^verbatim>\<open>fatal\<close> prints the error and exits with 1, which skips every
  deferred call; only the return of \<^verbatim>\<open>main\<close> runs them. \<open>serveErr\<close> is what \<^verbatim>\<open>ServeTLS\<close> returned.
\<close>

record fixture_calls =
  fc_publishErr :: go_error
  fc_listen :: "go_error + nat"
  fc_readyErr :: go_error
  fc_serveErr :: go_error

definition ready_line :: "nat \<Rightarrow> string" where
  "ready_line port = itoa port @ [CHR 0x0A]"

definition fixture_serve :: "string \<Rightarrow> string \<Rightarrow> generated_certificate \<Rightarrow> fixture_calls \<Rightarrow> nat \<times> fixture_act list" where
  "fixture_serve certificatePath readyPath certificate w =
     (let published = [WriteFile certificatePath (gc_CertificatePEM certificate) world_readable] in
      if fc_publishErr w \<noteq> NilErr then (1, published)
      else case fc_listen w of
        Inl err \<Rightarrow> (1, published)
      | Inr port \<Rightarrow>
          let ready = published @ [OpenListener port, WriteFile readyPath (ready_line port) owner_only] in
          if fc_readyErr w \<noteq> NilErr then (1, ready @ [CloseListener port])
          else
            let served = ready @ [ServeTLS (gc_CertificatePath certificate) (gc_PrivateKeyPath certificate)] in
            if fc_serveErr w \<noteq> NilErr \<and> fc_serveErr w \<noteq> Sentinel ErrServerClosed then (1, served)
            else (0, served @ [RemoveAll (gc_Directory certificate)]))"

definition fixture_main ::
    "(string \<Rightarrow> string) \<Rightarrow> (string \<Rightarrow> string) \<Rightarrow> string \<Rightarrow> string \<Rightarrow> certificate_calls \<Rightarrow> fixture_calls \<Rightarrow> nat \<times> fixture_act list" where
  "fixture_main certificatePEM keyPEM certificatePath readyPath c w =
     (if certificatePath = [] \<or> readyPath = [] then (1, [])
      else case generateCertificate certificatePEM keyPEM c of
        (Inl err, acts) \<Rightarrow> (1, acts)
      | (Inr certificate, acts) \<Rightarrow>
          let (code, served) = fixture_serve certificatePath readyPath certificate w in (code, acts @ served))"

subsection \<open>What stays on disk\<close>

definition below :: "string \<Rightarrow> string set" where
  "below directory = {p. p = directory \<or> prefix (directory @ ''/'') p}"

fun disk_act :: "fixture_act \<Rightarrow> string set \<Rightarrow> string set" where
  "disk_act (MakeTempDir d) files = insert d files"
| "disk_act (WriteFile p _ _) files = insert p files"
| "disk_act (RemoveAll d) files = files - below d"
| "disk_act _ files = files"

definition left_on_disk :: "fixture_act list \<Rightarrow> string set" where
  "left_on_disk acts = fold disk_act acts {}"

lemma below_server [simp]: "directory \<in> below directory" "directory @ ''/server.crt'' \<in> below directory" "directory @ ''/server.key'' \<in> below directory"
  by (simp_all add: below_def prefix_def)

lemma generated_shape:
  assumes "generateCertificate certificatePEM keyPEM c = (r, acts)"
  shows "case r of
      Inl err \<Rightarrow> left_on_disk acts = {}
    | Inr g \<Rightarrow> left_on_disk acts = {gc_Directory g, gc_CertificatePath g, gc_PrivateKeyPath g} \<and>
        gc_CertificatePath g = gc_Directory g @ ''/server.crt'' \<and> gc_PrivateKeyPath g = gc_Directory g @ ''/server.key'' \<and>
        (\<exists>key. WriteFile (gc_PrivateKeyPath g) key owner_only \<in> set acts)"
  using assms by (auto simp: generateCertificate_def left_on_disk_def Let_def split: if_splits sum.splits)

lemma serve_disk:
  "fixture_serve certificatePath readyPath g w = (code, served) \<Longrightarrow>
     code = 0 \<and> fold disk_act served files = insert readyPath (insert certificatePath files) - below (gc_Directory g) \<or>
     code = 1 \<and> files \<subseteq> fold disk_act served files"
  by (auto simp: fixture_serve_def Let_def split: if_splits sum.splits)

text \<open>\<^bold>\<open>The private key is removed exactly when the fixture returns.\<close> A failure while the certificate is generated
  leaves nothing on disk. After it was generated, key file included and readable by the owner only,
  a run that ends with status 0 has removed the directory with the key and leaves exactly the
  published certificate and the port file; a run that ends with status 1 has left the directory with
  the key behind, since \<^verbatim>\<open>fatal\<close> exits before the deferred removal.\<close>

theorem fixture_key_cleanup:
  assumes "fixture_main certificatePEM keyPEM certificatePath readyPath c w = (code, acts)"
    and "generateCertificate certificatePEM keyPEM c = (r, generated)"
    and "certificatePath \<noteq> []" and "readyPath \<noteq> []"
  shows "case r of
      Inl err \<Rightarrow> code = 1 \<and> left_on_disk acts = {}
    | Inr g \<Rightarrow> (certificatePath \<notin> below (gc_Directory g) \<and> readyPath \<notin> below (gc_Directory g) \<longrightarrow>
        (code = 0 \<longrightarrow> left_on_disk acts = {certificatePath, readyPath}) \<and>
        (code \<noteq> 0 \<longrightarrow> code = 1 \<and> {gc_Directory g, gc_PrivateKeyPath g} \<subseteq> left_on_disk acts))"
proof (cases r)
  case (Inl err)
  then show ?thesis using assms generated_shape[OF assms(2)] by (simp add: fixture_main_def)
next
  case (Inr g)
  note shape = generated_shape[OF assms(2), unfolded Inr, simplified]
  obtain served where served: "fixture_serve certificatePath readyPath g w = (code, served)" and acts: "acts = generated @ served"
    using assms Inr by (auto simp: fixture_main_def split: prod.splits)
  have disk: "left_on_disk acts = fold disk_act served (left_on_disk generated)" by (simp add: acts left_on_disk_def)
  have inside: "left_on_disk generated \<subseteq> below (gc_Directory g)" "{gc_Directory g, gc_PrivateKeyPath g} \<subseteq> left_on_disk generated"
    using shape by auto
  have "(code = 0 \<longrightarrow> left_on_disk acts = {certificatePath, readyPath}) \<and>
      (code \<noteq> 0 \<longrightarrow> code = 1 \<and> {gc_Directory g, gc_PrivateKeyPath g} \<subseteq> left_on_disk acts)"
    if "certificatePath \<notin> below (gc_Directory g)" "readyPath \<notin> below (gc_Directory g)"
    using serve_disk[OF served, of "left_on_disk generated"]
  proof
    assume "code = 0 \<and> fold disk_act served (left_on_disk generated) =
      insert readyPath (insert certificatePath (left_on_disk generated)) - below (gc_Directory g)"
    then show ?thesis using inside(1) that unfolding disk by blast
  next
    assume "code = 1 \<and> left_on_disk generated \<subseteq> fold disk_act served (left_on_disk generated)"
    then show ?thesis using inside(2) unfolding disk by auto
  qed
  then show ?thesis by (simp add: Inr)
qed

definition working_calls :: certificate_calls where
  "working_calls =
     \<lparr>cc_GenerateKey = NilErr, cc_now = 0, cc_CreateCertificate = (\<lambda>_. Inr ''der''), cc_MarshalKey = Inr ''key'',
      cc_MkdirTemp = Inr ''/tmp/f'', cc_WriteCertificate = NilErr, cc_WriteKey = NilErr\<rparr>"

theorem fixture_key_cleanup_witness:
  "''/tmp/f/server.key'' \<in> left_on_disk (snd (fixture_main id id ''ca.pem'' ''port'' working_calls
     \<lparr>fc_publishErr = NilErr, fc_listen = Inl (ErrorString 1 ''bind''), fc_readyErr = NilErr, fc_serveErr = NilErr\<rparr>))"
proof -
  let ?w = "\<lparr>fc_publishErr = NilErr, fc_listen = Inl (ErrorString 1 ''bind''), fc_readyErr = NilErr, fc_serveErr = NilErr\<rparr>"
  have generated: "generateCertificate id id working_calls =
      (Inr \<lparr>gc_CertificatePEM = ''der'', gc_CertificatePath = ''/tmp/f/server.crt'', gc_Directory = ''/tmp/f'',
         gc_PrivateKeyPath = ''/tmp/f/server.key''\<rparr>,
       [MakeTempDir ''/tmp/f'', WriteFile ''/tmp/f/server.crt'' ''der'' owner_only, WriteFile ''/tmp/f/server.key'' ''key'' owner_only])"
    by (simp add: generateCertificate_def working_calls_def Let_def)
  obtain code acts where main: "fixture_main id id ''ca.pem'' ''port'' working_calls ?w = (code, acts)" by fastforce
  then have "code = 1" by (simp add: fixture_main_def generated fixture_serve_def Let_def)
  with fixture_key_cleanup[OF main generated] main show ?thesis by (simp add: below_def)
qed

end
