(* ===== verification/Tokens.thy ===== *)
theory Tokens
  imports Maintenance Durability_Run
begin

section \<open>Random tokens\<close>

text \<open>
  Models \<^verbatim>\<open>generateMaintenanceSecret\<close> of \<^verbatim>\<open>maintenance.go\<close> and the helpers of
  \<^verbatim>\<open>integration/reference-durability/{reference,postgres}.go\<close> that draw a token, resolve the database address and roll back. The random bytes
  the system delivers are arguments; the two text encodings are the standard library's.
\<close>

subsection \<open>Encodings\<close>

text \<open>\<^verbatim>\<open>hex.EncodeToString\<close>, and the value of a digit for reading it back.\<close>

definition hex_alphabet :: string where "hex_alphabet = ''0123456789abcdef''"

definition hex_of :: "nat \<Rightarrow> char" where "hex_of n = hex_alphabet ! n"

fun hex_encode :: "nat list \<Rightarrow> string" where
  "hex_encode [] = []"
| "hex_encode (b # bs) = hex_of (b div 16) # hex_of (b mod 16) # hex_encode bs"

definition hex_value :: "char \<Rightarrow> nat" where
  "hex_value c = length (takeWhile (\<lambda>d. d \<noteq> c) hex_alphabet)"

fun hex_decode :: "string \<Rightarrow> nat list" where
  "hex_decode (c # d # s) = (hex_value c * 16 + hex_value d) # hex_decode s"
| "hex_decode _ = []"

text \<open>\<^verbatim>\<open>rand.Text\<close> of \<^verbatim>\<open>crypto/rand\<close>: 26 random bytes, each reduced to a letter of the base 32 alphabet.\<close>

definition base32_alphabet :: string where "base32_alphabet = ''ABCDEFGHIJKLMNOPQRSTUVWXYZ234567''"

definition rand_Text :: "nat list \<Rightarrow> string" where
  "rand_Text bytes = map (\<lambda>b. base32_alphabet ! (b mod 32)) bytes"

subsection \<open>The tokens\<close>

definition generateMaintenanceSecret :: "nat list \<Rightarrow> string" where
  "generateMaintenanceSecret bytes = rand_Text bytes"

text \<open>\<open>read\<close> is what \<^verbatim>\<open>rand.Read\<close> did with the 16 bytes of the buffer.\<close>

definition randomToken :: "go_error + nat list \<Rightarrow> go_error + string" where
  "randomToken read = (case read of Inl err \<Rightarrow> Inl err | Inr bytes \<Rightarrow> Inr (hex_encode bytes))"

subsection \<open>Database helpers\<close>

text \<open>\<open>parse\<close> is the driver's parser.\<close>

definition resolvePostgresDSN :: "(string \<Rightarrow> go_error + 'p) \<Rightarrow> ctx_state \<Rightarrow> string \<Rightarrow> go_error + 'p" where
  "resolvePostgresDSN parse ctx dsn = (if ctx_err ctx \<noteq> NilErr then Inl (ctx_err ctx) else parse dsn)"

text \<open>
  \<^verbatim>\<open>rollback\<close> runs under its own deadline, five seconds from now, whatever became of the caller's context, and drops the
  error.
\<close>

definition rollback_tx :: "(duration \<Rightarrow> 'd \<Rightarrow> 'd \<times> go_error) \<Rightarrow> duration \<Rightarrow> 'd \<Rightarrow> 'd" where
  "rollback_tx transaction now database = fst (transaction (now + 5 * second) database)"

definition admission_bytes :: "string \<Rightarrow> string" where
  "admission_bytes content = content"

subsection \<open>Tokens are distinct and secrets valid\<close>

lemma hex_value_of: "n < 16 \<Longrightarrow> hex_value (hex_of n) = n"
proof -
  have "\<forall>n \<in> set [0..<16]. hex_value (hex_of n) = n" by code_simp
  then show "n < 16 \<Longrightarrow> hex_value (hex_of n) = n" by simp
qed

lemma hex_decode_encode: "list_all (\<lambda>b. b < 256) bytes \<Longrightarrow> hex_decode (hex_encode bytes) = bytes"
  by (induction bytes) (simp_all add: hex_value_of less_mult_imp_div_less)

lemma hex_encode_length: "length (hex_encode bytes) = 2 * length bytes"
  by (induction bytes) simp_all

text \<open>\<^bold>\<open>Tokens lose none of their randomness and generated secrets are accepted.\<close> A token has two digits for each
  random byte, 32 for the sixteen drawn, decoding gives the bytes back, so different draws give
  different tokens. A secret generated for maintenance mode has the length of the draw and passes the
  validation of maintenance secrets, so \<^verbatim>\<open>down --with-secret\<close> never fails on its own secret.\<close>

theorem tokens_faithful:
  assumes "length bytes = 16" and "list_all (\<lambda>b. b < 256) bytes" and "length drawn = 26"
  shows "(\<exists>token. randomToken (Inr bytes) = Inr token \<and> length token = 32 \<and> hex_decode token = bytes) \<and>
    length (generateMaintenanceSecret drawn) = 26 \<and> validMaintenanceSecret (generateMaintenanceSecret drawn)"
proof -
  have "\<forall>n \<in> set [0..<32]. secret_character (base32_alphabet ! n)" by code_simp
  then have "secret_character (base32_alphabet ! (b mod 32))" for b by simp
  then have "validMaintenanceSecret (generateMaintenanceSecret drawn)"
    using assms(3) by (auto simp: validMaintenanceSecret_def generateMaintenanceSecret_def rand_Text_def list_all_iff)
  then show ?thesis
    using assms by (simp add: randomToken_def hex_encode_length hex_decode_encode generateMaintenanceSecret_def rand_Text_def)
qed

theorem tokens_faithful_witness:
  "hex_decode (hex_encode [0, 255, 16, 0, 1, 2, 3, 4, 5, 6, 7, 8, 9, 10, 11, 12]) = [0, 255, 16, 0, 1, 2, 3, 4, 5, 6, 7, 8, 9, 10, 11, 12] \<and>
   validMaintenanceSecret (generateMaintenanceSecret (replicate 26 7)) \<and> take 3 (generateMaintenanceSecret (replicate 26 7)) = ''HHH''"
proof -
  have "\<exists>token. randomToken (Inr [0, 255, 16, 0, 1, 2, 3, 4, 5, 6, 7, 8, 9, 10, 11, 12]) = Inr token \<and> length token = 32 \<and>
      hex_decode token = [0, 255, 16, 0, 1, 2, 3, 4, 5, 6, 7, 8, 9, 10, 11, 12]"
    and "validMaintenanceSecret (generateMaintenanceSecret (replicate 26 7))"
    using tokens_faithful[of "[0, 255, 16, 0, 1, 2, 3, 4, 5, 6, 7, 8, 9, 10, 11, 12]" "replicate 26 7"] by auto
  moreover have "take 3 (generateMaintenanceSecret (replicate 26 7)) = ''HHH''"
    by code_simp
  ultimately show ?thesis by (auto simp: randomToken_def simp del: hex_encode.simps)
qed

end
