(* ===== verification/Spec2Isabelle.thy ===== *)
theory Spec2Isabelle
  imports Lifecycle_Correct Owned Http_Owners Command_Signals Observability Service_Test Integration_Hooks
    Diagnostics Adoption Reference_Platform Reference_External Reference_HTTP Load_Harness Queue_Skew Recovery_Probe
    Durability_Run Owner_Run Plan_Lifecycle Plan_Snapshot Command_Application Api_Docs Load_Run Platform_Fixture Tokens
begin

text \<open>
  \<^bold>\<open>A verification library for the Go module \<^verbatim>\<open>go-service\<close>.\<close>

  \<^bold>\<open>The program.\<close> The module runs a process made of named components. \<^verbatim>\<open>lifecycle.go\<close> is the kernel: a
  \<^verbatim>\<open>Service\<close> starts its components in order, supervises bounded tasks, and on cancellation closes
  admission, waits for the tasks and stops the components in reverse order. \<^verbatim>\<open>run.go\<close> drives one service
  from operating-system signals; \<^verbatim>\<open>owned.go\<close> turns a resource with Open and Close into a component;
  \<^verbatim>\<open>classification.go\<close> searches error trees; \<^verbatim>\<open>shutdown_budget.go\<close> divides the shutdown allowance between
  draining and component cleanup. \<^verbatim>\<open>platform.go\<close> compiles a \<^verbatim>\<open>Definition\<close> to commands, builds a
  validated \<^verbatim>\<open>Plan\<close> into a service with a management and a business HTTP owner, executes it and maps the
  outcome to an exit code; \<^verbatim>\<open>maintenance.go\<close> adds the maintenance gate, its stores and its commands.
  \<^verbatim>\<open>serverhttp/\<close> is the HTTP server with its handler stack and \<^verbatim>\<open>healthhttp/\<close> the probes.

  \<^bold>\<open>Theories and sources.\<close>
  \<^item> \<open>Prelude\<close>: types shared by all, \<^verbatim>\<open>strings.TrimSpace\<close>, channels that are only closed, reachability, and
    the locale \<open>safe_system\<close> (an invariant kept by every step).
  \<^item> \<open>Go_Errors\<close>: every error type of the module as one tree datatype, \<^verbatim>\<open>errors.Join\<close>, \<^verbatim>\<open>Unwrap\<close>, \<^verbatim>\<open>Is\<close>.
  \<^item> \<open>Classification\<close> (\<^verbatim>\<open>classification.go\<close>, the cancellation test of \<^verbatim>\<open>lifecycle.go\<close>): the bounded walk is the
    depth-first search; the memoised test equals its plain definition.
  \<^item> \<open>Lifecycle\<close> (\<^verbatim>\<open>lifecycle.go\<close>): configuration, the \<open>service\<close> record and one definition for each
    critical section. \<open>Lifecycle_System\<close>: threads as program points of the methods, callbacks as
    environment, interleaving as an inductive step relation. \<open>Lifecycle_Safety\<close>, \<open>Lifecycle_Order\<close>,
    \<open>Lifecycle_Invariant\<close>: the inductive invariant. \<open>Lifecycle_Correct\<close>: what it means (order of cleanup,
    joins, results, single closes), an explicit bound on every run and that a stopping service stops.
  \<^item> \<open>Owned\<close> (\<^verbatim>\<open>owned.go\<close>): the callbacks under interleaving; each opened resource is closed once.
  \<^item> \<open>Shutdown_Budget\<close> (\<^verbatim>\<open>shutdown_budget.go\<close>): the waiter over time. \<open>Run\<close> (\<^verbatim>\<open>run.go\<close>, \<^verbatim>\<open>signals_*.go\<close>): what a
    run does for each order of events.
  \<^item> \<open>Capacity\<close>: the semaphore contract and the buffered channel that provides it. \<open>Health\<close>
    (\<^verbatim>\<open>healthhttp/health.go\<close>): evaluation of checks, handlers, the concurrency bound.
  \<^item> \<open>Http_Writer\<close>: \<^verbatim>\<open>http.ResponseWriter\<close> and the contract \<open>response_writer\<close> of its wrappers. \<open>Http_Handlers\<close>
    (\<^verbatim>\<open>serverhttp/middleware.go\<close>), \<open>Handler_Join\<close>, \<open>Connection_Limit\<close>, \<open>Server_HTTP\<close> (the files of the same
    names): the handler stack, the handler drain as a refinement of rundown protection, the bound on
    connections, the one-shot \<^verbatim>\<open>Run\<close>.
  \<^item> \<open>Maintenance\<close> (\<^verbatim>\<open>maintenance.go\<close>): snapshots, stores whose files are bytes, polling, the gate with the location
    \<^verbatim>\<open>http.Redirect\<close> sends, and the commands.
  \<^item> \<open>Identity\<close>, \<open>Commands\<close>, \<open>Exit_Codes\<close>, \<open>Plan\<close>, \<open>Command_Signals\<close>, \<open>Http_Owners\<close> (\<^verbatim>\<open>platform.go\<close>): the
    identity grammars, command compilation, exit codes, plan validation and execution, the signal
    coordinator, the two HTTP owners. \<open>Diagnostics\<close>: the texts of the module's errors, which show no
    cause, and the boundary to the command-line library, which keeps classification and exit code.
    \<open>Plan_Lifecycle\<close>: the service a plan becomes, run by the lifecycle threads, and when its tasks fit.
    \<open>Owner_Run\<close>: the running business owner with its handlers and the command's questions interleaved.
    \<open>Plan_Snapshot\<close>: the copy of a plan on an explicit heap, isolated from what the application writes
    later. \<open>Command_Application\<close>: the command set and \<^verbatim>\<open>Main\<close>, from arguments to the exit code.
  \<^item> \<open>Observability\<close> (\<^verbatim>\<open>observability.go\<close> and the event calls of \<^verbatim>\<open>platform.go\<close>): the events of requests, probes,
    components and commands, and that observing changes nothing but the final status after an
    informational one. \<open>Integration_Hooks\<close> (\<^verbatim>\<open>integration/integration.go\<close>): hooks as components.
    \<open>Service_Test\<close> (\<^verbatim>\<open>servicetest/servicetest.go\<close>): barrier, recorder and the in-memory probe.
  \<^item> \<open>Adoption\<close> (\<^verbatim>\<open>integration/adoption\<close>) and \<open>Reference_Platform\<close> (\<^verbatim>\<open>integration/reference-platform\<close>): definitions handed to the
    platform, which its compilation accepts and its plans start in order. \<open>Load_Harness\<close> (\<^verbatim>\<open>cmd/platform-load\<close>): the
    lock-free maximum, the worker pool under interleaving, nearest-rank percentiles. \<open>Load_Run\<close>: the campaign
    around the pool and what its report accounts for. \<open>Platform_Fixture\<close> (\<^verbatim>\<open>cmd/platform-fixture\<close>): the throwaway key and
    when it is removed.
  \<^item> \<open>Examples\<close> (\<^verbatim>\<open>examples/\<close>): the seven programs, what their definitions compile to and which environments their
    plans run in. \<open>Api_Docs\<close> (\<^verbatim>\<open>scripts/check-api-docs.go\<close>): the check is exact up to methods of generic types. \<open>Tokens\<close>: random
    tokens and generated maintenance secrets.
  \<^item> \<open>Reference_Base\<close>: reads of bounded length with their contract \<open>bounded_reader\<close>. \<open>Reference_External\<close>,
    \<open>Reference_HTTP\<close> (\<^verbatim>\<open>integration/reference-external\<close>, \<^verbatim>\<open>integration/reference-http\<close>): bounded fetches, stored secrets,
    closing once; capabilities, the audited method.
  \<^item> \<open>Durability_Recovery\<close>, \<open>Recovery_Probe\<close>, \<open>Durability_Run\<close>, \<open>Queue_Skew\<close> (\<^verbatim>\<open>integration/reference-durability\<close>): functions as
    sequences of fallible calls that acquire clients, the release of every client on every path,
    what a nil error proves, the expectation file, the publishing and consuming loops.

  \<^bold>\<open>How the model relates to the code.\<close> A struct is a record, an error or enumeration a datatype, a
  method that holds a mutex throughout a function on the record. Code whose interleaving matters is
  split at its locks, channel operations and callbacks, and a theorem about it quantifies over every
  schedule. Application callbacks, \<^verbatim>\<open>net/http\<close>, the operating system and the third-party packages are
  arguments or environment steps. Durations and times are integers in nanoseconds; where the code
  multiplies or converts them, the 64-bit range is part of the statement.

  \<^bold>\<open>Bounds and fuel.\<close> Loops are structural recursions or have a termination proof; no definition uses
  fuel. Runs of the lifecycle threads, of the concurrent maximum and of the load pool are bounded by
  explicit measures. The capability serial is a 64-bit word and its wrap-around part of the statement.

  \<^bold>\<open>Not modelled.\<close> JSON and the RFC 3339 layout are arguments of the stored maintenance state (\<open>state_codec\<close>), with
  their round trips as hypotheses for the values they hold for (\<open>json_roundtrips\<close>, \<open>time_roundtrips\<close>); whether
  \<^verbatim>\<open>net/url\<close> parses a redirect target is an argument of the gate. The cookie digest and random bytes are arguments with
  the laws used as hypotheses. In the integrations PostgreSQL, Valkey, the queue, idempotency, outbox, signature,
  capability, tenancy, audit, retry and filesystem packages are not part of the repository: what
  their calls returned is an argument, and the objects their constructors build are not modelled, only
  the order of the calls, their failures and the cleanup. The command-line library is a parameter:
  which command sets it accepts is open, and what it does with the arguments of an accepted set is
  the hypotheses \<open>runs_selected\<close> and \<open>runs_named\<close>. Key generation, certificate encoding and
  TLS are arguments of the fixture. \<^verbatim>\<open>benchmarks/\<close> measures other frameworks beside the library, and the shell
  scripts are tooling.
\<close>

end
